(* ===== verification/Prelude.thy ===== *)
theory Prelude
  imports Main "HOL-Library.Multiset"
begin

text \<open>
  Shared vocabulary of the development.

  JavaScript errors are values (\<open>js_error\<close>), a synchronous function that may throw
  returns \<open>js_error + 'a\<close> (\<open>Inl\<close> is the thrown error), and an asynchronous
  function that awaits other calls is a state transformer \<open>'s \<Rightarrow> (js_error + 'a) \<times> 's\<close>:
  effects that happened before a rejection stay in the returned state, as they do in the
  program.  The combinators \<open>bind_res\<close>, \<open>bind_io\<close>, \<open>catch_io\<close> and
  \<open>for_each\<close> are the sequencing, \<open>try\<close>/\<open>catch\<close> and \<open>for ... await\<close> of the
  source.  The locale \<open>transition_system\<close> lifts an invariant from single steps to runs.
\<close>

named_theorems io_simps "unfolding of the sequencing combinators"
named_theorems js_defs "definitions of the JavaScript operations on values"

section \<open>Errors and results\<close>

datatype js_error = JsError (err_name: string) (err_message: string) (err_code: "string option")

abbreviation plain_error :: "string \<Rightarrow> js_error" where
  "plain_error m \<equiv> JsError ''Error'' m None"

abbreviation type_error :: "string \<Rightarrow> js_error" where
  "type_error m \<equiv> JsError ''TypeError'' m None"

abbreviation range_error :: "string \<Rightarrow> js_error" where
  "range_error m \<equiv> JsError ''RangeError'' m None"

abbreviation syntax_error :: "string \<Rightarrow> js_error" where
  "syntax_error m \<equiv> JsError ''SyntaxError'' m None"

fun bind_res :: "'e + 'a \<Rightarrow> ('a \<Rightarrow> 'e + 'b) \<Rightarrow> 'e + 'b" where
  "bind_res (Inl e) f = Inl e"
| "bind_res (Inr x) f = f x"

fun map_res :: "('a \<Rightarrow> 'b) \<Rightarrow> 'e + 'a \<Rightarrow> 'e + 'b" where
  "map_res f (Inl e) = Inl e"
| "map_res f (Inr x) = Inr (f x)"

fun traverse :: "('a \<Rightarrow> 'e + 'b) \<Rightarrow> 'a list \<Rightarrow> 'e + 'b list" where
  "traverse f [] = Inr []"
| "traverse f (x # xs) = bind_res (f x) (\<lambda>y. map_res ((#) y) (traverse f xs))"

lemma bind_res_Inr_iff [simp]:
  "bind_res r f = Inr y \<longleftrightarrow> (\<exists>x. r = Inr x \<and> f x = Inr y)"
  by (cases r) auto

lemma bind_res_Inl_iff [simp]:
  "bind_res r f = Inl e \<longleftrightarrow> r = Inl e \<or> (\<exists>x. r = Inr x \<and> f x = Inl e)"
  by (cases r) auto

lemma map_res_Inr_iff [simp]: "map_res f r = Inr y \<longleftrightarrow> (\<exists>x. r = Inr x \<and> y = f x)"
  by (cases r) auto

lemma map_res_Inl_iff [simp]: "map_res f r = Inl e \<longleftrightarrow> r = Inl e"
  by (cases r) auto

lemma traverse_Inr_all:
  "(\<And>x. x \<in> set xs \<Longrightarrow> f x = Inr (g x)) \<Longrightarrow> traverse f xs = Inr (map g xs)"
  by (induction xs) auto

lemma traverse_Inr_list_all2:
  "traverse f xs = Inr ys \<Longrightarrow> list_all2 (\<lambda>x y. f x = Inr y) xs ys"
  by (induction xs arbitrary: ys) auto

lemma traverse_first_error:
  "\<lbrakk> \<And>x. x \<in> set xs \<Longrightarrow> f x = Inr (g x); f y = Inl e \<rbrakk> \<Longrightarrow> traverse f (xs @ y # zs) = Inl e"
  by (induction xs) auto

section \<open>Asynchronous code with effects\<close>

type_synonym ('s, 'a) io = "'s \<Rightarrow> (js_error + 'a) \<times> 's"

definition return_io :: "'a \<Rightarrow> ('s, 'a) io" where
  "return_io x = (\<lambda>s. (Inr x, s))"

definition throw_io :: "js_error \<Rightarrow> ('s, 'a) io" where
  "throw_io e = (\<lambda>s. (Inl e, s))"

definition bind_io :: "('s, 'a) io \<Rightarrow> ('a \<Rightarrow> ('s, 'b) io) \<Rightarrow> ('s, 'b) io" where
  "bind_io m f = (\<lambda>s. case m s of (Inl e, s') \<Rightarrow> (Inl e, s') | (Inr x, s') \<Rightarrow> f x s')"

definition catch_io :: "('s, 'a) io \<Rightarrow> (js_error \<Rightarrow> ('s, 'a) io) \<Rightarrow> ('s, 'a) io" where
  "catch_io m h = (\<lambda>s. case m s of (Inl e, s') \<Rightarrow> h e s' | (Inr x, s') \<Rightarrow> (Inr x, s'))"

definition lift_io :: "js_error + 'a \<Rightarrow> ('s, 'a) io" where
  "lift_io r = (\<lambda>s. (r, s))"

fun for_each :: "('a \<Rightarrow> ('s, unit) io) \<Rightarrow> 'a list \<Rightarrow> ('s, unit) io" where
  "for_each f [] = return_io ()"
| "for_each f (x # xs) = bind_io (f x) (\<lambda>_. for_each f xs)"

lemmas io_defs = return_io_def throw_io_def bind_io_def catch_io_def lift_io_def

lemma bind_return_io [simp]: "bind_io (return_io x) f = f x"
  by (simp add: io_defs)

lemma bind_throw_io [simp]: "bind_io (throw_io e) f = throw_io e"
  by (simp add: io_defs)

lemma bind_io_return [simp]: "bind_io m return_io = m"
  by (rule ext) (simp add: io_defs split: prod.split sum.split)

lemma bind_io_unit [simp]: "bind_io m (\<lambda>_. return_io ()) = (m :: ('s, unit) io)"
  by (rule ext) (simp add: io_defs split: prod.split sum.split)

lemma bind_io_assoc: "bind_io (bind_io m f) g = bind_io m (\<lambda>x. bind_io (f x) g)"
  by (rule ext) (simp add: io_defs split: prod.split sum.split)

lemma for_each_append:
  "for_each f (xs @ ys) = bind_io (for_each f xs) (\<lambda>_. for_each f ys)"
  by (induction xs) (simp_all add: bind_io_assoc)

lemma for_each_concat:
  "for_each (\<lambda>x. for_each f (g x)) xs = for_each f (concat (map g xs))"
  by (induction xs) (simp_all add: for_each_append)

lemma for_each_map: "for_each f (map g xs) = for_each (\<lambda>x. f (g x)) xs"
  by (induction xs) simp_all

lemma for_each_cong [fundef_cong]:
  "\<lbrakk> xs = ys; \<And>x. x \<in> set ys \<Longrightarrow> f x = g x \<rbrakk> \<Longrightarrow> for_each f xs = for_each g ys"
  by (induction xs arbitrary: ys) (auto intro!: arg_cong [where f = "bind_io _"])

text \<open>When sequenced code returns a result\<close>

lemma bind_io_Inr_iff [io_simps]:
  "bind_io m f s = (Inr y, s') \<longleftrightarrow> (\<exists>x s1. m s = (Inr x, s1) \<and> f x s1 = (Inr y, s'))"
  by (auto simp: bind_io_def split: prod.split sum.split)

lemma lift_io_Inr_iff [io_simps]: "lift_io r s = (Inr x, s') \<longleftrightarrow> r = Inr x \<and> s' = s"
  by (auto simp: lift_io_def)

lemma return_io_Inr_iff [io_simps]: "return_io x s = (Inr y, s') \<longleftrightarrow> y = x \<and> s' = s"
  by (auto simp: return_io_def)

lemma throw_io_Inr_iff [io_simps]: "throw_io e s \<noteq> (Inr y, s')"
  by (simp add: throw_io_def)

lemma catch_rethrow_Inr_iff [io_simps]:
  "catch_io m (\<lambda>e. throw_io (g e)) s = (Inr x, s') \<longleftrightarrow> m s = (Inr x, s')"
  by (auto simp: catch_io_def throw_io_def split: prod.split sum.split)

text \<open>A loop whose body never throws runs to its end; its effect is the fold of the bodies.\<close>

lemma for_each_total:
  assumes "\<And>x s. x \<in> set xs \<Longrightarrow> f x s = (Inr (), h x s)"
  shows "for_each f xs s = (Inr (), fold h xs s)"
  using assms by (induction xs arbitrary: s) (simp_all add: io_defs)

text \<open>A loop stops at the first iteration that throws and keeps the effects made so far.\<close>

lemma for_each_stops:
  assumes "\<And>x s. x \<in> set xs \<Longrightarrow> f x s = (Inr (), h x s)"
    and "f y (fold h xs s) = (Inl e, s')"
  shows "for_each f (xs @ y # zs) s = (Inl e, s')"
proof -
  have "for_each f xs s = (Inr (), fold h xs s)"
    using assms(1) by (rule for_each_total)
  with assms(2) show ?thesis by (simp add: for_each_append io_defs)
qed

section \<open>Lists and association lists\<close>

lemma map_of_in_set: "map_of ps k = Some v \<Longrightarrow> k \<in> fst ` set ps"
  by (induction ps) (auto split: if_splits)

lemma mset_filter_split:
  "mset (filter P xs) + mset (filter (\<lambda>x. \<not> P x) xs) = mset xs"
  by (induction xs) auto

lemma concat_filter_key:
  assumes "distinct (map key xs)"
    and "\<And>y. y \<in> set ys \<Longrightarrow> owner y \<in> set (map key xs)"
  shows "mset (concat (map (\<lambda>x. filter (\<lambda>y. owner y = key x) ys) xs)) = mset ys"
  using assms
proof (induction xs arbitrary: ys)
  case Nil
  then show ?case by (cases ys) auto
next
  case (Cons x xs)
  let ?rest = "filter (\<lambda>y. owner y \<noteq> key x) ys"
  have eq: "map (\<lambda>z. filter (\<lambda>y. owner y = key z) ys) xs
      = map (\<lambda>z. filter (\<lambda>y. owner y = key z) ?rest) xs"
    using Cons.prems(1) by (auto intro!: filter_cong)
  have "mset (concat (map (\<lambda>z. filter (\<lambda>y. owner y = key z) ?rest) xs)) = mset ?rest"
    using Cons.prems by (intro Cons.IH) auto
  then show ?case
    using mset_filter_split [of "\<lambda>y. owner y = key x" ys] by (simp only: eq list.map concat.simps mset_append)
qed

section \<open>Strings\<close>

fun starts_with :: "'a list \<Rightarrow> 'a list \<Rightarrow> bool" where
  "starts_with [] ys = True"
| "starts_with (x # xs) [] = False"
| "starts_with (x # xs) (y # ys) = (x = y \<and> starts_with xs ys)"

text \<open>\<open>hay.includes(needle)\<close>\<close>

fun has_substring :: "'a list \<Rightarrow> 'a list \<Rightarrow> bool" where
  "has_substring needle [] = (needle = [])"
| "has_substring needle (y # ys) = (starts_with needle (y # ys) \<or> has_substring needle ys)"

lemma starts_with_iff: "starts_with xs ys \<longleftrightarrow> (\<exists>zs. ys = xs @ zs)"
  by (induction xs ys rule: starts_with.induct) auto

lemma has_substring_iff: "has_substring needle hay \<longleftrightarrow> (\<exists>pre post. hay = pre @ needle @ post)"
proof (induction hay)
  case Nil
  then show ?case by simp
next
  case (Cons y ys)
  have "(\<exists>pre post. y # ys = pre @ needle @ post)
      \<longleftrightarrow> (\<exists>post. y # ys = needle @ post) \<or> (\<exists>pre post. ys = pre @ needle @ post)"
    by (auto simp: Cons_eq_append_conv)
  with Cons show ?case by (simp add: starts_with_iff)
qed

section \<open>Runs of a machine\<close>

locale transition_system =
  fixes start :: "'s"
    and step :: "'e \<Rightarrow> 's \<Rightarrow> 's"
    and ok :: "'s \<Rightarrow> bool"
  assumes ok_start: "ok start"
    and ok_step: "ok s \<Longrightarrow> ok (step e s)"
begin

lemma ok_run: "ok s \<Longrightarrow> ok (fold step es s)"
  by (induction es arbitrary: s) (auto intro: ok_step)

lemma ok_reachable: "ok (fold step es start)"
  by (rule ok_run) (rule ok_start)

end

end
