(* ===== verification/JsValue.thy ===== *)
theory JsValue
  imports Prelude
begin

text \<open>
  The part of JavaScript that the program uses on values.

  A number is a finite double \<open>NumFin m e\<close> of value \<open>m * 2 ^ e\<close>, an infinity or NaN; a bigint is an
  \<open>int\<close>; an object is a bag of own properties with an identity, which is what \<open>===\<close> compares.
  Strings are lists of code units below 256.  \<open>js_get\<close> is a property read (it throws on
  \<open>undefined\<close> and \<open>null\<close>), \<open>bigint_to_number\<close> is \<open>Number(n)\<close> with its rounding to 53 bits,
  \<open>num_to_bigint\<close> and \<open>string_to_bigint\<close> are \<open>BigInt(x)\<close> on numbers and strings, \<open>num_rem\<close> is \<open>%\<close>
  and \<open>num_mul\<close> is \<open>*\<close>.
\<close>

section \<open>Numbers\<close>

datatype jsnum = NumNaN | NumInf bool | NumFin int int

definition scale :: "int \<Rightarrow> int \<Rightarrow> int \<Rightarrow> int" where
  "scale m e b = m * 2 ^ nat (e - b)"

fun num_eq :: "jsnum \<Rightarrow> jsnum \<Rightarrow> bool" where
  "num_eq (NumFin m e) (NumFin m' e') = (scale m e (min e e') = scale m' e' (min e e'))"
| "num_eq (NumInf s) (NumInf s') = (s = s')"
| "num_eq _ _ = False"

fun num_le :: "jsnum \<Rightarrow> jsnum \<Rightarrow> bool" where
  "num_le (NumFin m e) (NumFin m' e') = (scale m e (min e e') \<le> scale m' e' (min e e'))"
| "num_le (NumInf neg) (NumInf neg') = (neg \<or> \<not> neg')"
| "num_le (NumInf neg) (NumFin _ _) = neg"
| "num_le (NumFin _ _) (NumInf neg) = (\<not> neg)"
| "num_le _ _ = False"

fun num_truthy :: "jsnum \<Rightarrow> bool" where
  "num_truthy NumNaN = False"
| "num_truthy (NumInf _) = True"
| "num_truthy (NumFin m _) = (m \<noteq> 0)"

text \<open>\<open>a % b\<close>: the result has the sign of the dividend and is exact.\<close>

fun num_rem :: "jsnum \<Rightarrow> jsnum \<Rightarrow> jsnum" where
  "num_rem (NumFin m e) (NumFin m' e') =
     (if m' = 0 then NumNaN
      else let b = min e e'; x = scale m e b; y = scale m' e' b
           in NumFin (sgn x * (\<bar>x\<bar> mod \<bar>y\<bar>)) b)"
| "num_rem (NumFin m e) (NumInf _) = NumFin m e"
| "num_rem _ _ = NumNaN"

text \<open>Rounding to 53 significant bits, ties to even.\<close>

fun bit_len :: "nat \<Rightarrow> nat" where
  "bit_len n = (if n = 0 then 0 else Suc (bit_len (n div 2)))"

declare bit_len.simps [simp del]

definition round_sig :: "nat \<Rightarrow> nat" where
  "round_sig n =
     (if bit_len n \<le> 53 then n
      else let s = bit_len n - 53; q = n div 2 ^ s; r = n mod 2 ^ s; half = 2 ^ (s - 1);
               q' = (if half < r \<or> half = r \<and> odd q then Suc q else q)
           in q' * 2 ^ s)"

definition signed_round :: "int \<Rightarrow> int" where
  "signed_round n = sgn n * int (round_sig (nat \<bar>n\<bar>))"

text \<open>\<open>Number(n)\<close> of a bigint\<close>

definition bigint_to_number :: "int \<Rightarrow> jsnum" where
  "bigint_to_number n =
     (if 2 ^ 1024 \<le> \<bar>signed_round n\<bar> then NumInf (n < 0) else NumFin (signed_round n) 0)"

text \<open>
  \<open>a * b\<close> of two doubles whose product is in the normal range (the only product of the program is
  \<open>2000 * 0.9\<close>).
\<close>

fun num_mul :: "jsnum \<Rightarrow> jsnum \<Rightarrow> jsnum" where
  "num_mul (NumFin m e) (NumFin m' e') = NumFin (signed_round (m * m')) (e + e')"
| "num_mul (NumInf neg) (NumInf neg') = NumInf (neg \<noteq> neg')"
| "num_mul (NumInf neg) (NumFin m _) = (if m = 0 then NumNaN else NumInf (neg \<noteq> (m < 0)))"
| "num_mul (NumFin m _) (NumInf neg) = (if m = 0 then NumNaN else NumInf (neg \<noteq> (m < 0)))"
| "num_mul _ _ = NumNaN"

text \<open>\<open>Math.min(a, b)\<close>\<close>

definition num_min :: "jsnum \<Rightarrow> jsnum \<Rightarrow> jsnum" where
  "num_min a b = (if a = NumNaN \<or> b = NumNaN then NumNaN else if num_le a b then a else b)"

text \<open>\<open>BigInt(x)\<close> of a number: only integers have one.\<close>

fun num_int :: "jsnum \<Rightarrow> int option" where
  "num_int (NumFin m e) =
     (if 0 \<le> e then Some (m * 2 ^ nat e)
      else if m mod 2 ^ nat (- e) = 0 then Some (m div 2 ^ nat (- e)) else None)"
| "num_int _ = None"

definition num_to_bigint :: "jsnum \<Rightarrow> js_error + int" where
  "num_to_bigint x = (case num_int x of Some n \<Rightarrow> Inr n
     | None \<Rightarrow> Inl (range_error ''The number cannot be converted to a BigInt because it is not an integer''))"

abbreviation num_of_int :: "int \<Rightarrow> jsnum" where
  "num_of_int n \<equiv> NumFin n 0"

lemma bit_len_0 [simp]: "bit_len 0 = 0"
  by (simp add: bit_len.simps [of 0])

lemma bit_len_power: "bit_len (2 ^ k) = Suc k"
  by (induction k) (simp_all add: bit_len.simps [of "2 ^ _"] bit_len.simps [of "2 * 2 ^ _"] bit_len.simps [of "Suc 0"])

lemma bit_len_bound: "n < 2 ^ k \<Longrightarrow> bit_len n \<le> k"
proof (induction n arbitrary: k rule: bit_len.induct)
  case (1 n)
  show ?case
  proof (cases "n = 0")
    case False
    with "1.prems" obtain k' where k: "k = Suc k'" by (cases k) auto
    with "1.prems" have "n div 2 < 2 ^ k'" by (simp add: less_mult_imp_div_less mult.commute)
    with False k "1.IH" show ?thesis by (simp add: bit_len.simps [of n])
  qed simp
qed

lemma bit_len_upper: "n < 2 ^ bit_len n"
proof (induction n rule: bit_len.induct)
  case (1 n)
  show ?case
  proof (cases "n = 0")
    case False
    with "1.IH" have "n div 2 < 2 ^ bit_len (n div 2)" by simp
    then have "n < 2 * 2 ^ bit_len (n div 2)" by linarith
    with False show ?thesis by (simp add: bit_len.simps [of n])
  qed simp
qed

lemma round_sig_exact:
  assumes "n \<le> 2 ^ 53"
  shows "round_sig n = n"
proof (cases "n = 2 ^ 53")
  case True
  then have "bit_len n = 54" by (simp only: bit_len_power)
  moreover have "n div 2 ^ 1 * 2 ^ 1 = n" and "n mod 2 ^ 1 = 0" using True by simp_all
  ultimately show ?thesis by (simp add: round_sig_def)
next
  case False
  with assms have "bit_len n \<le> 53" by (intro bit_len_bound) simp
  then show ?thesis by (simp add: round_sig_def)
qed

lemma signed_round_exact: "\<bar>n\<bar> \<le> 2 ^ 53 \<Longrightarrow> signed_round n = n"
proof -
  assume "\<bar>n\<bar> \<le> 2 ^ 53"
  then have "nat \<bar>n\<bar> \<le> 2 ^ 53" by (simp add: nat_le_iff)
  then show ?thesis by (simp add: signed_round_def round_sig_exact sgn_if)
qed

lemma bit_len_lower: "0 < n \<Longrightarrow> 2 ^ bit_len n \<le> 2 * n"
proof (induction n rule: bit_len.induct)
  case (1 n)
  show ?case
  proof (cases "n div 2 = 0")
    case True
    with "1.prems" have "n = 1" by (auto simp: div_eq_0_iff)
    then show ?thesis by (simp add: bit_len.simps [of "Suc 0"])
  next
    case False
    with "1.IH" "1.prems" have "2 ^ bit_len (n div 2) \<le> 2 * (n div 2)" by simp
    also have "\<dots> \<le> n" by simp
    finally show ?thesis using "1.prems" by (simp add: bit_len.simps [of n])
  qed
qed

text \<open>Rounding is off by at most one part in \<open>2 ^ 53\<close>.\<close>

lemma round_sig_error: "\<bar>int (round_sig n) - int n\<bar> * 2 ^ 53 \<le> int n"
proof (cases "bit_len n \<le> 53")
  case False
  define s q r where "s = bit_len n - 53" and "q = n div 2 ^ s" and "r = n mod 2 ^ s"
  obtain t where t: "s = Suc t" using False by (cases s) (auto simp: s_def)
  have n: "n = q * 2 ^ s + r" unfolding q_def r_def by (rule div_mult_mod_eq [symmetric])
  have "r < 2 ^ s" by (simp add: r_def)
  then have "int r < int (2 ^ s)" by (simp only: of_nat_less_iff)
  then have r: "int r < 2 * 2 ^ t" by (simp add: t)
  define up where "up \<longleftrightarrow> 2 ^ t < r \<or> 2 ^ t = r \<and> odd q"
  have "round_sig n = (if up then Suc q else q) * 2 ^ s"
    using False by (simp add: round_sig_def Let_def s_def [symmetric] q_def r_def t up_def)
  then have "int (round_sig n) = int q * 2 ^ s + (if up then 2 * 2 ^ t else 0)"
    by (simp add: t algebra_simps)
  moreover have "int n = int q * 2 ^ s + int r"
    using arg_cong [OF n, of int] by simp
  moreover have "if up then 2 ^ t \<le> int r else int r \<le> 2 ^ t"
  proof -
    have "if up then 2 ^ t \<le> r else r \<le> 2 ^ t" by (auto simp: up_def)
    then have "if up then int (2 ^ t) \<le> int r else int r \<le> int (2 ^ t)" by (simp only: of_nat_le_iff)
    then show ?thesis by (simp only: of_nat_power of_nat_numeral)
  qed
  ultimately have "\<bar>int (round_sig n) - int n\<bar> \<le> 2 ^ t"
    using r by (simp split: if_splits)
  then have err: "\<bar>int (round_sig n) - int n\<bar> * 2 ^ 53 \<le> 2 ^ t * 2 ^ 53" by (intro mult_right_mono) simp_all
  have "0 < n" using False by (cases n) simp_all
  then have "2 ^ bit_len n \<le> 2 * n" by (rule bit_len_lower)
  moreover have "bit_len n = Suc (t + 53)" using False t by (simp add: s_def)
  ultimately have "(2::nat) ^ t * 2 ^ 53 \<le> n" by (simp only: power_Suc power_add)
  then have "int (2 ^ t * 2 ^ 53) \<le> int n" by (simp only: of_nat_le_iff)
  with err show ?thesis by simp
qed (simp add: round_sig_def)

lemma signed_round_error: "\<bar>signed_round n - n\<bar> * 2 ^ 53 \<le> \<bar>n\<bar>"
proof -
  have "n = sgn n * int (nat \<bar>n\<bar>)" by (simp add: sgn_mult_abs)
  then have "signed_round n - n = sgn n * (int (round_sig (nat \<bar>n\<bar>)) - int (nat \<bar>n\<bar>))"
    unfolding signed_round_def by (simp only: right_diff_distrib)
  then show ?thesis using round_sig_error [of "nat \<bar>n\<bar>"]
    by (cases "n = 0") (simp_all add: abs_mult)
qed

lemma bigint_to_number_exact:
  assumes "\<bar>n\<bar> \<le> 2 ^ 53"
  shows "bigint_to_number n = num_of_int n"
proof -
  have "(2::int) ^ 53 < 2 ^ 1024" by (rule power_strict_increasing) simp_all
  with assms have "\<not> 2 ^ 1024 \<le> \<bar>n\<bar>" by linarith
  with assms show ?thesis by (simp add: bigint_to_number_def signed_round_exact)
qed

lemma num_int_of_int [simp]: "num_int (num_of_int n) = Some n"
  by simp

lemma num_to_bigint_of_int [simp]: "num_to_bigint (num_of_int n) = Inr n"
  by (simp add: num_to_bigint_def)

lemma num_eq_int [simp]: "num_eq (num_of_int a) (num_of_int b) \<longleftrightarrow> a = b"
  by (simp add: scale_def)

lemma num_le_int [simp]: "num_le (num_of_int a) (num_of_int b) \<longleftrightarrow> a \<le> b"
  by (simp add: scale_def)

lemma num_rem_int:
  "num_rem (num_of_int a) (num_of_int b) = (if b = 0 then NumNaN else num_of_int (sgn a * (\<bar>a\<bar> mod \<bar>b\<bar>)))"
  by (simp add: scale_def Let_def)

section \<open>Values\<close>

datatype jsval =
    JUndef
  | JNull
  | JBool bool
  | JNum jsnum
  | JBig int
  | JStr string
  | JFun string
  | JArr nat "jsval list"
  | JObj nat "(string \<times> jsval) list"

type_synonym props = "(string \<times> jsval) list"

text \<open>A field that may be absent, \<open>null\<close> or given.\<close>

datatype 'a nullable = Undefined | Null | Given 'a

fun nullish :: "'a nullable \<Rightarrow> bool" where
  "nullish (Given _) = False"
| "nullish _ = True"

fun str_truthy :: "string nullable \<Rightarrow> bool" where
  "str_truthy (Given s) = (s \<noteq> [])"
| "str_truthy _ = False"

text \<open>\<open>a === b\<close>: by identity on objects, arrays and functions.\<close>

fun strict_eq :: "jsval \<Rightarrow> jsval \<Rightarrow> bool" where
  "strict_eq JUndef v = (v = JUndef)"
| "strict_eq JNull v = (v = JNull)"
| "strict_eq (JBool a) v = (v = JBool a)"
| "strict_eq (JNum a) v = (case v of JNum b \<Rightarrow> num_eq a b | _ \<Rightarrow> False)"
| "strict_eq (JBig a) v = (v = JBig a)"
| "strict_eq (JStr a) v = (v = JStr a)"
| "strict_eq (JFun a) v = (v = JFun a)"
| "strict_eq (JArr r _) v = (case v of JArr r' _ \<Rightarrow> r = r' | _ \<Rightarrow> False)"
| "strict_eq (JObj r _) v = (case v of JObj r' _ \<Rightarrow> r = r' | _ \<Rightarrow> False)"

lemma strict_eq_JStr_left [simp]: "strict_eq (JStr s) v \<longleftrightarrow> v = JStr s"
  by (cases v) auto

lemma strict_eq_JStr_right [simp]: "strict_eq v (JStr s) \<longleftrightarrow> v = JStr s"
  by (cases v) auto

lemma strict_eq_JBig_right [simp]: "strict_eq v (JBig n) \<longleftrightarrow> v = JBig n"
  by (cases v) auto

text \<open>
  Reading a property that an object does not own finds the members of \<open>Object.prototype\<close>.
  On strings, numbers, bigints, booleans, functions and arrays the program only reads the names
  \<open>type\<close>, \<open>address\<close>, \<open>index\<close> and \<open>subindex\<close>, which none of them has.
\<close>

definition object_prototype_methods :: "string list" where
  "object_prototype_methods =
     [''constructor'', ''__defineGetter__'', ''__defineSetter__'', ''hasOwnProperty'',
      ''__lookupGetter__'', ''__lookupSetter__'', ''isPrototypeOf'', ''propertyIsEnumerable'',
      ''toString'', ''valueOf'', ''toLocaleString'']"

definition proto_member :: "string \<Rightarrow> jsval" where
  "proto_member k =
     (if k \<in> set object_prototype_methods then JFun k
      else if k = ''__proto__'' then JObj 0 [] else JUndef)"

definition obj_member :: "props \<Rightarrow> string \<Rightarrow> jsval" where
  "obj_member ps k = (case map_of ps k of Some v \<Rightarrow> v | None \<Rightarrow> proto_member k)"

fun js_get :: "jsval \<Rightarrow> string \<Rightarrow> js_error + jsval" where
  "js_get JUndef k = Inl (type_error (''Cannot read properties of undefined (reading '' @ k @ '')''))"
| "js_get JNull k = Inl (type_error (''Cannot read properties of null (reading '' @ k @ '')''))"
| "js_get (JObj _ ps) k = Inr (obj_member ps k)"
| "js_get _ k = Inr JUndef"

fun is_nullish_val :: "jsval \<Rightarrow> bool" where
  "is_nullish_val JUndef = True"
| "is_nullish_val JNull = True"
| "is_nullish_val _ = False"

fun is_bigint :: "jsval \<Rightarrow> bool" where
  "is_bigint (JBig _) = True"
| "is_bigint _ = False"

lemma js_get_Inr_iff: "(\<exists>v. js_get t k = Inr v) \<longleftrightarrow> \<not> is_nullish_val t"
  by (cases t) auto

lemma js_get_Inl_iff: "(\<exists>e. js_get t k = Inl e) \<longleftrightarrow> is_nullish_val t"
  by (cases t) auto

lemma is_bigint_iff: "is_bigint v \<longleftrightarrow> (\<exists>n. v = JBig n)"
  by (cases v) auto

text \<open>\<open>{...v}\<close>: the own enumerable properties of a value.\<close>

fun nat_digits :: "nat \<Rightarrow> string" where
  "nat_digits n = (if n < 10 then [char_of (48 + n)] else nat_digits (n div 10) @ [char_of (48 + n mod 10)])"

declare nat_digits.simps [simp del]

definition index_props :: "jsval list \<Rightarrow> props" where
  "index_props vs = zip (map nat_digits [0..<length vs]) vs"

fun spread :: "jsval \<Rightarrow> props" where
  "spread (JObj _ ps) = ps"
| "spread (JArr _ vs) = index_props vs"
| "spread (JStr s) = index_props (map (\<lambda>c. JStr [c]) s)"
| "spread _ = []"

section \<open>BigInt of a string and back\<close>

definition is_space :: "char \<Rightarrow> bool" where
  "is_space c = (let n = (of_char c :: nat) in 9 \<le> n \<and> n \<le> 13 \<or> n = 32 \<or> n = 160)"

definition js_trim :: "string \<Rightarrow> string" where
  "js_trim s = rev (dropWhile is_space (rev (dropWhile is_space s)))"

definition digit_value :: "char \<Rightarrow> nat option" where
  "digit_value c =
     (let n = (of_char c :: nat) in
      if 48 \<le> n \<and> n \<le> 57 then Some (n - 48)
      else if 97 \<le> n \<and> n \<le> 102 then Some (n - 87)
      else if 65 \<le> n \<and> n \<le> 70 then Some (n - 55)
      else None)"

fun digits_acc :: "nat \<Rightarrow> nat \<Rightarrow> string \<Rightarrow> nat option" where
  "digits_acc b a [] = Some a"
| "digits_acc b a (c # cs) =
     (case digit_value c of
        None \<Rightarrow> None
      | Some d \<Rightarrow> if d < b then digits_acc b (b * a + d) cs else None)"

definition parse_digits :: "nat \<Rightarrow> string \<Rightarrow> nat option" where
  "parse_digits b cs = (if cs = [] then None else digits_acc b 0 cs)"

fun parse_signed :: "string \<Rightarrow> int option" where
  "parse_signed [] = None"
| "parse_signed (c # cs) =
     (if c = CHR ''-'' then map_option (\<lambda>n. - int n) (parse_digits 10 cs)
      else if c = CHR ''+'' then map_option int (parse_digits 10 cs)
      else map_option int (parse_digits 10 (c # cs)))"

fun parse_literal :: "string \<Rightarrow> int option" where
  "parse_literal (z # x # cs) =
     (if z = CHR ''0'' \<and> x \<in> {CHR ''x'', CHR ''X''} then map_option int (parse_digits 16 cs)
      else if z = CHR ''0'' \<and> x \<in> {CHR ''o'', CHR ''O''} then map_option int (parse_digits 8 cs)
      else if z = CHR ''0'' \<and> x \<in> {CHR ''b'', CHR ''B''} then map_option int (parse_digits 2 cs)
      else parse_signed (z # x # cs))"
| "parse_literal cs = parse_signed cs"

definition string_to_bigint :: "string \<Rightarrow> int option" where
  "string_to_bigint s = (let t = js_trim s in if t = [] then Some 0 else parse_literal t)"

definition BigInt_of_string :: "string \<Rightarrow> js_error + int" where
  "BigInt_of_string s =
     (case string_to_bigint s of Some n \<Rightarrow> Inr n
      | None \<Rightarrow> Inl (syntax_error (''Cannot convert '' @ s @ '' to a BigInt'')))"

text \<open>\<open>n.toString()\<close> of a bigint\<close>

definition bigint_to_string :: "int \<Rightarrow> string" where
  "bigint_to_string n = (if n < 0 then CHR ''-'' # nat_digits (nat (- n)) else nat_digits (nat n))"

lemma digit_value_char_of:
  assumes "d < 10"
  shows "digit_value (char_of (48 + d)) = Some d"
proof -
  have "of_char (char_of (48 + d) :: char) = (48 + d :: nat)"
    using assms by simp
  with assms show ?thesis by (simp add: digit_value_def)
qed

lemma digits_acc_append:
  "digits_acc b a (xs @ ys) = Option.bind (digits_acc b a xs) (\<lambda>a'. digits_acc b a' ys)"
  by (induction xs arbitrary: a) (auto split: option.split)

lemma digits_acc_nat_digits: "digits_acc 10 0 (nat_digits n) = Some n"
proof (induction n rule: nat_digits.induct)
  case (1 n)
  show ?case
  proof (cases "n < 10")
    case True
    then show ?thesis by (simp add: nat_digits.simps [of n] digit_value_char_of)
  next
    case False
    with "1.IH" show ?thesis
      by (simp add: nat_digits.simps [of n] digits_acc_append digit_value_char_of)
  qed
qed

lemma nat_digits_range:
  "c \<in> set (nat_digits n) \<Longrightarrow> 48 \<le> (of_char c :: nat) \<and> (of_char c :: nat) \<le> 57"
proof (induction n rule: nat_digits.induct)
  case (1 n)
  show ?case
  proof (cases "n < 10")
    case True
    with "1.prems" show ?thesis by (simp add: nat_digits.simps [of n])
  next
    case False
    with "1" show ?thesis by (auto simp: nat_digits.simps [of n])
  qed
qed

lemma nat_digits_nonempty [simp]: "nat_digits n \<noteq> []"
  by (simp add: nat_digits.simps [of n])

lemma nat_digits_inj: "nat_digits m = nat_digits n \<longleftrightarrow> m = n"
  by (metis digits_acc_nat_digits option.inject)

lemma js_trim_no_space: "\<forall>c \<in> set s. \<not> is_space c \<Longrightarrow> js_trim s = s"
proof -
  assume none: "\<forall>c \<in> set s. \<not> is_space c"
  have keep: "dropWhile is_space xs = xs" if "\<forall>c \<in> set xs. \<not> is_space c" for xs
    using that by (cases xs) auto
  from none show ?thesis by (simp add: js_trim_def keep)
qed

lemma parse_literal_nat_digits: "parse_literal (nat_digits n) = Some (int n)"
proof -
  let ?s = "nat_digits n"
  have digits: "48 \<le> (of_char c :: nat) \<and> (of_char c :: nat) \<le> 57" if "c \<in> set ?s" for c
    using that by (rule nat_digits_range)
  have signed: "parse_signed ?s = Some (int n)"
  proof (cases ?s)
    case (Cons c cs)
    with digits [of c] have "c \<noteq> CHR ''-''" "c \<noteq> CHR ''+''" by auto
    with Cons show ?thesis
      using digits_acc_nat_digits [of n] by (simp add: parse_digits_def)
  qed simp
  show ?thesis
  proof (cases ?s rule: parse_literal.cases)
    case (1 z x cs)
    with digits [of x] have "x \<notin> {CHR ''x'', CHR ''X'', CHR ''o'', CHR ''O'', CHR ''b'', CHR ''B''}"
      by auto
    with 1 signed show ?thesis by simp
  qed (use signed in simp_all)
qed

theorem string_to_bigint_roundtrip: "string_to_bigint (bigint_to_string n) = Some n"
proof -
  have nospace: "\<not> is_space c" if "c \<in> set (nat_digits m)" for c m
    using nat_digits_range [OF that] by (auto simp: is_space_def Let_def)
  have minus: "\<not> is_space (CHR ''-'')" by (simp add: is_space_def)
  show ?thesis
  proof (cases "n < 0")
    case False
    then have "js_trim (nat_digits (nat n)) = nat_digits (nat n)"
      by (intro js_trim_no_space) (auto simp: nospace)
    with False show ?thesis
      by (simp add: string_to_bigint_def bigint_to_string_def Let_def parse_literal_nat_digits)
  next
    case True
    let ?d = "nat_digits (nat (- n))"
    have "js_trim (CHR ''-'' # ?d) = CHR ''-'' # ?d"
      by (intro js_trim_no_space) (auto simp: nospace minus)
    moreover have "parse_literal (CHR ''-'' # ?d) = Some n"
      using True digits_acc_nat_digits [of "nat (- n)"]
      by (cases ?d) (auto simp: parse_digits_def)
    ultimately show ?thesis
      using True by (simp add: string_to_bigint_def bigint_to_string_def Let_def)
  qed
qed

end
