(* ===== verification/ConcordiumTypes.thy ===== *)
theory ConcordiumTypes
  imports JsValue
begin

text \<open>
  The data model: handler kinds, filters, handlers, datasources, templates and processors
  (packages/types/src/project.ts) and the indexed data, that is, blocks, transactions, transaction
  events and special events (packages/types/src/concordium/interfaces.ts).

  A filter is the property bag the manifest gives: the fields of the four filter interfaces side by
  side, each possibly absent or \<open>null\<close>.  Transactions and events keep the properties the
  node returned (\<open>props\<close>) next to the fields the program adds to them; \<open>tx_js\<close>, \<open>te_js\<close> and
  \<open>se_js\<close> are the same objects as JavaScript values, on which \<open>event[key]\<close> is \<open>js_get\<close>.  In those
  the added fields stand first, since \<open>{...x, id: i}\<close> overrides what \<open>x\<close> brought.
\<close>

section \<open>Handlers, filters and datasources\<close>

datatype ConcordiumHandlerKind = BlockKind | TransactionKind | TransactionEventKind | SpecialEventKind

fun kind_string :: "ConcordiumHandlerKind \<Rightarrow> string" where
  "kind_string BlockKind = ''concordium/BlockHandler''"
| "kind_string TransactionKind = ''concordium/TransactionHandler''"
| "kind_string TransactionEventKind = ''concordium/TransactionEventHandler''"
| "kind_string SpecialEventKind = ''concordium/SpecialEventHandler''"

definition handler_kinds :: "ConcordiumHandlerKind list" where
  "handler_kinds = [BlockKind, TransactionKind, TransactionEventKind, SpecialEventKind]"

definition kind_of_string :: "string \<Rightarrow> ConcordiumHandlerKind option" where
  "kind_of_string s = find (\<lambda>k. kind_string k = s) handler_kinds"

definition runtime_kind :: string where
  "runtime_kind = ''concordium/Runtime''"

text \<open>\<open>values?: {[key: string]: string}\<close>, in the order \<open>for ... in\<close> and \<open>Object.keys\<close> visit it\<close>

type_synonym filter_values = "(string \<times> string) list"

record subql_filter =
  f_modulo :: "jsnum nullable"
  f_timestamp :: "string nullable"
  f_cronSchedule :: jsval
  f_type :: "string nullable"
  f_values :: "filter_values nullable"

definition no_filter_fields :: subql_filter where
  "no_filter_fields =
     \<lparr>f_modulo = Undefined, f_timestamp = Undefined, f_cronSchedule = JUndef,
      f_type = Undefined, f_values = Undefined\<rparr>"

record subql_handler =
  h_handler :: string
  h_kind :: string
  h_filter :: "subql_filter nullable"

record subql_mapping =
  m_file :: string
  m_handlers :: "subql_handler list"

record subql_processor =
  p_file :: string
  p_options :: props

record subql_datasource =
  ds_name :: "string nullable"
  ds_kind :: string
  ds_startBlock :: "int nullable"
  ds_mapping :: subql_mapping
  ds_assets :: "(string \<times> string) list nullable"
  ds_processor :: "subql_processor nullable"

lemma kind_string_inj [simp]: "kind_string a = kind_string b \<longleftrightarrow> a = b"
  by (cases a; cases b) simp_all

lemma kind_of_kind_string [simp]: "kind_of_string (kind_string k) = Some k"
  by (cases k) (simp_all add: kind_of_string_def handler_kinds_def)

lemma kind_of_string_Some: "kind_of_string s = Some k \<longleftrightarrow> s = kind_string k"
proof
  assume "kind_of_string s = Some k"
  then show "s = kind_string k"
    by (auto simp: kind_of_string_def handler_kinds_def split: if_splits)
qed simp

lemma set_handler_kinds: "set handler_kinds = UNIV"
proof -
  have "k \<in> set handler_kinds" for k by (cases k) (simp_all add: handler_kinds_def)
  then show ?thesis by auto
qed

section \<open>Blocks, transactions and events\<close>

record block_info =
  bi_blockHeight :: int
  bi_blockHash :: string
  bi_blockParent :: string
  bi_blockReceiveTime :: int
  bi_rest :: props

datatype concordium_block =
  ConcordiumBlock (b_info: block_info) (b_finalizationSummary: jsval)
    (b_transactions: "concordium_tx list")
    (b_transactionEvents: "concordium_tx_event list nullable")
    (b_specialEvents: "concordium_special_event list")
and concordium_tx =
  ConcordiumTx (tx_props: props) (tx_block: "concordium_block option")
and concordium_tx_event =
  ConcordiumTxEvent (te_props: props) (te_id: nat) (te_block: "concordium_block option")
    (te_transaction: concordium_tx)
and concordium_special_event =
  ConcordiumSpecialEvent (se_props: props) (se_id: nat) (se_block: "concordium_block option")

definition block_info_props :: "block_info \<Rightarrow> props" where
  "block_info_props b =
     [(''blockHeight'', JBig (bi_blockHeight b)), (''blockHash'', JStr (bi_blockHash b)),
      (''blockParent'', JStr (bi_blockParent b))] @ bi_rest b"

fun or_null :: "jsval option \<Rightarrow> jsval" where
  "or_null None = JNull"
| "or_null (Some v) = v"

fun events_js :: "jsval list nullable \<Rightarrow> jsval" where
  "events_js (Given vs) = JArr 0 vs"
| "events_js _ = JNull"

text \<open>
  The identities are all \<open>0\<close>: the filters compare a property of an event with a string, never with
  another object.
\<close>

primrec block_js :: "concordium_block \<Rightarrow> jsval"
  and tx_js :: "concordium_tx \<Rightarrow> jsval"
  and te_js :: "concordium_tx_event \<Rightarrow> jsval"
  and se_js :: "concordium_special_event \<Rightarrow> jsval"
where
  "block_js (ConcordiumBlock i fin txs tes ses) = JObj 0
     ([(''finalizationSummary'', fin),
       (''transactions'', JArr 0 (map tx_js txs)),
       (''transactionEvents'', events_js (map_nullable (map te_js) tes)),
       (''specialEvents'', JArr 0 (map se_js ses))] @ block_info_props i)"
| "tx_js (ConcordiumTx ps b) = JObj 0 ((''block'', or_null (map_option block_js b)) # ps)"
| "te_js (ConcordiumTxEvent ps n b t) = JObj 0
     ([(''id'', JNum (num_of_int (int n))), (''block'', or_null (map_option block_js b)),
       (''transaction'', tx_js t)] @ ps)"
| "se_js (ConcordiumSpecialEvent ps n b) = JObj 0
     ([(''id'', JNum (num_of_int (int n))), (''block'', or_null (map_option block_js b))] @ ps)"

text \<open>\<open>tx.hash\<close>, \<open>tx.type\<close> and the other fields a transaction may have\<close>

definition tx_get :: "concordium_tx \<Rightarrow> string \<Rightarrow> jsval" where
  "tx_get t k = (case tx_js t of JObj _ ps \<Rightarrow> obj_member ps k | _ \<Rightarrow> JUndef)"

definition tx_hash :: "concordium_tx \<Rightarrow> jsval" where
  "tx_hash t = tx_get t ''hash''"

lemma js_get_tx_js [simp]: "js_get (tx_js t) k = Inr (tx_get t k)"
  by (cases t) (simp add: tx_get_def)

lemma tx_get_own: "k \<noteq> ''block'' \<Longrightarrow> tx_get (ConcordiumTx ps b) k = obj_member ps k"
  by (simp add: tx_get_def obj_member_def)

lemma js_get_te_own:
  "k \<notin> {''id'', ''block'', ''transaction''} \<Longrightarrow>
   js_get (te_js (ConcordiumTxEvent ps n b t)) k = Inr (obj_member ps k)"
  by (simp add: obj_member_def)

lemma js_get_se_own:
  "k \<notin> {''id'', ''block''} \<Longrightarrow>
   js_get (se_js (ConcordiumSpecialEvent ps n b)) k = Inr (obj_member ps k)"
  by (simp add: obj_member_def)

lemma js_get_te_id: "js_get (te_js e) ''id'' = Inr (JNum (num_of_int (int (te_id e))))"
  by (cases e) (simp add: obj_member_def)

section \<open>Kinds of datasources, handlers and processors\<close>

text \<open>packages/common-concordium/src/project/utils.ts and packages/node/src/utils/project.ts\<close>

definition isCustomDs :: "subql_datasource \<Rightarrow> bool" where
  "isCustomDs ds \<longleftrightarrow> ds_kind ds \<noteq> runtime_kind \<and> \<not> nullish (ds_processor ds)"

definition isRuntimeDs :: "subql_datasource \<Rightarrow> bool" where
  "isRuntimeDs ds \<longleftrightarrow> ds_kind ds = runtime_kind"

definition isBlockHandlerProcessor :: "string \<Rightarrow> bool" where
  "isBlockHandlerProcessor baseHandlerKind \<longleftrightarrow> baseHandlerKind = kind_string BlockKind"

definition isTransactionHandlerProcessor :: "string \<Rightarrow> bool" where
  "isTransactionHandlerProcessor baseHandlerKind \<longleftrightarrow> baseHandlerKind = kind_string TransactionKind"

definition isTransactionEventHandlerProcessor :: "string \<Rightarrow> bool" where
  "isTransactionEventHandlerProcessor baseHandlerKind \<longleftrightarrow>
     baseHandlerKind = kind_string TransactionEventKind"

definition isSpecialEventHandlerProcessor :: "string \<Rightarrow> bool" where
  "isSpecialEventHandlerProcessor baseHandlerKind \<longleftrightarrow> baseHandlerKind = kind_string SpecialEventKind"

definition isBaseHandler :: "subql_handler \<Rightarrow> bool" where
  "isBaseHandler h \<longleftrightarrow> h_kind h \<in> set (map kind_string handler_kinds)"

definition isCustomHandler :: "subql_handler \<Rightarrow> bool" where
  "isCustomHandler h \<longleftrightarrow> \<not> isBaseHandler h"

lemma isBaseHandler_iff: "isBaseHandler h \<longleftrightarrow> (\<exists>k. h_kind h = kind_string k)"
  by (auto simp: isBaseHandler_def set_handler_kinds)

lemma custom_not_runtime: "isCustomDs ds \<Longrightarrow> \<not> isRuntimeDs ds"
  by (simp add: isCustomDs_def isRuntimeDs_def)

text \<open>
  The processors of custom datasources (packages/types/src/project.ts): a processor has one of two versions of
  the interface of @subql/types-core, of which the program reads \<open>baseHandlerKind\<close>; the processors of a
  datasource are of any of the four kinds.
\<close>

datatype SecondLayerHandlerProcessor =
    SecondLayerHandlerProcessor_0_0_0 (baseHandlerKind: ConcordiumHandlerKind)
  | SecondLayerHandlerProcessor_1_0_0 (baseHandlerKind: ConcordiumHandlerKind)

definition SecondLayerHandlerProcessorArray :: "ConcordiumHandlerKind list" where
  "SecondLayerHandlerProcessorArray = [BlockKind, TransactionKind, TransactionEventKind, SpecialEventKind]"

lemma processor_array_complete: "baseHandlerKind p \<in> set SecondLayerHandlerProcessorArray"
  by (cases "baseHandlerKind p") (simp_all add: SecondLayerHandlerProcessorArray_def)

end
