(* ===== verification/Async.thy ===== *)
theory Async
  imports Prelude
begin

text \<open>
  Concurrent asynchronous code.  A running async function is a \<open>proc\<close>: settled, or waiting for
  an operation on the world after which it goes on.  \<open>run_proc\<close> runs it alone; \<open>promise_all sched\<close> runs
  several of them under \<open>Promise.all\<close>, where \<open>sched\<close> says whose pending operation completes next, so a
  theorem about every \<open>sched\<close> is about every interleaving.  The promise rejects at the first rejection
  and is pending (\<open>None\<close>) while an entry is.
\<close>

section \<open>Resumptions\<close>

datatype ('s, 'a) proc = Done "js_error + 'a" | Await "'s \<Rightarrow> ('s, 'a) proc \<times> 's"

primrec bind_proc :: "('s, 'a) proc \<Rightarrow> ('a \<Rightarrow> ('s, 'b) proc) \<Rightarrow> ('s, 'b) proc" where
  "bind_proc (Done r) k = (case r of Inl e \<Rightarrow> Done (Inl e) | Inr x \<Rightarrow> k x)"
| "bind_proc (Await f) k = Await (\<lambda>s. map_prod (\<lambda>p. bind_proc p k) id (f s))"

definition return_proc :: "'a \<Rightarrow> ('s, 'a) proc" where
  "return_proc x = Done (Inr x)"

definition lift_proc :: "js_error + 'a \<Rightarrow> ('s, 'a) proc" where
  "lift_proc r = Done r"

text \<open>\<open>await m\<close>\<close>

definition await_io :: "('s, 'a) io \<Rightarrow> ('s, 'a) proc" where
  "await_io m = Await (\<lambda>s. case m s of (r, s') \<Rightarrow> (Done r, s'))"

primrec run_proc :: "('s, 'a) proc \<Rightarrow> ('s, 'a) io" where
  "run_proc (Done r) = (\<lambda>s. (r, s))"
| "run_proc (Await f) = (\<lambda>s. case map_prod run_proc id (f s) of (g, s') \<Rightarrow> g s')"

lemma run_proc_Await: "f s = (p, s') \<Longrightarrow> run_proc (Await f) s = run_proc p s'"
  by simp

lemma run_await [simp]: "run_proc (await_io m) = m"
  by (rule ext) (simp add: await_io_def split: prod.split)

lemma run_return [simp]: "run_proc (return_proc x) = return_io x"
  by (simp add: return_proc_def io_defs)

lemma run_lift [simp]: "run_proc (lift_proc r) = lift_io r"
  by (simp add: lift_proc_def io_defs)

lemma run_bind [simp]: "run_proc (bind_proc p k) = bind_io (run_proc p) (\<lambda>x. run_proc (k x))"
proof (induction p)
  case (Done r)
  then show ?case by (cases r) (simp_all add: io_defs)
next
  case (Await f)
  have run: "run_proc (bind_proc p k) = bind_io (run_proc p) (\<lambda>x. run_proc (k x))" if "f s = (p, s')" for s p s'
    using Await [of "f s" p] rangeI [of f s] that by (simp add: prod_set_defs)
  show ?case
  proof (intro ext)
    fix s
    obtain p s' where "f s = (p, s')" by fastforce
    then show "run_proc (bind_proc (Await f) k) s = bind_io (run_proc (Await f)) (\<lambda>x. run_proc (k x)) s"
      using run [of s p s'] by (simp add: bind_io_def)
  qed
qed

section \<open>Promise.all\<close>

definition step_at :: "nat \<Rightarrow> ('s, 'a) proc list \<times> 's \<Rightarrow> ('s, 'a) proc list \<times> 's" where
  "step_at i = (\<lambda>(ps, s).
     if i < length ps then
       (case ps ! i of
          Done _ \<Rightarrow> (ps, s)
        | Await f \<Rightarrow> (case f s of (p', s') \<Rightarrow> (ps[i := p'], s')))
     else (ps, s))"

fun values_of :: "('s, 'a) proc list \<Rightarrow> (js_error + 'a list) option" where
  "values_of [] = Some (Inr [])"
| "values_of (Done (Inl e) # ps) = Some (Inl e)"
| "values_of (Done (Inr x) # ps) = map_option (map_res ((#) x)) (values_of ps)"
| "values_of (Await f # ps) = (case values_of ps of Some (Inl e) \<Rightarrow> Some (Inl e) | _ \<Rightarrow> None)"

fun promise_all :: "nat list \<Rightarrow> ('s, 'a) proc list \<Rightarrow> 's \<Rightarrow> (js_error + 'a list) option \<times> 's" where
  "promise_all sched ps s =
     (case values_of ps of
        Some r \<Rightarrow> (Some r, s)
      | None \<Rightarrow>
          (case sched of
             [] \<Rightarrow> (None, s)
           | i # sched' \<Rightarrow> (case step_at i (ps, s) of (ps', s') \<Rightarrow> promise_all sched' ps' s')))"

declare promise_all.simps [simp del]

section \<open>Results that do not depend on the interleaving\<close>

text \<open>\<open>p\<close> settles with \<open>r\<close> after at most \<open>n\<close> operations, whatever the world does meanwhile.\<close>

inductive settles :: "('s, 'a) proc \<Rightarrow> nat \<Rightarrow> js_error + 'a \<Rightarrow> bool" where
  settles_done: "settles (Done r) n r"
| settles_await: "(\<And>s. settles (fst (f s)) n r) \<Longrightarrow> settles (Await f) (Suc n) r"

inductive_cases settles_DoneE: "settles (Done r) n r'"
inductive_cases settles_AwaitE: "settles (Await f) n r"

lemma settles_mono: "settles p n r \<Longrightarrow> n \<le> m \<Longrightarrow> settles p m r"
proof (induction arbitrary: m rule: settles.induct)
  case (settles_done r n)
  show ?case by (rule settles.settles_done)
next
  case (settles_await f n r)
  from settles_await.prems obtain m' where "m = Suc m'" "n \<le> m'" by (cases m) auto
  then show ?case using settles_await.IH by (auto intro: settles.settles_await)
qed

lemma settles_bind:
  fixes p :: "('s, 'a) proc"
  assumes "settles p n (Inr x)" and "settles (k x) m r"
  shows "settles (bind_proc p k) (n + m) r"
  using assms
proof (induction p n "Inr x :: js_error + 'a" rule: settles.induct)
  case (settles_done n)
  then show ?case by (auto intro: settles_mono)
next
  case (settles_await f n)
  then have "settles (fst (map_prod (\<lambda>p. bind_proc p k) id (f s))) (n + m) r" for s
    by simp
  then show ?case by (auto intro: settles.settles_await)
qed

lemma settles_bind_error:
  fixes p :: "('s, 'a) proc"
  assumes "settles p n (Inl e)"
  shows "settles (bind_proc p k) n (Inl e)"
  using assms
proof (induction p n "Inl e :: js_error + 'a" rule: settles.induct)
  case (settles_done n)
  show ?case by (auto intro: settles.intros)
next
  case (settles_await f n)
  then have "settles (fst (map_prod (\<lambda>p. bind_proc p k) id (f s))) n (Inl e)" for s
    by simp
  then show ?case by (auto intro: settles.settles_await)
qed

lemma settles_return: "settles (return_proc x) 0 (Inr x)"
  by (simp add: return_proc_def settles_done)

lemma settles_lift: "settles (lift_proc r) 0 r"
  by (simp add: lift_proc_def settles_done)

lemma settles_await_io: "(\<And>s. fst (m s) = r) \<Longrightarrow> settles (await_io m) 1 r"
  unfolding await_io_def
  by (simp, rule settles_await) (metis (mono_tags, lifting) case_prod_beta fst_conv settles_done)

lemma settles_run: "settles p n r \<Longrightarrow> fst (run_proc p s) = r"
proof (induction arbitrary: s rule: settles.induct)
  case (settles_await f n r)
  then show ?case by (cases "f s") (simp, metis fst_conv)
qed simp

lemma settles_settled: "settles (Done r) n r' \<Longrightarrow> r = r'"
  by (auto elim: settles_DoneE)

lemma settles_not_zero: "\<not> settles (Await f) 0 r"
  by (auto elim: settles_AwaitE)

lemma settles_step: "settles (Await f) n r \<Longrightarrow> \<exists>n'. n = Suc n' \<and> settles (fst (f s)) n' r"
  by (auto elim: settles_AwaitE)

text \<open>
  A list of computations whose outcomes \<open>rs\<close> are fixed: \<open>ns\<close> bounds the operations each may still need.
\<close>

definition settle_with :: "('s, 'a) proc list \<Rightarrow> nat list \<Rightarrow> (js_error + 'a) list \<Rightarrow> bool" where
  "settle_with ps ns rs \<longleftrightarrow> length ns = length ps \<and> length rs = length ps \<and>
     (\<forall>i < length ps. settles (ps ! i) (ns ! i) (rs ! i))"

abbreviation all_settle :: "('s, 'a) proc list \<Rightarrow> nat list \<Rightarrow> 'a list \<Rightarrow> bool" where
  "all_settle ps ns xs \<equiv> settle_with ps ns (map Inr xs)"

text \<open>
  What \<open>Promise.all\<close> may say of such a list: nothing yet, the values of all, or the error of one.
\<close>

definition agrees :: "(js_error + 'a) list \<Rightarrow> (js_error + 'a list) option \<Rightarrow> bool" where
  "agrees rs v \<longleftrightarrow>
     (case v of None \<Rightarrow> True | Some (Inr xs) \<Rightarrow> rs = map Inr xs | Some (Inl e) \<Rightarrow> Inl e \<in> set rs)"

lemma agrees_simps [simp]:
  "agrees rs None" "agrees rs (Some (Inr xs)) \<longleftrightarrow> rs = map Inr xs" "agrees rs (Some (Inl e)) \<longleftrightarrow> Inl e \<in> set rs"
  by (simp_all add: agrees_def)

lemma agrees_values: "agrees (map Inr xs) v \<Longrightarrow> v \<in> {None, Some (Inr xs)}"
  by (cases v; cases "the v") (auto dest: map_injective)

lemma settle_with_Cons:
  "settle_with (p # ps) (n # ns) (r # rs) \<longleftrightarrow> settles p n r \<and> settle_with ps ns rs"
  by (auto simp: settle_with_def less_Suc_eq_0_disj nth_Cons')

lemma settle_with_induct [consumes 1, case_names Nil Cons]:
  assumes "settle_with ps ns rs"
    and "P [] [] []"
    and "\<And>p ps n ns r rs. \<lbrakk> settles p n r; settle_with ps ns rs; P ps ns rs \<rbrakk> \<Longrightarrow> P (p # ps) (n # ns) (r # rs)"
  shows "P ps ns rs"
  using assms(1)
proof (induction ps arbitrary: ns rs)
  case Nil
  with assms(2) show ?case by (simp add: settle_with_def)
next
  case (Cons p ps)
  then obtain n ns' r rs' where "ns = n # ns'" "rs = r # rs'"
    by (cases ns; cases rs) (auto simp: settle_with_def)
  with Cons assms(3) show ?case by (simp add: settle_with_Cons)
qed

lemma agrees_values_of: "settle_with ps ns rs \<Longrightarrow> agrees rs (values_of ps)"
proof (induction rule: settle_with_induct)
  case (Cons p ps n ns r rs)
  show ?case
  proof (cases p)
    case (Done q)
    with Cons(1) have "r = q" using settles_settled by blast
    with Done Cons(3) show ?thesis
      by (cases q; cases "values_of ps"; cases "the (values_of ps)") simp_all
  next
    case (Await f)
    with Cons(3) show ?thesis by (cases "values_of ps"; cases "the (values_of ps)") simp_all
  qed
qed simp

lemma step_at_settle_with:
  assumes "settle_with ps ns rs" and "step_at i (ps, s) = (ps', s')"
  shows "settle_with ps' (ns[i := ns ! i - 1]) rs"
proof (cases "i < length ps")
  case True
  show ?thesis
  proof (cases "ps ! i")
    case (Done r)
    with True assms have "ps' = ps" by (simp add: step_at_def)
    moreover have "settles (ps ! i) (ns ! i - 1) (rs ! i)"
      using assms(1) True Done by (auto simp: settle_with_def dest!: settles_settled intro!: settles_done)
    ultimately show ?thesis
      using assms(1) True by (auto simp: settle_with_def nth_list_update)
  next
    case (Await f)
    with True assms(2) have ps': "ps' = ps[i := fst (f s)]"
      by (auto simp: step_at_def split: prod.splits)
    from assms(1) True Await obtain n' where "ns ! i = Suc n'" "settles (fst (f s)) n' (rs ! i)"
      using settles_step by (metis settle_with_def)
    with assms(1) True ps' show ?thesis by (auto simp: settle_with_def nth_list_update)
  qed
next
  case False
  with assms show ?thesis by (auto simp: step_at_def settle_with_def)
qed

theorem promise_all_agrees:
  assumes "settle_with ps ns rs"
  shows "agrees rs (fst (promise_all sched ps s))"
  using assms
proof (induction sched arbitrary: ps ns s)
  case Nil
  with agrees_values_of [OF Nil] show ?case by (auto simp: promise_all.simps split: option.split)
next
  case (Cons i sched)
  obtain ps' s' where st: "step_at i (ps, s) = (ps', s')" by fastforce
  have "agrees rs (fst (promise_all sched ps' s'))"
    using step_at_settle_with [OF Cons.prems st] by (rule Cons.IH)
  with st agrees_values_of [OF Cons.prems] show ?case
    by (auto simp: promise_all.simps [of "i # sched"] split: option.split)
qed

text \<open>
  The computations of \<open>I\<close> decide the promise once they have settled: they are all of them, or one of them
  fails.
\<close>

definition decisive :: "(js_error + 'a) list \<Rightarrow> nat set \<Rightarrow> bool" where
  "decisive rs I \<longleftrightarrow> {..<length rs} \<subseteq> I \<or> (\<exists>i \<in> I. i < length rs \<and> isl (rs ! i))"

lemma values_of_rejects: "Done (Inl e) \<in> set ps \<Longrightarrow> values_of ps \<noteq> None"
proof (induction ps)
  case (Cons p ps)
  show ?case
  proof (cases p)
    case (Done r)
    with Cons show ?thesis by (cases r) auto
  next
    case (Await f)
    with Cons have "values_of ps \<noteq> None" by simp
    moreover have "\<not> (\<exists>xs. values_of ps = Some (Inr xs))"
    proof
      assume "\<exists>xs. values_of ps = Some (Inr xs)"
      then obtain xs where "values_of ps = Some (Inr xs)" ..
      moreover have "values_of qs = Some (Inr ys) \<Longrightarrow> Done (Inl e) \<notin> set qs" for qs :: "('a, 'b) proc list" and ys
        by (induction qs arbitrary: ys rule: values_of.induct) (auto split: option.splits sum.splits)
      ultimately show False using Cons.prems Await by auto
    qed
    ultimately show ?thesis using Await by (cases "values_of ps"; cases "the (values_of ps)") auto
  qed
qed simp

lemma values_of_all_done:
  "\<forall>p \<in> set ps. \<exists>r. p = Done r \<Longrightarrow> values_of ps \<noteq> None"
  by (induction ps rule: values_of.induct) auto

lemma settles_zero_Done: "settles p 0 r \<Longrightarrow> p = Done r"
  by (cases p) (auto dest: settles_settled simp: settles_not_zero)

lemma values_of_decisive:
  assumes "settle_with ps ns rs" and "decisive rs I" and "\<forall>i \<in> I. i < length ps \<longrightarrow> ns ! i = 0"
  shows "values_of ps \<noteq> None"
proof -
  have settled: "ps ! i = Done (rs ! i)" if "i \<in> I" "i < length ps" for i
    using assms(1,3) that by (metis settle_with_def settles_zero_Done)
  from assms(2) consider (all) "{..<length rs} \<subseteq> I"
    | (error) i e where "i \<in> I" "i < length rs" "rs ! i = Inl e"
    by (auto simp: decisive_def isl_def)
  then show ?thesis
  proof cases
    case all
    then have "\<forall>p \<in> set ps. \<exists>r. p = Done r"
      using settled assms(1) by (auto simp: settle_with_def in_set_conv_nth subset_iff)
    then show ?thesis by (rule values_of_all_done)
  next
    case error
    with settled assms(1) have "Done (Inl e) \<in> set ps" by (metis settle_with_def nth_mem)
    then show ?thesis by (rule values_of_rejects)
  qed
qed

theorem promise_all_decided:
  assumes "settle_with ps ns rs" and "decisive rs I"
    and "\<forall>i \<in> I. i < length ps \<longrightarrow> ns ! i \<le> count_list sched i"
  shows "fst (promise_all sched ps s) \<noteq> None"
  using assms(1,3)
proof (induction sched arbitrary: ps ns s)
  case Nil
  then have "values_of ps \<noteq> None" using values_of_decisive [OF Nil(1) assms(2)] by simp
  then show ?case by (auto simp: promise_all.simps)
next
  case (Cons i sched)
  obtain ps' s' where st: "step_at i (ps, s) = (ps', s')" by fastforce
  note next_settle = step_at_settle_with [OF Cons.prems(1) st]
  have len: "length ps' = length ps" "length ns = length ps"
    using next_settle Cons.prems(1) by (simp_all add: settle_with_def)
  have "ns[i := ns ! i - 1] ! j \<le> count_list sched j" if "j \<in> I" "j < length ps" for j
    using Cons.prems(2) that len by (cases "j = i") (auto dest!: bspec [of _ _ j])
  then have "fst (promise_all sched ps' s') \<noteq> None"
    using next_settle len by (intro Cons.IH) auto
  with st show ?case
    by (auto simp: promise_all.simps [of "i # sched"] split: option.split)
qed

corollary promise_all_result:
  assumes "all_settle ps ns xs"
  shows "fst (promise_all sched ps s) \<in> {None, Some (Inr xs)}"
  using promise_all_agrees [OF assms] by (rule agrees_values)

corollary promise_all_completes:
  assumes "all_settle ps ns xs" and "\<forall>i < length ps. ns ! i \<le> count_list sched i"
  shows "fst (promise_all sched ps s) = Some (Inr xs)"
proof -
  have "decisive (map Inr xs :: (js_error + 'b) list) UNIV" by (simp add: decisive_def)
  with promise_all_decided [OF assms(1)] assms(2) have "fst (promise_all sched ps s) \<noteq> None" by blast
  with promise_all_result [OF assms(1), of sched s] show ?thesis by simp
qed

corollary promise_all_rejects:
  assumes "settle_with ps ns rs" and "i < length ps" and "rs ! i = Inl e" and "ns ! i \<le> count_list sched i"
  shows "\<exists>e'. Inl e' \<in> set rs \<and> fst (promise_all sched ps s) = Some (Inl e')"
proof -
  from assms(1-3) have len: "i < length rs" by (simp add: settle_with_def)
  with assms(3) have "decisive rs {i}" by (simp add: decisive_def)
  with promise_all_decided [OF assms(1)] assms(4) have "fst (promise_all sched ps s) \<noteq> None" by blast
  then obtain v where v: "fst (promise_all sched ps s) = Some v" by blast
  with promise_all_agrees [OF assms(1), of sched s] have agr: "agrees rs (Some v)" by simp
  show ?thesis
  proof (cases v)
    case (Inl e')
    with agr v show ?thesis by simp
  next
    case (Inr xs)
    with agr len assms(3) show ?thesis by auto
  qed
qed

section \<open>What holds of a result whatever the world answers\<close>

text \<open>\<open>p\<close> only ever settles with an error or with a value that satisfies \<open>P\<close>.\<close>

inductive yields :: "('a \<Rightarrow> bool) \<Rightarrow> ('s, 'a) proc \<Rightarrow> bool" for P where
  yields_value: "P x \<Longrightarrow> yields P (Done (Inr x))"
| yields_error: "yields P (Done (Inl e))"
| yields_await: "(\<And>s. yields P (fst (f s))) \<Longrightarrow> yields P (Await f)"

inductive_cases yields_ValueE: "yields P (Done (Inr x))"
inductive_cases yields_AwaitE: "yields P (Await f)"

lemma yields_any: "yields (\<lambda>_. True) p"
proof (induction p)
  case (Done r)
  show ?case by (cases r) (auto intro: yields.intros)
next
  case (Await f)
  have "yields (\<lambda>_. True) (fst (f s))" for s
    using Await [of "f s" "fst (f s)"] by (simp add: prod_set_defs)
  then show ?case by (rule yields_await)
qed

lemma yields_bind:
  assumes "yields Q p" and "\<And>x. Q x \<Longrightarrow> yields P (k x)"
  shows "yields P (bind_proc p k)"
  using assms(1)
proof (induction rule: yields.induct)
  case (yields_value x)
  with assms(2) show ?case by simp
next
  case (yields_error e)
  show ?case by (simp add: yields.yields_error)
next
  case (yields_await f)
  then show ?case by (auto intro: yields.yields_await)
qed

lemma yields_bind_any:
  assumes "\<And>x. yields P (k x)"
  shows "yields P (bind_proc p k)"
  using yields_any assms by (rule yields_bind)

lemma yields_return: "P x \<Longrightarrow> yields P (return_proc x)"
  by (simp add: return_proc_def yields_value)

lemma yields_lift: "(\<And>x. r = Inr x \<Longrightarrow> P x) \<Longrightarrow> yields P (lift_proc r)"
  by (cases r) (simp_all add: lift_proc_def yields_value yields_error)

lemma step_at_yields:
  assumes "list_all2 (\<lambda>a. yields (P a)) as ps" and "step_at i (ps, s) = (ps', s')"
  shows "list_all2 (\<lambda>a. yields (P a)) as ps'"
proof (cases "i < length ps")
  case True
  show ?thesis
  proof (cases "ps ! i")
    case (Await f)
    with True assms(2) have ps': "ps' = ps[i := fst (f s)]"
      by (auto simp: step_at_def split: prod.splits)
    have "yields (P (as ! i)) (Await f)" using assms(1) True Await by (metis list_all2_nthD2)
    then have "yields (P (as ! i)) (fst (f s))" by (rule yields_AwaitE) simp
    with assms(1) ps' True show ?thesis by (auto simp: list_all2_conv_all_nth nth_list_update)
  qed (use assms True in \<open>simp add: step_at_def\<close>)
qed (use assms in \<open>simp add: step_at_def\<close>)

lemma values_of_Cons_Inr:
  "values_of (p # ps) = Some (Inr xs) \<longleftrightarrow> (\<exists>x xs'. p = Done (Inr x) \<and> values_of ps = Some (Inr xs') \<and> xs = x # xs')"
proof (cases p)
  case (Done r)
  show ?thesis
  proof (cases r)
    case (Inr x)
    then show ?thesis
      by (cases "values_of ps"; cases "the (values_of ps)") (auto simp: Done)
  qed (simp add: Done)
next
  case (Await f)
  then show ?thesis by (simp split: option.split sum.split)
qed

lemma values_of_yields:
  assumes "list_all2 (\<lambda>a. yields (P a)) as ps" and "values_of ps = Some (Inr xs)"
  shows "list_all2 P as xs"
  using assms
proof (induction as ps arbitrary: xs rule: list_all2_induct)
  case (Cons a as p ps)
  then obtain x xs' where "p = Done (Inr x)" "values_of ps = Some (Inr xs')" "xs = x # xs'"
    by (auto simp: values_of_Cons_Inr)
  with Cons show ?case by (auto elim: yields_ValueE)
qed simp

theorem promise_all_yields:
  assumes "list_all2 (\<lambda>a. yields (P a)) as ps" and "fst (promise_all sched ps s) = Some (Inr xs)"
  shows "list_all2 P as xs"
  using assms
proof (induction sched arbitrary: ps s)
  case Nil
  then show ?case by (auto simp: promise_all.simps split: option.splits dest: values_of_yields)
next
  case (Cons i sched)
  obtain ps' s' where st: "step_at i (ps, s) = (ps', s')" by fastforce
  show ?case
  proof (cases "values_of ps")
    case None
    with Cons.prems(2) st have "fst (promise_all sched ps' s') = Some (Inr xs)"
      by (simp add: promise_all.simps [of "i # sched"])
    with step_at_yields [OF Cons.prems(1) st] show ?thesis by (rule Cons.IH)
  next
    case (Some r)
    with Cons.prems show ?thesis
      by (auto simp: promise_all.simps [of "i # sched"] dest: values_of_yields)
  qed
qed

end
