(* ===== verification/ConcordiumApi.thy ===== *)
theory ConcordiumApi
  imports ConcordiumTypes Async
begin

text \<open>
  The client of one endpoint (packages/node/src/concordium/api.concordium.ts): it fetches a block with
  its transactions and special events, derives the transaction events from the transactions and links
  everything to a copy of the block.

  The SDK's gRPC client is the argument \<open>c\<close>, a record of operations on the world that may reject; the
  SDK's enumerations are the argument \<open>sdk\<close>, lodash's \<open>flatMap\<close> and \<open>cloneDeep\<close> the argument \<open>lo\<close>,
  the event emitter the argument \<open>emit\<close>, the URL parser of the platform the argument \<open>url\<close>.
\<close>

section \<open>Interfaces the class relies on\<close>

datatype TransactionKindString =
    Transfer
  | TransferWithMemo
  | TransferWithSchedule
  | TransferWithScheduleAndMemo
  | EncryptedAmountTransfer
  | EncryptedAmountTransferWithMemo
  | DeployModule
  | InitContract
  | Update
  | RegisterData
  | TransferToPublic
  | TransferToEncrypted
  | AddBaker
  | RemoveBaker
  | UpdateBakerKeys
  | UpdateBakerStake
  | UpdateBakerRestakeEarnings
  | ConfigureBaker
  | ConfigureDelegation
  | UpdateCredentialKeys
  | UpdateCredentials

record sdk_enums =
  AccountTransaction :: string
  kind_value :: "TransactionKindString \<Rightarrow> string"

record lodash =
  l_flatMap :: "concordium_tx_event list list \<Rightarrow> concordium_tx_event list"
  l_cloneDeep :: "concordium_block \<Rightarrow> concordium_block"

record 's grpc_client =
  g_getBlocksAtHeight :: "int \<Rightarrow> ('s, string list) io"
  g_getBlockInfo :: "string option \<Rightarrow> ('s, block_info) io"
  g_getConsensusStatus :: "('s, int) io"
  g_getBlockFinalizationSummary :: "string \<Rightarrow> ('s, jsval) io"
  g_getBlockTransactionEvents :: "string \<Rightarrow> ('s, props list) io"
  g_getBlockSpecialEvents :: "string \<Rightarrow> ('s, props list) io"

record header =
  hd_blockHeight :: jsnum
  hd_blockHash :: string
  hd_parentHash :: string

record iblock =
  ib_header :: header
  ib_block :: concordium_block

record concordium_api =
  api_host :: string
  api_secure :: bool
  api_chainId :: "string option"
  api_name :: "string option"

section \<open>The class\<close>

definition blockToHeader :: "block_info \<Rightarrow> header" where
  "blockToHeader b =
     \<lparr>hd_blockHeight = bigint_to_number (bi_blockHeight b), hd_blockHash = bi_blockHash b,
      hd_parentHash = bi_blockParent b\<rparr>"

definition new_ConcordiumApi :: "(string \<Rightarrow> js_error + (string \<times> string)) \<Rightarrow> string \<Rightarrow> js_error + concordium_api" where
  "new_ConcordiumApi url endpoint =
     map_res (\<lambda>(host, protocol).
       \<lparr>api_host = host, api_secure = (protocol = ''https:''), api_chainId = None, api_name = None\<rparr>)
       (url endpoint)"

fun first_hash :: "string list \<Rightarrow> string option" where
  "first_hash [] = None"
| "first_hash (h # _) = Some h"

definition api_init :: "'s grpc_client \<Rightarrow> concordium_api \<Rightarrow> ('s, concordium_api) io" where
  "api_init c this =
     bind_io (g_getBlocksAtHeight c 0) (\<lambda>hashes. return_io (this\<lparr>api_chainId := first_hash hashes\<rparr>))"

definition getFinalizedBlock :: "'s grpc_client \<Rightarrow> ('s, block_info) io" where
  "getFinalizedBlock c = g_getBlockInfo c None"

definition getFinalizedBlockHeight :: "'s grpc_client \<Rightarrow> ('s, int) io" where
  "getFinalizedBlockHeight c = bind_io (getFinalizedBlock c) (\<lambda>b. return_io (bi_blockHeight b))"

definition getBestBlockHeight :: "'s grpc_client \<Rightarrow> ('s, int) io" where
  "getBestBlockHeight c = g_getConsensusStatus c"

definition getRuntimeChain :: "concordium_api \<Rightarrow> string option" where
  "getRuntimeChain this = api_name this"

definition getChainId :: "concordium_api \<Rightarrow> string option" where
  "getChainId this = api_chainId this"

definition getGenesisHash :: "concordium_api \<Rightarrow> string option" where
  "getGenesisHash this = api_chainId this"

definition getSpecName :: "concordium_api \<Rightarrow> string" where
  "getSpecName this = ''concordium''"

definition getBlockByHash :: "'s grpc_client \<Rightarrow> string option \<Rightarrow> ('s, block_info) io" where
  "getBlockByHash c h = g_getBlockInfo c h"

definition wrap_special_events :: "props list \<Rightarrow> concordium_special_event list" where
  "wrap_special_events events = map (\<lambda>(i, evt). ConcordiumSpecialEvent evt i None) (enumerate 0 events)"

definition getAndWrapSpecialEvents :: "'s grpc_client \<Rightarrow> string \<Rightarrow> ('s, concordium_special_event list) proc" where
  "getAndWrapSpecialEvents c blockHash =
     bind_proc (await_io (g_getBlockSpecialEvents c blockHash)) (\<lambda>events.
       return_proc (wrap_special_events events))"

text \<open>
  The fields each branch of the \<open>switch\<close> pushes: \<open>Push f\<close> is \<open>events.push(tx.f)\<close>, \<open>PushAll f\<close> is
  \<open>events.push(...tx.f)\<close>.
\<close>

datatype push = Push string | PushAll string

primrec event_pushes :: "TransactionKindString \<Rightarrow> push list" where
  "event_pushes Transfer = [Push ''transfer'']"
| "event_pushes TransferWithMemo = [Push ''transfer'', Push ''memo'']"
| "event_pushes TransferWithSchedule = [Push ''event'']"
| "event_pushes TransferWithScheduleAndMemo = [Push ''transfer'', Push ''memo'']"
| "event_pushes EncryptedAmountTransfer = [Push ''removed'', Push ''added'']"
| "event_pushes EncryptedAmountTransferWithMemo = [Push ''removed'', Push ''added'', Push ''memo'']"
| "event_pushes DeployModule = [Push ''moduleDeployed'']"
| "event_pushes InitContract = [Push ''contractInitialized'']"
| "event_pushes Update = [PushAll ''events'']"
| "event_pushes RegisterData = [Push ''dataRegistered'']"
| "event_pushes TransferToPublic = [Push ''removed'', Push ''added'']"
| "event_pushes TransferToEncrypted = [Push ''added'']"
| "event_pushes AddBaker = [Push ''bakerAdded'']"
| "event_pushes RemoveBaker = [Push ''bakerRemoved'']"
| "event_pushes UpdateBakerKeys = [Push ''bakerKeysUpdated'']"
| "event_pushes UpdateBakerStake = [Push ''bakerStakeChanged'']"
| "event_pushes UpdateBakerRestakeEarnings = [Push ''bakerRestakeEarningsUpdated'']"
| "event_pushes ConfigureBaker = [PushAll ''events'']"
| "event_pushes ConfigureDelegation = [PushAll ''events'']"
| "event_pushes UpdateCredentialKeys = [Push ''keysUpdated'']"
| "event_pushes UpdateCredentials = [Push ''credentialsUpdated'']"

definition switch_order :: "TransactionKindString list" where
  "switch_order =
     [Transfer, TransferWithMemo, TransferWithSchedule, TransferWithScheduleAndMemo,
      EncryptedAmountTransfer, EncryptedAmountTransferWithMemo, DeployModule, InitContract, Update,
      RegisterData, TransferToPublic, TransferToEncrypted, AddBaker, RemoveBaker, UpdateBakerKeys,
      UpdateBakerStake, UpdateBakerRestakeEarnings, ConfigureBaker, ConfigureDelegation,
      UpdateCredentialKeys, UpdateCredentials]"

text \<open>\<open>...v\<close> in an argument list: only arrays and strings are iterable here.\<close>

fun iterate :: "jsval \<Rightarrow> js_error + jsval list" where
  "iterate (JArr _ vs) = Inr vs"
| "iterate (JStr s) = Inr (map (\<lambda>c. JStr [c]) s)"
| "iterate _ = Inl (type_error ''Spread syntax requires ...iterable[Symbol.iterator] to be a function'')"

fun run_push :: "concordium_tx \<Rightarrow> push \<Rightarrow> js_error + jsval list" where
  "run_push tx (Push f) = Inr [tx_get tx f]"
| "run_push tx (PushAll f) = iterate (tx_get tx f)"

definition collect_events :: "sdk_enums \<Rightarrow> concordium_tx \<Rightarrow> js_error + jsval list" where
  "collect_events sdk tx =
     (case find (\<lambda>k. strict_eq (tx_get tx ''transactionType'') (JStr (kind_value sdk k))) switch_order of
        Some k \<Rightarrow> map_res concat (traverse (run_push tx) (event_pushes k))
      | None \<Rightarrow> Inr [])"

definition wrapTransactionEvents :: "sdk_enums \<Rightarrow> concordium_tx \<Rightarrow> js_error + concordium_tx_event list" where
  "wrapTransactionEvents sdk tx =
     (if \<not> strict_eq (tx_get tx ''type'') (JStr (AccountTransaction sdk)) then Inr []
      else map_res (\<lambda>events. map (\<lambda>(i, evt). ConcordiumTxEvent (spread evt) i None tx) (enumerate 0 events))
             (collect_events sdk tx))"

definition getAndWrapTransactions :: "'s grpc_client \<Rightarrow> string \<Rightarrow> ('s, concordium_tx list) proc" where
  "getAndWrapTransactions c blockHash =
     bind_proc (await_io (g_getBlockTransactionEvents c blockHash)) (\<lambda>transactions.
       return_proc (map (\<lambda>tx. ConcordiumTx tx None) transactions))"

fun set_tx_block :: "concordium_block \<Rightarrow> concordium_tx \<Rightarrow> concordium_tx" where
  "set_tx_block b (ConcordiumTx ps _) = ConcordiumTx ps (Some b)"

fun set_te_block :: "concordium_block \<Rightarrow> concordium_tx_event \<Rightarrow> concordium_tx_event" where
  "set_te_block b (ConcordiumTxEvent ps i _ tx) = ConcordiumTxEvent ps i (Some b) tx"

fun set_se_block :: "concordium_block \<Rightarrow> concordium_special_event \<Rightarrow> concordium_special_event" where
  "set_se_block b (ConcordiumSpecialEvent ps i _) = ConcordiumSpecialEvent ps i (Some b)"

text \<open>The synchronous part of \<open>getAndWrapBlock\<close>, once all answers are there\<close>

definition link_block ::
  "sdk_enums \<Rightarrow> lodash \<Rightarrow> block_info \<Rightarrow> jsval \<Rightarrow> concordium_tx list \<Rightarrow> concordium_special_event list \<Rightarrow>
   js_error + concordium_block"
where
  "link_block sdk lo info fin txs ses =
     map_res (\<lambda>evss.
       let events = l_flatMap lo evss;
           wrappedBlock = ConcordiumBlock info fin txs (Given events) ses;
           blockClone = l_cloneDeep lo wrappedBlock
       in ConcordiumBlock info fin (map (set_tx_block blockClone) txs)
            (Given (map (set_te_block blockClone) events)) (map (set_se_block blockClone) ses))
       (traverse (wrapTransactionEvents sdk) txs)"

definition getAndWrapBlock :: "sdk_enums \<Rightarrow> lodash \<Rightarrow> 's grpc_client \<Rightarrow> jsnum \<Rightarrow> ('s, iblock) proc" where
  "getAndWrapBlock sdk lo c height =
     bind_proc (lift_proc (num_to_bigint height)) (\<lambda>h.
     bind_proc (await_io (g_getBlocksAtHeight c h)) (\<lambda>hashes.
     bind_proc (await_io (getBlockByHash c (first_hash hashes))) (\<lambda>blockInfo.
     bind_proc (await_io (g_getBlockFinalizationSummary c (bi_blockHash blockInfo))) (\<lambda>fin.
     bind_proc (getAndWrapTransactions c (bi_blockHash blockInfo)) (\<lambda>txs.
     bind_proc (getAndWrapSpecialEvents c (bi_blockHash blockInfo)) (\<lambda>ses.
     bind_proc (lift_proc (link_block sdk lo blockInfo fin txs ses)) (\<lambda>b.
       return_proc \<lparr>ib_header = blockToHeader (b_info b), ib_block = b\<rparr>)))))))"

definition fetchBlock ::
  "sdk_enums \<Rightarrow> lodash \<Rightarrow> 's grpc_client \<Rightarrow> ('s, unit) io \<Rightarrow> jsnum \<Rightarrow> ('s, iblock) proc"
where
  "fetchBlock sdk lo c emit height =
     bind_proc (getAndWrapBlock sdk lo c height) (\<lambda>block.
     bind_proc (await_io emit) (\<lambda>_. return_proc block))"

definition fetchBlocks ::
  "sdk_enums \<Rightarrow> lodash \<Rightarrow> 's grpc_client \<Rightarrow> ('s, unit) io \<Rightarrow> nat list \<Rightarrow> jsnum list \<Rightarrow> 's \<Rightarrow>
   (js_error + iblock list) option \<times> 's"
where
  "fetchBlocks sdk lo c emit sched bufferBlocks =
     promise_all sched (map (fetchBlock sdk lo c emit) bufferBlocks)"

definition api_connect :: "('s, unit) io" where
  "api_connect = throw_io (plain_error ''Not implemented'')"

definition api_disconnect :: "('s, unit) io" where
  "api_disconnect = return_io ()"

section \<open>Events of a transaction\<close>

definition lodash_ok :: "lodash \<Rightarrow> bool" where
  "lodash_ok lo \<longleftrightarrow> (\<forall>xss. l_flatMap lo xss = concat xss) \<and> (\<forall>b. l_cloneDeep lo b = b)"

lemma set_switch_order: "set switch_order = UNIV"
proof -
  have "k \<in> set switch_order" for k by (cases k) (simp_all add: switch_order_def)
  then show ?thesis by auto
qed

lemma find_kind:
  assumes "inj (kind_value sdk)" and "v = JStr (kind_value sdk k)"
  shows "find (\<lambda>k. strict_eq v (JStr (kind_value sdk k))) switch_order = Some k"
proof -
  let ?P = "\<lambda>k. strict_eq v (JStr (kind_value sdk k))"
  from assms have P: "?P j \<longleftrightarrow> j = k" for j by (auto dest: injD)
  then have "find ?P switch_order \<noteq> None" using set_switch_order by (auto simp: find_None_iff)
  then obtain j where j: "find ?P switch_order = Some j" by blast
  then have "?P j" by (auto simp: find_Some_iff)
  with j P show ?thesis by simp
qed

lemma number_events_ids:
  "map te_id (map (\<lambda>(i, v). ConcordiumTxEvent (spread v) i None tx) (enumerate 0 vs)) = [0..<length vs]"
  by (rule nth_equalityI) (simp_all add: nth_enumerate_eq)

lemma wrapTransactionEvents_shape:
  assumes "wrapTransactionEvents sdk tx = Inr evs"
  shows "map te_id evs = [0..<length evs]"
    and "\<forall>e \<in> set evs. te_transaction e = tx \<and> te_block e = None"
proof -
  from assms obtain vs
    where "evs = [] \<or> evs = map (\<lambda>(i, v). ConcordiumTxEvent (spread v) i None tx) (enumerate 0 vs)"
    by (auto simp: wrapTransactionEvents_def split: if_splits)
  then show "map te_id evs = [0..<length evs]" and "\<forall>e \<in> set evs. te_transaction e = tx \<and> te_block e = None"
    by (auto simp only: number_events_ids length_map length_enumerate list.map list.size upt_rec [of 0 0]) auto
qed

lemma wrapTransactionEvents_other_type:
  "tx_get tx ''type'' \<noteq> JStr (AccountTransaction sdk) \<Longrightarrow> wrapTransactionEvents sdk tx = Inr []"
  by (simp add: wrapTransactionEvents_def)

lemma wrapTransactionEvents_unknown_kind:
  assumes "\<And>k. tx_get tx ''transactionType'' \<noteq> JStr (kind_value sdk k)"
  shows "wrapTransactionEvents sdk tx = Inr []"
proof -
  have "find (\<lambda>k. strict_eq (tx_get tx ''transactionType'') (JStr (kind_value sdk k))) switch_order = None"
    using assms by (auto simp: find_None_iff)
  then show ?thesis by (simp add: wrapTransactionEvents_def collect_events_def)
qed

lemma wrapTransactionEvents_kind:
  assumes "inj (kind_value sdk)" and "tx_get tx ''type'' = JStr (AccountTransaction sdk)"
    and "tx_get tx ''transactionType'' = JStr (kind_value sdk k)"
  shows "wrapTransactionEvents sdk tx =
    map_res (\<lambda>vss. map (\<lambda>(i, v). ConcordiumTxEvent (spread v) i None tx) (enumerate 0 (concat vss)))
      (traverse (run_push tx) (event_pushes k))"
proof -
  have "collect_events sdk tx = map_res concat (traverse (run_push tx) (event_pushes k))"
    using find_kind [OF assms(1,3)] by (simp add: collect_events_def)
  with assms(2) show ?thesis
    by (cases "traverse (run_push tx) (event_pushes k)") (simp_all add: wrapTransactionEvents_def)
qed

section \<open>What a fetched block is\<close>

text \<open>The answers of a node whose replies depend on the request only\<close>

record chain_data =
  c_hashes :: "int \<Rightarrow> string list"
  c_info :: "string option \<Rightarrow> block_info"
  c_finalization :: "string \<Rightarrow> jsval"
  c_transactions :: "string \<Rightarrow> props list"
  c_specials :: "string \<Rightarrow> props list"

definition serves :: "'s grpc_client \<Rightarrow> chain_data \<Rightarrow> bool" where
  "serves c d \<longleftrightarrow>
     (\<forall>h s. fst (g_getBlocksAtHeight c h s) = Inr (c_hashes d h)) \<and>
     (\<forall>h s. fst (g_getBlockInfo c h s) = Inr (c_info d h)) \<and>
     (\<forall>h s. fst (g_getBlockFinalizationSummary c h s) = Inr (c_finalization d h)) \<and>
     (\<forall>h s. fst (g_getBlockTransactionEvents c h s) = Inr (c_transactions d h)) \<and>
     (\<forall>h s. fst (g_getBlockSpecialEvents c h s) = Inr (c_specials d h))"

definition block_at :: "sdk_enums \<Rightarrow> lodash \<Rightarrow> chain_data \<Rightarrow> int \<Rightarrow> js_error + concordium_block" where
  "block_at sdk lo d h =
     (let info = c_info d (first_hash (c_hashes d h)); hash = bi_blockHash info
      in link_block sdk lo info (c_finalization d hash)
           (map (\<lambda>tx. ConcordiumTx tx None) (c_transactions d hash))
           (wrap_special_events (c_specials d hash)))"

definition iblock_of :: "concordium_block \<Rightarrow> iblock" where
  "iblock_of b = \<lparr>ib_header = blockToHeader (b_info b), ib_block = b\<rparr>"

text \<open>A node whose answers, values or errors, depend on the request only\<close>

record node_answers =
  n_hashes :: "int \<Rightarrow> js_error + string list"
  n_info :: "string option \<Rightarrow> js_error + block_info"
  n_finalization :: "string \<Rightarrow> js_error + jsval"
  n_transactions :: "string \<Rightarrow> js_error + props list"
  n_specials :: "string \<Rightarrow> js_error + props list"

definition answers :: "'s grpc_client \<Rightarrow> node_answers \<Rightarrow> bool" where
  "answers c d \<longleftrightarrow>
     (\<forall>h s. fst (g_getBlocksAtHeight c h s) = n_hashes d h) \<and>
     (\<forall>h s. fst (g_getBlockInfo c h s) = n_info d h) \<and>
     (\<forall>h s. fst (g_getBlockFinalizationSummary c h s) = n_finalization d h) \<and>
     (\<forall>h s. fst (g_getBlockTransactionEvents c h s) = n_transactions d h) \<and>
     (\<forall>h s. fst (g_getBlockSpecialEvents c h s) = n_specials d h)"

definition always_answers :: "chain_data \<Rightarrow> node_answers" where
  "always_answers d = \<lparr>n_hashes = Inr \<circ> c_hashes d, n_info = Inr \<circ> c_info d,
     n_finalization = Inr \<circ> c_finalization d, n_transactions = Inr \<circ> c_transactions d,
     n_specials = Inr \<circ> c_specials d\<rparr>"

lemma serves_answers: "serves c d \<longleftrightarrow> answers c (always_answers d)"
  by (simp add: serves_def answers_def always_answers_def)

text \<open>
  How the fetch of one height ends: with the block, or with the first error on the way: a number that is
  not an integer, an answer of the node, or the events of a transaction that cannot be spread.
\<close>

definition fetch_outcome :: "sdk_enums \<Rightarrow> lodash \<Rightarrow> node_answers \<Rightarrow> jsnum \<Rightarrow> js_error + iblock" where
  "fetch_outcome sdk lo d height =
     bind_res (num_to_bigint height) (\<lambda>h.
     bind_res (n_hashes d h) (\<lambda>hashes.
     bind_res (n_info d (first_hash hashes)) (\<lambda>info.
     bind_res (n_finalization d (bi_blockHash info)) (\<lambda>fin.
     bind_res (n_transactions d (bi_blockHash info)) (\<lambda>txs.
     bind_res (n_specials d (bi_blockHash info)) (\<lambda>events.
       map_res iblock_of (link_block sdk lo info fin (map (\<lambda>tx. ConcordiumTx tx None) txs)
         (wrap_special_events events))))))))"

lemma fetch_outcome_always:
  "fetch_outcome sdk lo (always_answers d) n =
     bind_res (num_to_bigint n) (\<lambda>h. map_res iblock_of (block_at sdk lo d h))"
  by (simp add: fetch_outcome_def always_answers_def block_at_def Let_def)

lemma fetch_outcome_Inr:
  "fetch_outcome sdk lo (always_answers d) n = Inr ib \<longleftrightarrow>
     (\<exists>h b. num_int n = Some h \<and> block_at sdk lo d h = Inr b \<and> ib = iblock_of b)"
  by (auto simp: fetch_outcome_always num_to_bigint_def split: option.splits)

lemma settles_await_bind:
  assumes "\<And>s. fst (m s) = r" and "\<And>x. settles (k x) n (g x)"
  shows "settles (bind_proc (await_io m) k) (Suc n) (bind_res r g)"
proof (cases r)
  case (Inl e)
  with settles_await_io [of m r] assms(1) have "settles (bind_proc (await_io m) k) 1 (Inl e)"
    by (intro settles_bind_error) simp
  with Inl settles_mono [of _ 1 _ "Suc n"] show ?thesis by simp
next
  case (Inr x)
  with settles_bind [OF settles_await_io, of m x k n "g x"] assms show ?thesis by simp
qed

lemma settles_await_map:
  assumes "\<And>s. fst (m s) = r" and "\<And>x. k x = return_proc (g x)"
  shows "settles (bind_proc (await_io m) k) 1 (map_res g r)"
proof -
  have "settles (bind_proc (await_io m) k) (Suc 0) (bind_res r (\<lambda>x. Inr (g x)))"
    by (rule settles_await_bind) (simp_all add: assms settles_return)
  then show ?thesis by (cases r) simp_all
qed

lemma settles_bind_map:
  assumes "settles p n (map_res f r)" and "\<And>x. settles (k (f x)) m (g x)"
  shows "settles (bind_proc p k) (n + m) (bind_res r g)"
proof (cases r)
  case (Inl e)
  with assms(1) have "settles (bind_proc p k) n (Inl e)" by (intro settles_bind_error) simp
  with Inl settles_mono [of _ n _ "n + m"] show ?thesis by simp
next
  case (Inr x)
  with settles_bind [of p n "f x" k m "g x"] assms show ?thesis by simp
qed

lemma settles_lift_map:
  assumes "\<And>x. k x = return_proc (g x)"
  shows "settles (bind_proc (lift_proc r) k) 0 (map_res g r)"
  by (cases r) (simp_all add: lift_proc_def assms settles_return settles_done)

lemma settles_lift_bind:
  assumes "\<And>x. settles (k x) n (g x)"
  shows "settles (bind_proc (lift_proc r) k) n (bind_res r g)"
  using assms by (cases r) (simp_all add: lift_proc_def settles_done)

lemma getAndWrapBlock_settles:
  assumes "answers c d"
  shows "settles (getAndWrapBlock sdk lo c height) 5 (fetch_outcome sdk lo d height)"
proof -
  note c = assms(1) [unfolded answers_def]
  have txs: "settles (getAndWrapTransactions c hash) 1
      (map_res (map (\<lambda>tx. ConcordiumTx tx None)) (n_transactions d hash))" for hash
    unfolding getAndWrapTransactions_def by (rule settles_await_map) (use c in auto)
  have ses: "settles (getAndWrapSpecialEvents c hash) 1 (map_res wrap_special_events (n_specials d hash))" for hash
    unfolding getAndWrapSpecialEvents_def by (rule settles_await_map) (use c in auto)
  have parts: "settles (bind_proc (getAndWrapTransactions c hash) (\<lambda>txs.
      bind_proc (getAndWrapSpecialEvents c hash) (\<lambda>ses.
      bind_proc (lift_proc (link_block sdk lo info fin txs ses)) (\<lambda>b.
      return_proc \<lparr>ib_header = blockToHeader (b_info b), ib_block = b\<rparr>)))) (1 + (1 + 0))
      (bind_res (n_transactions d hash) (\<lambda>txs. bind_res (n_specials d hash) (\<lambda>events.
         map_res iblock_of (link_block sdk lo info fin (map (\<lambda>tx. ConcordiumTx tx None) txs)
           (wrap_special_events events)))))" for hash info fin
    by (intro settles_bind_map [OF txs] settles_bind_map [OF ses] settles_lift_map) (simp add: iblock_of_def)
  have "settles (getAndWrapBlock sdk lo c height) (Suc (Suc (Suc (1 + (1 + 0))))) (fetch_outcome sdk lo d height)"
    unfolding getAndWrapBlock_def fetch_outcome_def getBlockByHash_def
    by (intro settles_lift_bind settles_await_bind) (use c parts in auto)
  then show ?thesis by (simp add: numeral_eq_Suc)
qed

lemma fetchBlock_settles:
  assumes "answers c d" and "\<And>s. fst (emit s) = Inr ()"
  shows "settles (fetchBlock sdk lo c emit height) 6 (fetch_outcome sdk lo d height)"
proof (cases "fetch_outcome sdk lo d height")
  case (Inl e)
  with getAndWrapBlock_settles [OF assms(1), of sdk lo height]
  have "settles (fetchBlock sdk lo c emit height) 5 (Inl e)"
    unfolding fetchBlock_def by (intro settles_bind_error) simp
  with Inl settles_mono [of _ 5 _ 6] show ?thesis by simp
next
  case (Inr ib)
  have "settles (bind_proc (await_io emit) (\<lambda>_. return_proc ib)) (Suc 0) (Inr ib)"
    using settles_await_bind [where m = emit and r = "Inr ()" and g = "\<lambda>_. Inr ib" and n = 0] assms(2)
    by (simp add: settles_return)
  with getAndWrapBlock_settles [OF assms(1), of sdk lo height] Inr
  have "settles (fetchBlock sdk lo c emit height) (5 + Suc 0) (Inr ib)"
    unfolding fetchBlock_def by (intro settles_bind) simp
  with Inr show ?thesis by simp
qed

lemma fetchBlocks_settle_with:
  assumes "answers c d" and "\<And>s. fst (emit s) = Inr ()"
  shows "settle_with (map (fetchBlock sdk lo c emit) heights) (map (\<lambda>_. 6) heights)
    (map (fetch_outcome sdk lo d) heights)"
  using fetchBlock_settles [OF assms] by (simp add: settle_with_def)

lemma fetchBlocks_all_settle:
  assumes "serves c d" and "\<And>s. fst (emit s) = Inr ()"
    and "list_all2 (\<lambda>n b. \<exists>h. num_int n = Some h \<and> block_at sdk lo d h = Inr b) heights bs"
  shows "all_settle (map (fetchBlock sdk lo c emit) heights) (map (\<lambda>_. 6) heights) (map iblock_of bs)"
proof -
  have "map (fetch_outcome sdk lo (always_answers d)) heights = map Inr (map iblock_of bs)"
    using assms(3) by (induction rule: list_all2_induct) (auto simp: fetch_outcome_Inr)
  with fetchBlocks_settle_with [where sdk = sdk and lo = lo and heights = heights, OF assms(1) [unfolded serves_answers] assms(2)]
  show ?thesis by simp
qed

lemma getAndWrapBlock_served:
  assumes "serves c d" and "num_int height = Some h" and "block_at sdk lo d h = Inr b"
  shows "fst (run_proc (getAndWrapBlock sdk lo c height) s) = Inr (iblock_of b)"
proof -
  have "fetch_outcome sdk lo (always_answers d) height = Inr (iblock_of b)"
    using assms(2,3) by (simp add: fetch_outcome_Inr)
  with settles_run [OF getAndWrapBlock_settles [OF assms(1) [unfolded serves_answers]]] show ?thesis by simp
qed

section \<open>The linked block\<close>

definition unlinked_tx :: "concordium_tx \<Rightarrow> concordium_tx" where
  "unlinked_tx t = ConcordiumTx (tx_props t) None"

definition unlinked_te :: "concordium_tx_event \<Rightarrow> concordium_tx_event" where
  "unlinked_te e = ConcordiumTxEvent (te_props e) (te_id e) None (te_transaction e)"

definition unlinked_se :: "concordium_special_event \<Rightarrow> concordium_special_event" where
  "unlinked_se e = ConcordiumSpecialEvent (se_props e) (se_id e) None"

lemma unlinked_set:
  "tx_block t = None \<Longrightarrow> unlinked_tx (set_tx_block b t) = t"
  "te_block e = None \<Longrightarrow> unlinked_te (set_te_block b e) = e"
  "se_block v = None \<Longrightarrow> unlinked_se (set_se_block b v) = v"
  by (cases t, simp add: unlinked_tx_def, cases e, simp add: unlinked_te_def, cases v, simp add: unlinked_se_def)

lemma link_block_Inr:
  assumes "lodash_ok lo" and "link_block sdk lo info fin txs ses = Inr b"
  obtains evss where "traverse (wrapTransactionEvents sdk) txs = Inr evss"
    and "b = (let clone = ConcordiumBlock info fin txs (Given (concat evss)) ses
              in ConcordiumBlock info fin (map (set_tx_block clone) txs)
                   (Given (map (set_te_block clone) (concat evss))) (map (set_se_block clone) ses))"
  using assms by (auto simp: link_block_def lodash_ok_def Let_def)

lemma set_tx_block_props [simp]: "tx_props (set_tx_block b t) = tx_props t"
  by (cases t) simp

lemma tx_block_set [simp]: "tx_block (set_tx_block b t) = Some b"
  by (cases t) simp

lemma te_set_simps [simp]:
  "te_block (set_te_block b e) = Some b" "te_props (set_te_block b e) = te_props e"
  "te_id (set_te_block b e) = te_id e" "te_transaction (set_te_block b e) = te_transaction e"
  by (cases e; simp)+

lemma se_set_simps [simp]:
  "se_block (set_se_block b e) = Some b" "se_props (set_se_block b e) = se_props e"
  "se_id (set_se_block b e) = se_id e"
  by (cases e; simp)+

lemma tx_get_set_block: "k \<noteq> ''block'' \<Longrightarrow> tx_get (set_tx_block b t) k = tx_get t k"
  by (cases t) (simp add: tx_get_own)

lemma traverse_events_owner:
  assumes "traverse (wrapTransactionEvents sdk) txs = Inr evss" and "e \<in> set (concat evss)"
  shows "te_transaction e \<in> set txs"
  using assms
proof (induction txs arbitrary: evss)
  case (Cons t txs)
  then obtain evs rest where w: "wrapTransactionEvents sdk t = Inr evs"
    "traverse (wrapTransactionEvents sdk) txs = Inr rest" "evss = evs # rest" by auto
  with wrapTransactionEvents_shape(2) [OF w(1)] Cons show ?case by auto
qed simp

lemma traverse_events_unlinked:
  assumes "traverse (wrapTransactionEvents sdk) txs = Inr evss" and "e \<in> set (concat evss)"
  shows "te_block e = None"
  using assms
proof (induction txs arbitrary: evss)
  case (Cons t txs)
  then obtain evs rest where w: "wrapTransactionEvents sdk t = Inr evs"
    "traverse (wrapTransactionEvents sdk) txs = Inr rest" "evss = evs # rest" by auto
  with wrapTransactionEvents_shape(2) [OF w(1)] Cons show ?case by auto
qed simp

text \<open>
  What the links of a block are: every transaction, transaction event and special event refers to one copy of
  the block.  The copy has the data, transactions and events of the block, and none of its own parts refers to
  a block; the transaction an event refers to is one of the copy's, so it refers to no block either.
\<close>

definition linked :: "concordium_block \<Rightarrow> bool" where
  "linked b \<longleftrightarrow> (\<exists>clone events. b_transactionEvents b = Given events \<and>
     clone = ConcordiumBlock (b_info b) (b_finalizationSummary b) (map unlinked_tx (b_transactions b))
       (Given (map unlinked_te events)) (map unlinked_se (b_specialEvents b)) \<and>
     (\<forall>t \<in> set (b_transactions b). tx_block t = Some clone) \<and>
     (\<forall>e \<in> set (b_specialEvents b). se_block e = Some clone) \<and>
     (\<forall>e \<in> set events. te_block e = Some clone \<and> te_transaction e \<in> set (b_transactions clone)))"

lemma link_block_linked:
  assumes "lodash_ok lo"
    and "link_block sdk lo info fin (map (\<lambda>tx. ConcordiumTx tx None) ptxs) (wrap_special_events pses) = Inr b"
  shows "linked b"
proof -
  let ?txs = "map (\<lambda>tx. ConcordiumTx tx None) ptxs" and ?ses = "wrap_special_events pses"
  from link_block_Inr [OF assms] obtain evss
    where tr: "traverse (wrapTransactionEvents sdk) ?txs = Inr evss"
      and b: "b = (let clone = ConcordiumBlock info fin ?txs (Given (concat evss)) ?ses
              in ConcordiumBlock info fin (map (set_tx_block clone) ?txs)
                   (Given (map (set_te_block clone) (concat evss))) (map (set_se_block clone) ?ses))"
    by blast
  let ?clone = "ConcordiumBlock info fin ?txs (Given (concat evss)) ?ses"
  have "map (unlinked_te \<circ> set_te_block ?clone) (concat evss) = concat evss"
    using traverse_events_unlinked [OF tr] by (intro map_idI) (simp add: unlinked_set)
  moreover have "map (unlinked_tx \<circ> set_tx_block ?clone) ?txs = ?txs"
    by (intro map_idI) (auto simp: unlinked_tx_def)
  moreover have "map (unlinked_se \<circ> set_se_block ?clone) ?ses = ?ses"
    by (intro map_idI) (auto simp: unlinked_se_def wrap_special_events_def)
  moreover have "te_transaction e \<in> set ?txs" if "e \<in> set (concat evss)" for e
    using traverse_events_owner [OF tr that] .
  ultimately show ?thesis
    unfolding linked_def
    by (intro exI [of _ ?clone] exI [of _ "map (set_te_block ?clone) (concat evss)"])
      (simp only: b Let_def, auto simp del: set_concat map_map simp: map_map [symmetric])
qed

section \<open>Blocks from any node\<close>

text \<open>A block that was put together from answers of a node, whatever they were\<close>

definition built :: "sdk_enums \<Rightarrow> lodash \<Rightarrow> iblock \<Rightarrow> bool" where
  "built sdk lo ib \<longleftrightarrow> (\<exists>info fin ptxs pses.
     link_block sdk lo info fin (map (\<lambda>tx. ConcordiumTx tx None) ptxs) (wrap_special_events pses) = Inr (ib_block ib) \<and>
     ib_header ib = blockToHeader (b_info (ib_block ib)))"

lemma getAndWrapBlock_yields: "yields (\<lambda>ib. num_int height \<noteq> None \<and> built sdk lo ib) (getAndWrapBlock sdk lo c height)"
proof -
  have txs: "yields (\<lambda>txs. \<exists>ptxs. txs = map (\<lambda>tx. ConcordiumTx tx None) ptxs) (getAndWrapTransactions c hash)" for hash
    unfolding getAndWrapTransactions_def by (intro yields_bind_any yields_return) blast
  have ses: "yields (\<lambda>ses. \<exists>pses. ses = wrap_special_events pses) (getAndWrapSpecialEvents c hash)" for hash
    unfolding getAndWrapSpecialEvents_def by (intro yields_bind_any yields_return) blast
  have link: "yields (\<lambda>b. \<exists>ptxs pses. link_block sdk lo info fin (map (\<lambda>tx. ConcordiumTx tx None) ptxs)
      (wrap_special_events pses) = Inr b) (lift_proc (link_block sdk lo info fin txs ses))"
    if "\<exists>ptxs. txs = map (\<lambda>tx. ConcordiumTx tx None) ptxs" "\<exists>pses. ses = wrap_special_events pses" for info fin txs ses
    using that by (intro yields_lift) blast
  have int: "yields (\<lambda>h. num_int height = Some h) (lift_proc (num_to_bigint height))"
    by (intro yields_lift) (simp add: num_to_bigint_def split: option.splits)
  show ?thesis
    unfolding getAndWrapBlock_def
    by (intro yields_bind [OF int] yields_bind_any yields_bind [OF txs] yields_bind [OF ses] yields_bind [OF link] yields_return)
      (auto simp: built_def)
qed

lemma fetchBlocks_built:
  assumes "fst (fetchBlocks sdk lo c emit sched heights s) = Some (Inr ibs)"
  shows "list_all2 (\<lambda>n ib. num_int n \<noteq> None \<and> built sdk lo ib) heights ibs"
proof -
  have "yields (\<lambda>ib. num_int n \<noteq> None \<and> built sdk lo ib) (fetchBlock sdk lo c emit n)" for n
    unfolding fetchBlock_def
    by (intro yields_bind [OF getAndWrapBlock_yields] yields_bind_any yields_return)
  then have "list_all2 (\<lambda>n. yields (\<lambda>ib. num_int n \<noteq> None \<and> built sdk lo ib)) heights (map (fetchBlock sdk lo c emit) heights)"
    by (simp add: list_all2_conv_all_nth)
  then show ?thesis
    using assms unfolding fetchBlocks_def by (rule promise_all_yields)
qed

section \<open>Properties\<close>

lemma list_all2_traverse_shape:
  assumes "traverse (wrapTransactionEvents sdk) txs = Inr evss"
  shows "list_all2 (\<lambda>t evs. map te_id evs = [0..<length evs] \<and> (\<forall>e \<in> set evs. te_transaction e = t)) txs evss"
  using traverse_Inr_list_all2 [OF assms]
  by (rule list_all2_mono) (auto dest: wrapTransactionEvents_shape)

definition example_sdk :: sdk_enums where
  "example_sdk = \<lparr>AccountTransaction = ''accountTransaction'',
     kind_value = (\<lambda>k. if k = Update then ''update'' else if k = TransferWithMemo then ''transferWithMemo'' else ''other'')\<rparr>"

definition example_lodash :: lodash where
  "example_lodash = \<lparr>l_flatMap = concat, l_cloneDeep = id\<rparr>"

definition example_info :: block_info where
  "example_info = \<lparr>bi_blockHeight = 7, bi_blockHash = ''hash7'', bi_blockParent = ''hash6'',
     bi_blockReceiveTime = 1000, bi_rest = []\<rparr>"

definition example_chain :: chain_data where
  "example_chain = \<lparr>c_hashes = (\<lambda>h. if h = 7 then [''hash7''] else []),
     c_info = (\<lambda>_. example_info),
     c_finalization = (\<lambda>_. JNull),
     c_transactions = (\<lambda>_. [[(''hash'', JStr ''t1''), (''type'', JStr ''accountTransaction''),
        (''transactionType'', JStr ''transferWithMemo''),
        (''transfer'', JObj 1 [(''tag'', JStr ''Transferred'')]), (''memo'', JObj 2 [(''tag'', JStr ''TransferMemo'')])],
        [(''hash'', JStr ''t2''), (''type'', JStr ''updateTransaction'')]]),
     c_specials = (\<lambda>_. [[(''tag'', JStr ''blockReward'')]])\<rparr>"

definition example_grpc :: "nat grpc_client" where
  "example_grpc = \<lparr>g_getBlocksAtHeight = (\<lambda>h n. (Inr (c_hashes example_chain h), Suc n)),
     g_getBlockInfo = (\<lambda>h n. (Inr (c_info example_chain h), Suc n)),
     g_getConsensusStatus = (\<lambda>n. (Inr 7, Suc n)),
     g_getBlockFinalizationSummary = (\<lambda>h n. (Inr (c_finalization example_chain h), Suc n)),
     g_getBlockTransactionEvents = (\<lambda>h n. (Inr (c_transactions example_chain h), Suc n)),
     g_getBlockSpecialEvents = (\<lambda>h n. (Inr (c_specials example_chain h), Suc n))\<rparr>"

lemma example_serves: "serves example_grpc example_chain"
  by (simp add: serves_def example_grpc_def)

lemma example_lodash_ok: "lodash_ok example_lodash"
  by (simp add: lodash_ok_def example_lodash_def)

lemma example_block_at:
  "\<exists>b. block_at example_sdk example_lodash example_chain 7 = Inr b \<and>
       (\<exists>e1 e2. b_transactionEvents b = Given [e1, e2])"
  by (simp add: block_at_def link_block_def example_chain_def example_lodash_def example_sdk_def
      example_info_def wrapTransactionEvents_def collect_events_def switch_order_def tx_get_own
      obj_member_def Let_def)

lemma example_fetch:
  assumes "block_at example_sdk example_lodash example_chain 7 = Inr b"
  shows "fst (fetchBlocks example_sdk example_lodash example_grpc (return_io ()) [0, 0, 0, 0, 0, 0] [num_of_int 7] 0) =
    Some (Inr [iblock_of b])"
proof -
  have "list_all2 (\<lambda>n b. \<exists>h. num_int n = Some h \<and> block_at example_sdk example_lodash example_chain h = Inr b)
      [num_of_int 7] [b]" using assms by simp
  note settle = fetchBlocks_all_settle [OF example_serves _ this, of "return_io ()"]
  show ?thesis
    unfolding fetchBlocks_def using promise_all_completes [OF settle, of "[0, 0, 0, 0, 0, 0]" 0]
    by (simp add: return_io_def)
qed

text \<open>
  Fetching a batch of blocks from a node whose answers depend on the request only gives, for every
  interleaving of the requests of all blocks, the blocks of the batch in the order of the batch: the
  promise never settles with anything else, and it settles once every fetch got its six turns.
\<close>

theorem fetchBlocks_any_interleaving:
  assumes "serves c d" and "\<And>s. fst (emit s) = Inr ()"
    and "list_all2 (\<lambda>n b. \<exists>h. num_int n = Some h \<and> block_at sdk lo d h = Inr b) heights bs"
  shows "fst (fetchBlocks sdk lo c emit sched heights s) \<in> {None, Some (Inr (map iblock_of bs))} \<and>
    ((\<forall>i < length heights. 6 \<le> count_list sched i) \<longrightarrow>
      fst (fetchBlocks sdk lo c emit sched heights s) = Some (Inr (map iblock_of bs)))"
proof -
  note settle = fetchBlocks_all_settle [OF assms]
  show ?thesis
    unfolding fetchBlocks_def
    using promise_all_result [OF settle] promise_all_completes [OF settle] by simp
qed

theorem fetchBlocks_any_interleaving_witness:
  "\<exists>b. fst (fetchBlocks example_sdk example_lodash example_grpc (return_io ())
     [0, 1, 0, 1, 1, 0, 1, 0, 0, 1, 1, 0] [num_of_int 7, num_of_int 7] 0) = Some (Inr [iblock_of b, iblock_of b])"
proof -
  obtain b where b: "block_at example_sdk example_lodash example_chain 7 = Inr b"
    using example_block_at by blast
  have "i < length [num_of_int 7, num_of_int 7] \<Longrightarrow> 6 \<le> count_list [0, 1, 0, 1, 1, 0, 1, 0, 0, 1, 1, 0 :: nat] i" for i
    by (auto simp: less_Suc_eq)
  then show ?thesis
    using fetchBlocks_any_interleaving [of example_grpc example_chain "return_io ()" example_sdk
        example_lodash "[num_of_int 7, num_of_int 7]" "[b, b]" "[0, 1, 0, 1, 1, 0, 1, 0, 0, 1, 1, 0]" 0] b
    by (auto simp: example_serves io_defs)
qed

text \<open>
  A node whose block 8 has an update transaction without its list of events and which has no finalization
  summary for block 9
\<close>

definition failing_node :: node_answers where
  "failing_node = (always_answers example_chain)\<lparr>
     n_hashes := (\<lambda>h. Inr [if h = 8 then ''hash8'' else if h = 9 then ''hash9'' else ''hash7'']),
     n_info := (\<lambda>h. Inr (case h of Some hash \<Rightarrow> example_info\<lparr>bi_blockHash := hash\<rparr> | None \<Rightarrow> example_info)),
     n_finalization := (\<lambda>hash. if hash = ''hash9'' then Inl (plain_error ''NOT_FOUND'') else Inr JNull),
     n_transactions := (\<lambda>hash. if hash = ''hash8''
       then Inr [[(''type'', JStr ''accountTransaction''), (''transactionType'', JStr ''update'')]]
       else Inr [])\<rparr>"

definition failing_grpc :: "nat grpc_client" where
  "failing_grpc = \<lparr>g_getBlocksAtHeight = (\<lambda>h n. (n_hashes failing_node h, Suc n)),
     g_getBlockInfo = (\<lambda>h n. (n_info failing_node h, Suc n)),
     g_getConsensusStatus = (\<lambda>n. (Inr 7, Suc n)),
     g_getBlockFinalizationSummary = (\<lambda>h n. (n_finalization failing_node h, Suc n)),
     g_getBlockTransactionEvents = (\<lambda>h n. (n_transactions failing_node h, Suc n)),
     g_getBlockSpecialEvents = (\<lambda>h n. (n_specials failing_node h, Suc n))\<rparr>"

lemma failing_answers: "answers failing_grpc failing_node"
  by (simp add: answers_def failing_grpc_def)

lemma failing_outcomes:
  "\<exists>ib. fetch_outcome example_sdk example_lodash failing_node (num_of_int 7) = Inr ib"
  "fetch_outcome example_sdk example_lodash failing_node (num_of_int 8) =
     Inl (type_error ''Spread syntax requires ...iterable[Symbol.iterator] to be a function'')"
  "fetch_outcome example_sdk example_lodash failing_node (num_of_int 9) = Inl (plain_error ''NOT_FOUND'')"
  by (simp_all add: fetch_outcome_def link_block_def failing_node_def always_answers_def example_chain_def
      example_info_def example_sdk_def wrapTransactionEvents_def collect_events_def switch_order_def tx_get_own
      obj_member_def proto_member_def object_prototype_methods_def Let_def)

text \<open>
  C3: when the answers of the node, values or errors, depend on the request only, a batch of blocks ends, for
  every interleaving of its requests, in one of two ways: it fulfils, and then the fetch of every height
  succeeded and the blocks are theirs, in the order of the batch; or it rejects with the error of the fetch of
  one of its heights.  It has ended once every fetch got its six turns, and as soon as one failing fetch got
  them it has rejected, however far the others are: one bad block loses the batch.
\<close>

theorem fetchBlocks_outcome:
  assumes "answers c d" and "\<And>s. fst (emit s) = Inr ()"
  shows "agrees (map (fetch_outcome sdk lo d) heights) (fst (fetchBlocks sdk lo c emit sched heights s)) \<and>
    ((\<forall>i < length heights. 6 \<le> count_list sched i) \<longrightarrow> fst (fetchBlocks sdk lo c emit sched heights s) \<noteq> None) \<and>
    (\<forall>i < length heights. isl (fetch_outcome sdk lo d (heights ! i)) \<and> 6 \<le> count_list sched i \<longrightarrow>
      (\<exists>n e. n \<in> set heights \<and> fetch_outcome sdk lo d n = Inl e \<and>
         fst (fetchBlocks sdk lo c emit sched heights s) = Some (Inl e)))"
proof (intro conjI allI impI)
  note settle = fetchBlocks_settle_with [where emit = emit and sdk = sdk and lo = lo and heights = heights, OF assms]
  show "agrees (map (fetch_outcome sdk lo d) heights) (fst (fetchBlocks sdk lo c emit sched heights s))"
    unfolding fetchBlocks_def using settle by (rule promise_all_agrees)
  show "fst (fetchBlocks sdk lo c emit sched heights s) \<noteq> None"
    if "\<forall>i < length heights. 6 \<le> count_list sched i"
    unfolding fetchBlocks_def using that
    by (intro promise_all_decided [OF settle, of UNIV]) (simp_all add: decisive_def)
  fix i assume i: "i < length heights"
    and turn: "isl (fetch_outcome sdk lo d (heights ! i)) \<and> 6 \<le> count_list sched i"
  then obtain e where "fetch_outcome sdk lo d (heights ! i) = Inl e" by (auto simp: isl_def)
  with promise_all_rejects [OF settle, of i e sched s] i turn
  obtain e' where e': "Inl e' \<in> set (map (fetch_outcome sdk lo d) heights)"
    "fst (fetchBlocks sdk lo c emit sched heights s) = Some (Inl e')"
    unfolding fetchBlocks_def by auto
  from e'(1) obtain n where "n \<in> set heights" "fetch_outcome sdk lo d n = Inl e'" by auto
  with e'(2) show "\<exists>n e. n \<in> set heights \<and> fetch_outcome sdk lo d n = Inl e \<and>
         fst (fetchBlocks sdk lo c emit sched heights s) = Some (Inl e)" by blast
qed

theorem fetchBlocks_outcome_witness:
  "fst (fetchBlocks example_sdk example_lodash failing_grpc (return_io ()) [0, 1, 1, 1, 1, 1, 1]
     [num_of_int 7, num_of_int 8] 0) =
     Some (Inl (type_error ''Spread syntax requires ...iterable[Symbol.iterator] to be a function'')) \<and>
   fst (fetchBlocks example_sdk example_lodash failing_grpc (return_io ()) [0, 1, 1, 1, 1, 1, 1]
     [num_of_int 7, num_of_int 9] 0) = Some (Inl (plain_error ''NOT_FOUND''))"
proof -
  let ?fetch = "\<lambda>hs. fst (fetchBlocks example_sdk example_lodash failing_grpc (return_io ()) [0, 1, 1, 1, 1, 1, 1] hs 0)"
  have "fst (return_io () s) = Inr ()" for s :: nat by (simp add: io_defs)
  note out = fetchBlocks_outcome [OF failing_answers this, THEN conjunct2, THEN conjunct2, rule_format, of 1]
  have "\<exists>n e. n \<in> set [num_of_int 7, k] \<and> fetch_outcome example_sdk example_lodash failing_node n = Inl e \<and>
    ?fetch [num_of_int 7, k] = Some (Inl e)"
    if "isl (fetch_outcome example_sdk example_lodash failing_node k)" for k
    by (rule out) (simp_all add: that)
  from this [of "num_of_int 8"] this [of "num_of_int 9"] failing_outcomes show ?thesis by auto
qed

text \<open>
  C4: whatever the node answers and in whatever order the requests of a batch complete, a batch that
  succeeds has one block for each height, every height was an integer and each block comes with its own header.
  Each block is \<open>linked\<close>: every transaction, transaction event and special event refers to one copy of the
  block, equal to it in its data, transactions and events, except that no part of the copy refers to a block;
  the transaction of an event is one of the copy's, so \<open>event.transaction.block\<close> is \<open>null\<close>.
\<close>

theorem fetched_batch_linked:
  assumes "lodash_ok lo" and "fst (fetchBlocks sdk lo c emit sched heights s) = Some (Inr ibs)"
  shows "length ibs = length heights \<and> list_all (\<lambda>n. num_int n \<noteq> None) heights \<and>
    list_all (\<lambda>ib. ib_header ib = blockToHeader (b_info (ib_block ib)) \<and> linked (ib_block ib)) ibs"
proof -
  note all = fetchBlocks_built [OF assms(2)]
  have "linked (ib_block ib)" if "built sdk lo ib" for ib
    using that link_block_linked [OF assms(1)] unfolding built_def by blast
  with all show ?thesis
    by (auto simp: list_all2_conv_all_nth list_all_length built_def)
qed

theorem fetched_batch_linked_witness:
  "\<exists>ib. fst (fetchBlocks example_sdk example_lodash example_grpc (return_io ()) [0, 0, 0, 0, 0, 0] [num_of_int 7] 0) =
       Some (Inr [ib]) \<and> linked (ib_block ib)"
proof -
  obtain b where b: "block_at example_sdk example_lodash example_chain 7 = Inr b"
    using example_block_at by blast
  note f = example_fetch [OF b]
  with fetched_batch_linked [OF example_lodash_ok f] show ?thesis by simp
qed

text \<open>
  The transaction events of a fetched block are those of its transactions, in the order of the
  transactions; within a transaction they are numbered from zero, and each keeps its transaction.
\<close>

theorem fetched_events_grouped:
  assumes "lodash_ok lo" and "link_block sdk lo info fin txs ses = Inr b"
  shows "\<exists>evss clone. b_transactionEvents b = Given (map (set_te_block clone) (concat evss)) \<and>
    list_all2 (\<lambda>t evs. wrapTransactionEvents sdk t = Inr evs \<and> map te_id evs = [0..<length evs] \<and>
      (\<forall>e \<in> set evs. te_transaction e = t)) txs evss"
proof -
  from link_block_Inr [OF assms] obtain evss where tr: "traverse (wrapTransactionEvents sdk) txs = Inr evss"
    and b: "b = (let clone = ConcordiumBlock info fin txs (Given (concat evss)) ses
              in ConcordiumBlock info fin (map (set_tx_block clone) txs)
                   (Given (map (set_te_block clone) (concat evss))) (map (set_se_block clone) ses))"
    by blast
  have "list_all2 (\<lambda>t evs. wrapTransactionEvents sdk t = Inr evs \<and> map te_id evs = [0..<length evs] \<and>
      (\<forall>e \<in> set evs. te_transaction e = t)) txs evss"
    using traverse_Inr_list_all2 [OF tr] list_all2_traverse_shape [OF tr]
    by (auto simp: list_all2_conv_all_nth)
  then show ?thesis by (auto simp: b Let_def)
qed

theorem fetched_events_grouped_witness:
  "\<exists>b evss clone. link_block example_sdk example_lodash example_info JNull [ConcordiumTx [] None] [] = Inr b \<and>
     b_transactionEvents b = Given (map (set_te_block clone) (concat evss)) \<and> length evss = 1"
proof -
  have "\<exists>b. link_block example_sdk example_lodash example_info JNull [ConcordiumTx [] None] [] = Inr b"
    by (simp add: link_block_def wrapTransactionEvents_def tx_get_own obj_member_def example_sdk_def
        proto_member_def object_prototype_methods_def)
  then obtain b where b: "link_block example_sdk example_lodash example_info JNull [ConcordiumTx [] None] [] = Inr b" ..
  from fetched_events_grouped [OF example_lodash_ok b] obtain evss clone
    where e: "b_transactionEvents b = Given (map (set_te_block clone) (concat evss))"
      and "length [ConcordiumTx [] None] = length evss"
    by (blast dest: list_all2_lengthD)
  then have "length evss = 1" by simp
  with b e show ?thesis by blast
qed

text \<open>
  C27: when the node has no block at the requested height, the list of hashes is empty and the query for
  block information goes out without a hash, which the SDK answers with the last finalized block: the
  fetch returns that block under the requested height.
\<close>

theorem fetch_missing_height:
  assumes "serves c d" and "num_int height = Some h" and "c_hashes d h = []"
    and "block_at sdk lo d h = Inr b" and "lodash_ok lo"
  shows "fst (run_proc (getAndWrapBlock sdk lo c height) s) = Inr (iblock_of b) \<and>
    b_info b = c_info d None"
proof -
  have "fst (run_proc (getAndWrapBlock sdk lo c height) s) = Inr (iblock_of b)"
    using assms(1,2,4) by (rule getAndWrapBlock_served)
  moreover have "b_info b = c_info d None"
    using assms(3,4) by (auto simp: block_at_def link_block_def Let_def)
  ultimately show ?thesis ..
qed

theorem fetch_missing_height_witness:
  "\<exists>ib. fst (run_proc (getAndWrapBlock example_sdk example_lodash example_grpc (num_of_int 99)) 0) = Inr ib \<and>
     bi_blockHeight (b_info (ib_block ib)) = 7"
proof -
  have "block_at example_sdk example_lodash example_chain 99 = block_at example_sdk example_lodash example_chain 7"
    by (simp add: block_at_def example_chain_def)
  then obtain b where b: "block_at example_sdk example_lodash example_chain 99 = Inr b"
    using example_block_at by metis
  have "c_hashes example_chain 99 = []" by (simp add: example_chain_def)
  from fetch_missing_height [OF example_serves _ this b example_lodash_ok, of "num_of_int 99" 0]
  show ?thesis by (simp add: iblock_of_def) (simp add: example_chain_def example_info_def)
qed

text \<open>The fields of a transaction whose events are indexed, in the order of the events, with the kinds that have them\<close>

definition payload_kinds :: "(string \<times> TransactionKindString list) list" where
  "payload_kinds =
     [(''transfer'', [Transfer, TransferWithMemo, TransferWithScheduleAndMemo]),
      (''event'', [TransferWithSchedule]),
      (''removed'', [EncryptedAmountTransfer, EncryptedAmountTransferWithMemo, TransferToPublic]),
      (''added'', [EncryptedAmountTransfer, EncryptedAmountTransferWithMemo, TransferToPublic, TransferToEncrypted]),
      (''memo'', [TransferWithMemo, TransferWithScheduleAndMemo, EncryptedAmountTransferWithMemo]),
      (''moduleDeployed'', [DeployModule]), (''contractInitialized'', [InitContract]), (''dataRegistered'', [RegisterData]),
      (''bakerAdded'', [AddBaker]), (''bakerRemoved'', [RemoveBaker]), (''bakerKeysUpdated'', [UpdateBakerKeys]),
      (''bakerStakeChanged'', [UpdateBakerStake]), (''bakerRestakeEarningsUpdated'', [UpdateBakerRestakeEarnings]),
      (''keysUpdated'', [UpdateCredentialKeys]), (''credentialsUpdated'', [UpdateCredentials])]"

definition payload_fields :: "TransactionKindString \<Rightarrow> string list" where
  "payload_fields k = map fst (filter (\<lambda>(f, ks). k \<in> set ks) payload_kinds)"

lemma run_pushes:
  "traverse (run_push tx) (map Push fs) = Inr (map (\<lambda>f. [tx_get tx f]) fs)"
  by (induction fs) simp_all

lemma event_pushes_fields:
  "event_pushes k = (if k \<in> {Update, ConfigureBaker, ConfigureDelegation} then [PushAll ''events'']
     else map Push (payload_fields k))"
  by (cases k) (simp_all add: payload_fields_def payload_kinds_def)

text \<open>
  C28: the events of a transaction, whatever it is.  One that is not an account transaction or not of a known
  kind has none.  The kinds with a list of events have those of the list, in order, and a list that cannot be
  iterated is a \<open>TypeError\<close>.  Every other kind has the values of its payload fields: a transfer, or the removed
  and added encrypted amounts, then the memo, or the one field of its own.  Each event is a copy of its value
  numbered from zero, refers to the transaction and to no block yet.
\<close>

theorem wrapTransactionEvents_fields:
  assumes "inj (kind_value sdk)"
  shows "(tx_get tx ''type'' \<noteq> JStr (AccountTransaction sdk) \<or>
      (\<forall>k. tx_get tx ''transactionType'' \<noteq> JStr (kind_value sdk k)) \<longrightarrow> wrapTransactionEvents sdk tx = Inr []) \<and>
    (tx_get tx ''type'' = JStr (AccountTransaction sdk) \<and> tx_get tx ''transactionType'' = JStr (kind_value sdk k) \<longrightarrow>
      wrapTransactionEvents sdk tx = map_res (\<lambda>vs. map (\<lambda>(i, v). ConcordiumTxEvent (spread v) i None tx) (enumerate 0 vs))
        (if k \<in> {Update, ConfigureBaker, ConfigureDelegation} then iterate (tx_get tx ''events'')
         else Inr (map (tx_get tx) (payload_fields k))))"
proof (intro conjI impI)
  assume "tx_get tx ''type'' \<noteq> JStr (AccountTransaction sdk) \<or>
      (\<forall>k. tx_get tx ''transactionType'' \<noteq> JStr (kind_value sdk k))"
  then show "wrapTransactionEvents sdk tx = Inr []"
    using wrapTransactionEvents_other_type wrapTransactionEvents_unknown_kind by blast
next
  assume "tx_get tx ''type'' = JStr (AccountTransaction sdk) \<and> tx_get tx ''transactionType'' = JStr (kind_value sdk k)"
  then have "wrapTransactionEvents sdk tx = map_res (\<lambda>vss. map (\<lambda>(i, v). ConcordiumTxEvent (spread v) i None tx)
      (enumerate 0 (concat vss))) (traverse (run_push tx) (event_pushes k))"
    using wrapTransactionEvents_kind [OF assms] by simp
  then show "wrapTransactionEvents sdk tx = map_res (\<lambda>vs. map (\<lambda>(i, v). ConcordiumTxEvent (spread v) i None tx) (enumerate 0 vs))
        (if k \<in> {Update, ConfigureBaker, ConfigureDelegation} then iterate (tx_get tx ''events'')
         else Inr (map (tx_get tx) (payload_fields k)))"
    by (cases "iterate (tx_get tx ''events'')") (simp_all add: event_pushes_fields run_pushes)
qed

definition numbered_sdk :: sdk_enums where
  "numbered_sdk = \<lparr>AccountTransaction = ''accountTransaction'',
     kind_value = (\<lambda>k. replicate (length (takeWhile (\<lambda>j. j \<noteq> k) switch_order)) CHR ''k'')\<rparr>"

lemma nth_first_index: "x \<in> set xs \<Longrightarrow> xs ! length (takeWhile (\<lambda>y. y \<noteq> x) xs) = x"
  by (induction xs) auto

lemma numbered_sdk_inj: "inj (kind_value numbered_sdk)"
proof (rule injI)
  fix j k assume "kind_value numbered_sdk j = kind_value numbered_sdk k"
  then have "length (takeWhile (\<lambda>i. i \<noteq> j) switch_order) = length (takeWhile (\<lambda>i. i \<noteq> k) switch_order)"
    by (simp add: numbered_sdk_def replicate_eq_replicate)
  moreover have "j \<in> set switch_order" "k \<in> set switch_order" by (simp_all only: set_switch_order UNIV_I)
  ultimately show "j = k"
    using nth_first_index [of j switch_order] nth_first_index [of k switch_order] by argo
qed

theorem wrapTransactionEvents_fields_witness:
  "wrapTransactionEvents numbered_sdk (ConcordiumTx
     [(''type'', JStr ''accountTransaction''), (''transactionType'', JStr (kind_value numbered_sdk EncryptedAmountTransferWithMemo)),
      (''memo'', JObj 1 [(''memo'', JStr ''m'')]), (''added'', JObj 2 [(''newIndex'', JBig 3)]),
      (''removed'', JObj 3 [(''upToIndex'', JBig 2)])] None) =
     Inr (map (\<lambda>(i, ps). ConcordiumTxEvent ps i None (ConcordiumTx
     [(''type'', JStr ''accountTransaction''), (''transactionType'', JStr (kind_value numbered_sdk EncryptedAmountTransferWithMemo)),
      (''memo'', JObj 1 [(''memo'', JStr ''m'')]), (''added'', JObj 2 [(''newIndex'', JBig 3)]),
      (''removed'', JObj 3 [(''upToIndex'', JBig 2)])] None))
       [(0, [(''upToIndex'', JBig 2)]), (1, [(''newIndex'', JBig 3)]), (2, [(''memo'', JStr ''m'')])])"
proof -
  let ?tx = "ConcordiumTx
     [(''type'', JStr ''accountTransaction''), (''transactionType'', JStr (kind_value numbered_sdk EncryptedAmountTransferWithMemo)),
      (''memo'', JObj 1 [(''memo'', JStr ''m'')]), (''added'', JObj 2 [(''newIndex'', JBig 3)]),
      (''removed'', JObj 3 [(''upToIndex'', JBig 2)])] None"
  have get: "tx_get ?tx ''type'' = JStr (AccountTransaction numbered_sdk)"
    "tx_get ?tx ''transactionType'' = JStr (kind_value numbered_sdk EncryptedAmountTransferWithMemo)"
    "map (tx_get ?tx) (payload_fields EncryptedAmountTransferWithMemo) =
      [JObj 3 [(''upToIndex'', JBig 2)], JObj 2 [(''newIndex'', JBig 3)], JObj 1 [(''memo'', JStr ''m'')]]"
    by (simp_all add: tx_get_own obj_member_def payload_fields_def payload_kinds_def) (simp add: numbered_sdk_def)
  from wrapTransactionEvents_fields [OF numbered_sdk_inj, of ?tx EncryptedAmountTransferWithMemo] show ?thesis
    unfolding get by simp
qed

end
