(* ===== verification/SafeApi.thy ===== *)
theory SafeApi
  imports ConcordiumTypes
begin

text \<open>
  The safe client (packages/node/src/concordium/safe-api.ts), the API a handler sees: every query is
  pinned to the block being indexed, and what cannot be pinned is refused.

  \<open>safe_body this m args\<close> is the body of method \<open>m\<close> up to its call: \<open>Super m' args'\<close> is
  \<open>super.m'(args')\<close>, a call of the SDK's client, \<open>CallSelf\<close> a call of the class's own method and
  \<open>Throws\<close> a thrown or rejected error.  \<open>run_safe depth\<close> runs a call on a stack of \<open>depth\<close> frames;
  a chain of own calls that does not end exhausts any stack, which is JavaScript's \<open>RangeError\<close>.  The
  SDK's client itself is the argument \<open>grpc\<close> of \<open>safe_call\<close>.
\<close>

section \<open>Methods\<close>

record safe_client =
  sc_blockHeight :: jsnum
  sc_blockHash :: string

definition arg :: "jsval list \<Rightarrow> nat \<Rightarrow> jsval" where
  "arg args i = (if i < length args then args ! i else JUndef)"

definition not_supported :: "string \<Rightarrow> js_error" where
  "not_supported m = plain_error (''Method `'' @ m @ ''` not supported.'')"

datatype safe_method =
    GetNextAccountNonce
  | GetCryptographicParameters
  | GetAccountInfo
  | GetBlockItemStatus
  | GetConsensusStatus
  | GetModuleSource
  | GetInstanceInfo
  | InvokeContract
  | SendAccountTransaction
  | SendCredentialDeploymentTransaction
  | GetBlockChainParameters
  | GetPoolInfo
  | GetPassiveDelegationInfo
  | GetTokenomicsInfo
  | GetFinalizedBlocks
  | GetBlocks
  | WaitForTransactionFinalization
  | GetAccountList
  | GetModuleList
  | GetAncestors
  | GetInstanceState
  | InstanceStateLookup
  | GetIdentityProviders
  | GetAnonymityRevokers
  | GetBlocksAtHeight
  | GetBlockInfo
  | GetBakerList
  | GetPoolDelegators
  | GetPoolDelegatorsRewardPeriod
  | GetPassiveDelegators
  | GetPassiveDelegatorsRewardPeriod
  | GetBranches
  | GetElectionInfo
  | GetAccountNonFinalizedTransactions
  | GetBlockTransactionEvents
  | GetNextUpdateSequenceNumbers
  | Shutdown
  | PeerConnect
  | PeerDisconnect
  | GetBannedPeers
  | BanPeer
  | UnbanPeer
  | DumpStart
  | DumpStop
  | GetNodeInfo
  | GetPeersInfo
  | GetBlockSpecialEvents
  | GetBlockPendingUpdates
  | GetBlockFinalizationSummary
  | GetFinalizedBlocksFrom
  | FindEarliestFinalized
  | FindInstanceCreation
  | FindFirstFinalizedBlockNoLaterThan

primrec method_name :: "safe_method \<Rightarrow> string" where
  "method_name GetNextAccountNonce = ''getNextAccountNonce''"
| "method_name GetCryptographicParameters = ''getCryptographicParameters''"
| "method_name GetAccountInfo = ''getAccountInfo''"
| "method_name GetBlockItemStatus = ''getBlockItemStatus''"
| "method_name GetConsensusStatus = ''getConsensusStatus''"
| "method_name GetModuleSource = ''getModuleSource''"
| "method_name GetInstanceInfo = ''getInstanceInfo''"
| "method_name InvokeContract = ''invokeContract''"
| "method_name SendAccountTransaction = ''sendAccountTransaction''"
| "method_name SendCredentialDeploymentTransaction = ''sendCredentialDeploymentTransaction''"
| "method_name GetBlockChainParameters = ''getBlockChainParameters''"
| "method_name GetPoolInfo = ''getPoolInfo''"
| "method_name GetPassiveDelegationInfo = ''getPassiveDelegationInfo''"
| "method_name GetTokenomicsInfo = ''getTokenomicsInfo''"
| "method_name GetFinalizedBlocks = ''getFinalizedBlocks''"
| "method_name GetBlocks = ''getBlocks''"
| "method_name WaitForTransactionFinalization = ''waitForTransactionFinalization''"
| "method_name GetAccountList = ''getAccountList''"
| "method_name GetModuleList = ''getModuleList''"
| "method_name GetAncestors = ''getAncestors''"
| "method_name GetInstanceState = ''getInstanceState''"
| "method_name InstanceStateLookup = ''instanceStateLookup''"
| "method_name GetIdentityProviders = ''getIdentityProviders''"
| "method_name GetAnonymityRevokers = ''getAnonymityRevokers''"
| "method_name GetBlocksAtHeight = ''getBlocksAtHeight''"
| "method_name GetBlockInfo = ''getBlockInfo''"
| "method_name GetBakerList = ''getBakerList''"
| "method_name GetPoolDelegators = ''getPoolDelegators''"
| "method_name GetPoolDelegatorsRewardPeriod = ''getPoolDelegatorsRewardPeriod''"
| "method_name GetPassiveDelegators = ''getPassiveDelegators''"
| "method_name GetPassiveDelegatorsRewardPeriod = ''getPassiveDelegatorsRewardPeriod''"
| "method_name GetBranches = ''getBranches''"
| "method_name GetElectionInfo = ''getElectionInfo''"
| "method_name GetAccountNonFinalizedTransactions = ''getAccountNonFinalizedTransactions''"
| "method_name GetBlockTransactionEvents = ''getBlockTransactionEvents''"
| "method_name GetNextUpdateSequenceNumbers = ''getNextUpdateSequenceNumbers''"
| "method_name Shutdown = ''shutdown''"
| "method_name PeerConnect = ''peerConnect''"
| "method_name PeerDisconnect = ''peerDisconnect''"
| "method_name GetBannedPeers = ''getBannedPeers''"
| "method_name BanPeer = ''banPeer''"
| "method_name UnbanPeer = ''unbanPeer''"
| "method_name DumpStart = ''dumpStart''"
| "method_name DumpStop = ''dumpStop''"
| "method_name GetNodeInfo = ''getNodeInfo''"
| "method_name GetPeersInfo = ''getPeersInfo''"
| "method_name GetBlockSpecialEvents = ''getBlockSpecialEvents''"
| "method_name GetBlockPendingUpdates = ''getBlockPendingUpdates''"
| "method_name GetBlockFinalizationSummary = ''getBlockFinalizationSummary''"
| "method_name GetFinalizedBlocksFrom = ''getFinalizedBlocksFrom''"
| "method_name FindEarliestFinalized = ''findEarliestFinalized''"
| "method_name FindInstanceCreation = ''findInstanceCreation''"
| "method_name FindFirstFinalizedBlockNoLaterThan = ''findFirstFinalizedBlockNoLaterThan''"

datatype outcome =
    Super safe_method "jsval list"
  | CallSelf safe_method "jsval list"
  | Throws js_error

definition safe_getNextAccountNonce :: "safe_client \<Rightarrow> jsval \<Rightarrow> outcome" where
  "safe_getNextAccountNonce this accountAddress = Throws (not_supported ''getNextAccountNonce'')"

definition safe_getCryptographicParameters :: "safe_client \<Rightarrow> outcome" where
  "safe_getCryptographicParameters this =
     Super GetCryptographicParameters [JStr (sc_blockHash this)]"

definition safe_getAccountInfo :: "safe_client \<Rightarrow> jsval \<Rightarrow> outcome" where
  "safe_getAccountInfo this accountIdentifier =
     Super GetAccountInfo [accountIdentifier, JStr (sc_blockHash this)]"

definition safe_getBlockItemStatus :: "safe_client \<Rightarrow> jsval \<Rightarrow> outcome" where
  "safe_getBlockItemStatus this transactionHash = Throws (not_supported ''getBlockItemStatus'')"

definition safe_getConsensusStatus :: "safe_client \<Rightarrow> outcome" where
  "safe_getConsensusStatus this = Throws (not_supported ''getConsensusStatus'')"

definition safe_getModuleSource :: "safe_client \<Rightarrow> jsval \<Rightarrow> outcome" where
  "safe_getModuleSource this moduleRef = Super GetModuleSource [moduleRef, JStr (sc_blockHash this)]"

definition safe_getInstanceInfo :: "safe_client \<Rightarrow> jsval \<Rightarrow> outcome" where
  "safe_getInstanceInfo this contractAddress =
     Super GetInstanceInfo [contractAddress, JStr (sc_blockHash this)]"

definition safe_invokeContract :: "safe_client \<Rightarrow> jsval \<Rightarrow> outcome" where
  "safe_invokeContract this ctx = Super InvokeContract [ctx, JStr (sc_blockHash this)]"

definition safe_sendAccountTransaction ::
  "safe_client \<Rightarrow> jsval \<Rightarrow> jsval \<Rightarrow> outcome"
where
  "safe_sendAccountTransaction this transaction signature =
     Throws (not_supported ''sendAccountTransaction'')"

definition safe_sendCredentialDeploymentTransaction ::
  "safe_client \<Rightarrow> jsval \<Rightarrow> jsval \<Rightarrow> outcome"
where
  "safe_sendCredentialDeploymentTransaction this credentialDeploymentTransaction signatures =
     Throws (not_supported ''sendCredentialDeploymentTransaction'')"

definition safe_getBlockChainParameters :: "safe_client \<Rightarrow> outcome" where
  "safe_getBlockChainParameters this = Super GetBlockChainParameters [JStr (sc_blockHash this)]"

definition safe_getPoolInfo :: "safe_client \<Rightarrow> jsval \<Rightarrow> outcome" where
  "safe_getPoolInfo this bakerId = Super GetPoolInfo [bakerId, JStr (sc_blockHash this)]"

definition safe_getPassiveDelegationInfo :: "safe_client \<Rightarrow> outcome" where
  "safe_getPassiveDelegationInfo this = Super GetPassiveDelegationInfo [JStr (sc_blockHash this)]"

definition safe_getTokenomicsInfo :: "safe_client \<Rightarrow> outcome" where
  "safe_getTokenomicsInfo this = Super GetTokenomicsInfo [JStr (sc_blockHash this)]"

definition safe_getFinalizedBlocks :: "safe_client \<Rightarrow> jsval \<Rightarrow> outcome" where
  "safe_getFinalizedBlocks this abortSignal = Throws (not_supported ''getFinalizedBlocks'')"

definition safe_getBlocks :: "safe_client \<Rightarrow> jsval \<Rightarrow> outcome" where
  "safe_getBlocks this abortSignal = Throws (not_supported ''getBlocks'')"

definition safe_waitForTransactionFinalization ::
  "safe_client \<Rightarrow> jsval \<Rightarrow> jsval \<Rightarrow> outcome"
where
  "safe_waitForTransactionFinalization this transactionHash timeoutTime =
     Throws (not_supported ''getBlocks'')"

definition safe_getAccountList ::
  "safe_client \<Rightarrow> jsval \<Rightarrow> jsval \<Rightarrow> outcome"
where
  "safe_getAccountList this blockHash abortSignal =
     Super GetAccountList [JStr (sc_blockHash this), abortSignal]"

definition safe_getModuleList ::
  "safe_client \<Rightarrow> jsval \<Rightarrow> jsval \<Rightarrow> outcome"
where
  "safe_getModuleList this blockHash abortSignal =
     Super GetModuleList [JStr (sc_blockHash this), abortSignal]"

definition safe_getAncestors ::
  "safe_client \<Rightarrow> jsval \<Rightarrow> jsval \<Rightarrow> jsval \<Rightarrow> outcome"
where
  "safe_getAncestors this maxAmountOfAncestors blockHash abortSignal =
     Super GetAncestors [maxAmountOfAncestors, JStr (sc_blockHash this), abortSignal]"

definition safe_getInstanceState ::
  "safe_client \<Rightarrow> jsval \<Rightarrow> jsval \<Rightarrow> jsval \<Rightarrow> outcome"
where
  "safe_getInstanceState this contractAddress blockHash abortSignal =
     Super GetInstanceState [contractAddress, JStr (sc_blockHash this), abortSignal]"

definition safe_instanceStateLookup ::
  "safe_client \<Rightarrow> jsval \<Rightarrow> jsval \<Rightarrow> outcome"
where
  "safe_instanceStateLookup this contractAddress key =
     Super InstanceStateLookup [contractAddress, key, JStr (sc_blockHash this)]"

definition safe_getIdentityProviders ::
  "safe_client \<Rightarrow> jsval \<Rightarrow> jsval \<Rightarrow> outcome"
where
  "safe_getIdentityProviders this blockHash abortSignal =
     Super GetIdentityProviders [JStr (sc_blockHash this), abortSignal]"

definition safe_getAnonymityRevokers ::
  "safe_client \<Rightarrow> jsval \<Rightarrow> jsval \<Rightarrow> outcome"
where
  "safe_getAnonymityRevokers this blockHash abortSignal =
     CallSelf GetAnonymityRevokers [JStr (sc_blockHash this), abortSignal]"

definition safe_getBlocksAtHeight :: "safe_client \<Rightarrow> outcome" where
  "safe_getBlocksAtHeight this =
     (case num_to_bigint (sc_blockHeight this) of
        Inl e \<Rightarrow> Throws e
      | Inr h \<Rightarrow> Super GetBlocksAtHeight [JBig h])"

definition safe_getBlockInfo :: "safe_client \<Rightarrow> outcome" where
  "safe_getBlockInfo this = Super GetBlockInfo [JStr (sc_blockHash this)]"

definition safe_getBakerList ::
  "safe_client \<Rightarrow> jsval \<Rightarrow> jsval \<Rightarrow> outcome"
where
  "safe_getBakerList this blockHash abortSignal =
     Super GetBakerList [JStr (sc_blockHash this), abortSignal]"

definition safe_getPoolDelegators ::
  "safe_client \<Rightarrow> jsval \<Rightarrow> jsval \<Rightarrow> jsval \<Rightarrow> outcome"
where
  "safe_getPoolDelegators this baker blockHash abortSignal =
     Super GetPoolDelegators [baker, JStr (sc_blockHash this), abortSignal]"

definition safe_getPoolDelegatorsRewardPeriod ::
  "safe_client \<Rightarrow> jsval \<Rightarrow> jsval \<Rightarrow> jsval \<Rightarrow> outcome"
where
  "safe_getPoolDelegatorsRewardPeriod this baker blockHash abortSignal =
     Super GetPoolDelegatorsRewardPeriod [baker, JStr (sc_blockHash this), abortSignal]"

definition safe_getPassiveDelegators ::
  "safe_client \<Rightarrow> jsval \<Rightarrow> jsval \<Rightarrow> outcome"
where
  "safe_getPassiveDelegators this blockHash abortSignal =
     Super GetPassiveDelegators [JStr (sc_blockHash this), abortSignal]"

definition safe_getPassiveDelegatorsRewardPeriod ::
  "safe_client \<Rightarrow> jsval \<Rightarrow> jsval \<Rightarrow> outcome"
where
  "safe_getPassiveDelegatorsRewardPeriod this blockHash abortSignal =
     Super GetPassiveDelegatorsRewardPeriod [JStr (sc_blockHash this), abortSignal]"

definition safe_getBranches :: "safe_client \<Rightarrow> outcome" where
  "safe_getBranches this = Throws (not_supported ''getBranches'')"

definition safe_getElectionInfo :: "safe_client \<Rightarrow> outcome" where
  "safe_getElectionInfo this = Super GetElectionInfo [JStr (sc_blockHash this)]"

definition safe_getAccountNonFinalizedTransactions ::
  "safe_client \<Rightarrow> jsval \<Rightarrow> jsval \<Rightarrow> outcome"
where
  "safe_getAccountNonFinalizedTransactions this accountAddress abortSignal =
     Throws (not_supported ''getAccountNonFinalizedTransactions'')"

definition safe_getBlockTransactionEvents ::
  "safe_client \<Rightarrow> jsval \<Rightarrow> jsval \<Rightarrow> outcome"
where
  "safe_getBlockTransactionEvents this blockHash abortSignal =
     Super GetBlockTransactionEvents [JStr (sc_blockHash this), abortSignal]"

definition safe_getNextUpdateSequenceNumbers :: "safe_client \<Rightarrow> outcome" where
  "safe_getNextUpdateSequenceNumbers this =
     Super GetNextUpdateSequenceNumbers [JStr (sc_blockHash this)]"

definition safe_shutdown :: "safe_client \<Rightarrow> outcome" where
  "safe_shutdown this = Throws (not_supported ''shutdown'')"

definition safe_peerConnect ::
  "safe_client \<Rightarrow> jsval \<Rightarrow> jsval \<Rightarrow> outcome"
where
  "safe_peerConnect this ip port = Throws (not_supported ''peerConnect'')"

definition safe_peerDisconnect ::
  "safe_client \<Rightarrow> jsval \<Rightarrow> jsval \<Rightarrow> outcome"
where
  "safe_peerDisconnect this ip port = Throws (not_supported ''peerDisconnect'')"

definition safe_getBannedPeers :: "safe_client \<Rightarrow> outcome" where
  "safe_getBannedPeers this = Throws (not_supported ''getBannedPeers'')"

definition safe_banPeer :: "safe_client \<Rightarrow> jsval \<Rightarrow> outcome" where
  "safe_banPeer this ip = Throws (not_supported ''banPeer'')"

definition safe_unbanPeer :: "safe_client \<Rightarrow> jsval \<Rightarrow> outcome" where
  "safe_unbanPeer this ip = Throws (not_supported ''unbanPeer'')"

definition safe_dumpStart ::
  "safe_client \<Rightarrow> jsval \<Rightarrow> jsval \<Rightarrow> outcome"
where
  "safe_dumpStart this filePath raw = Throws (not_supported ''dumpStart'')"

definition safe_dumpStop :: "safe_client \<Rightarrow> outcome" where
  "safe_dumpStop this = Throws (not_supported ''dumpStop'')"

definition safe_getNodeInfo :: "safe_client \<Rightarrow> outcome" where
  "safe_getNodeInfo this = Throws (not_supported ''getNodeInfo'')"

definition safe_getPeersInfo :: "safe_client \<Rightarrow> outcome" where
  "safe_getPeersInfo this = Throws (not_supported ''getPeerInfo'')"

definition safe_getBlockSpecialEvents ::
  "safe_client \<Rightarrow> jsval \<Rightarrow> jsval \<Rightarrow> outcome"
where
  "safe_getBlockSpecialEvents this blockHash abortSignal =
     Super GetBlockSpecialEvents [JStr (sc_blockHash this), abortSignal]"

definition safe_getBlockPendingUpdates ::
  "safe_client \<Rightarrow> jsval \<Rightarrow> jsval \<Rightarrow> outcome"
where
  "safe_getBlockPendingUpdates this blockHash abortSignal =
     Super GetBlockPendingUpdates [JStr (sc_blockHash this), abortSignal]"

definition safe_getBlockFinalizationSummary :: "safe_client \<Rightarrow> outcome" where
  "safe_getBlockFinalizationSummary this =
     Super GetBlockFinalizationSummary [JStr (sc_blockHash this)]"

definition safe_getFinalizedBlocksFrom ::
  "safe_client \<Rightarrow> jsval \<Rightarrow> jsval \<Rightarrow> outcome"
where
  "safe_getFinalizedBlocksFrom this startHeight end_arg =
     Throws (not_supported ''getFinalizedBlocksFrom'')"

definition safe_findEarliestFinalized ::
  "safe_client \<Rightarrow> jsval \<Rightarrow> jsval \<Rightarrow> jsval \<Rightarrow> outcome"
where
  "safe_findEarliestFinalized this predicate from_height until =
     Throws (not_supported ''findEarliestFinalized'')"

definition safe_findInstanceCreation ::
  "safe_client \<Rightarrow> jsval \<Rightarrow> jsval \<Rightarrow> jsval \<Rightarrow> outcome"
where
  "safe_findInstanceCreation this address from_height until =
     Throws (not_supported ''findInstanceCreation'')"

definition safe_findFirstFinalizedBlockNoLaterThan ::
  "safe_client \<Rightarrow> jsval \<Rightarrow> jsval \<Rightarrow> jsval \<Rightarrow> outcome"
where
  "safe_findFirstFinalizedBlockNoLaterThan this time from_height until =
     Throws (not_supported ''findFirstFinalizedBlockNoLaterThan'')"

text \<open>Calling a method by name: a missing argument is \<open>undefined\<close>.\<close>

primrec safe_body :: "safe_client \<Rightarrow> safe_method \<Rightarrow> jsval list \<Rightarrow> outcome" where
  "safe_body this GetNextAccountNonce args = safe_getNextAccountNonce this (arg args 0)"
| "safe_body this GetCryptographicParameters args = safe_getCryptographicParameters this"
| "safe_body this GetAccountInfo args = safe_getAccountInfo this (arg args 0)"
| "safe_body this GetBlockItemStatus args = safe_getBlockItemStatus this (arg args 0)"
| "safe_body this GetConsensusStatus args = safe_getConsensusStatus this"
| "safe_body this GetModuleSource args = safe_getModuleSource this (arg args 0)"
| "safe_body this GetInstanceInfo args = safe_getInstanceInfo this (arg args 0)"
| "safe_body this InvokeContract args = safe_invokeContract this (arg args 0)"
| "safe_body this SendAccountTransaction args = safe_sendAccountTransaction this (arg args 0) (arg args 1)"
| "safe_body this SendCredentialDeploymentTransaction args = safe_sendCredentialDeploymentTransaction this (arg args 0) (arg args 1)"
| "safe_body this GetBlockChainParameters args = safe_getBlockChainParameters this"
| "safe_body this GetPoolInfo args = safe_getPoolInfo this (arg args 0)"
| "safe_body this GetPassiveDelegationInfo args = safe_getPassiveDelegationInfo this"
| "safe_body this GetTokenomicsInfo args = safe_getTokenomicsInfo this"
| "safe_body this GetFinalizedBlocks args = safe_getFinalizedBlocks this (arg args 0)"
| "safe_body this GetBlocks args = safe_getBlocks this (arg args 0)"
| "safe_body this WaitForTransactionFinalization args = safe_waitForTransactionFinalization this (arg args 0) (arg args 1)"
| "safe_body this GetAccountList args = safe_getAccountList this (arg args 0) (arg args 1)"
| "safe_body this GetModuleList args = safe_getModuleList this (arg args 0) (arg args 1)"
| "safe_body this GetAncestors args = safe_getAncestors this (arg args 0) (arg args 1) (arg args 2)"
| "safe_body this GetInstanceState args = safe_getInstanceState this (arg args 0) (arg args 1) (arg args 2)"
| "safe_body this InstanceStateLookup args = safe_instanceStateLookup this (arg args 0) (arg args 1)"
| "safe_body this GetIdentityProviders args = safe_getIdentityProviders this (arg args 0) (arg args 1)"
| "safe_body this GetAnonymityRevokers args = safe_getAnonymityRevokers this (arg args 0) (arg args 1)"
| "safe_body this GetBlocksAtHeight args = safe_getBlocksAtHeight this"
| "safe_body this GetBlockInfo args = safe_getBlockInfo this"
| "safe_body this GetBakerList args = safe_getBakerList this (arg args 0) (arg args 1)"
| "safe_body this GetPoolDelegators args = safe_getPoolDelegators this (arg args 0) (arg args 1) (arg args 2)"
| "safe_body this GetPoolDelegatorsRewardPeriod args = safe_getPoolDelegatorsRewardPeriod this (arg args 0) (arg args 1) (arg args 2)"
| "safe_body this GetPassiveDelegators args = safe_getPassiveDelegators this (arg args 0) (arg args 1)"
| "safe_body this GetPassiveDelegatorsRewardPeriod args = safe_getPassiveDelegatorsRewardPeriod this (arg args 0) (arg args 1)"
| "safe_body this GetBranches args = safe_getBranches this"
| "safe_body this GetElectionInfo args = safe_getElectionInfo this"
| "safe_body this GetAccountNonFinalizedTransactions args = safe_getAccountNonFinalizedTransactions this (arg args 0) (arg args 1)"
| "safe_body this GetBlockTransactionEvents args = safe_getBlockTransactionEvents this (arg args 0) (arg args 1)"
| "safe_body this GetNextUpdateSequenceNumbers args = safe_getNextUpdateSequenceNumbers this"
| "safe_body this Shutdown args = safe_shutdown this"
| "safe_body this PeerConnect args = safe_peerConnect this (arg args 0) (arg args 1)"
| "safe_body this PeerDisconnect args = safe_peerDisconnect this (arg args 0) (arg args 1)"
| "safe_body this GetBannedPeers args = safe_getBannedPeers this"
| "safe_body this BanPeer args = safe_banPeer this (arg args 0)"
| "safe_body this UnbanPeer args = safe_unbanPeer this (arg args 0)"
| "safe_body this DumpStart args = safe_dumpStart this (arg args 0) (arg args 1)"
| "safe_body this DumpStop args = safe_dumpStop this"
| "safe_body this GetNodeInfo args = safe_getNodeInfo this"
| "safe_body this GetPeersInfo args = safe_getPeersInfo this"
| "safe_body this GetBlockSpecialEvents args = safe_getBlockSpecialEvents this (arg args 0) (arg args 1)"
| "safe_body this GetBlockPendingUpdates args = safe_getBlockPendingUpdates this (arg args 0) (arg args 1)"
| "safe_body this GetBlockFinalizationSummary args = safe_getBlockFinalizationSummary this"
| "safe_body this GetFinalizedBlocksFrom args = safe_getFinalizedBlocksFrom this (arg args 0) (arg args 1)"
| "safe_body this FindEarliestFinalized args = safe_findEarliestFinalized this (arg args 0) (arg args 1) (arg args 2)"
| "safe_body this FindInstanceCreation args = safe_findInstanceCreation this (arg args 0) (arg args 1) (arg args 2)"
| "safe_body this FindFirstFinalizedBlockNoLaterThan args = safe_findFirstFinalizedBlockNoLaterThan this (arg args 0) (arg args 1) (arg args 2)"

lemmas safe_methods =
  safe_getNextAccountNonce_def safe_getCryptographicParameters_def safe_getAccountInfo_def
  safe_getBlockItemStatus_def safe_getConsensusStatus_def safe_getModuleSource_def
  safe_getInstanceInfo_def safe_invokeContract_def safe_sendAccountTransaction_def
  safe_sendCredentialDeploymentTransaction_def safe_getBlockChainParameters_def
  safe_getPoolInfo_def safe_getPassiveDelegationInfo_def safe_getTokenomicsInfo_def
  safe_getFinalizedBlocks_def safe_getBlocks_def safe_waitForTransactionFinalization_def
  safe_getAccountList_def safe_getModuleList_def safe_getAncestors_def safe_getInstanceState_def
  safe_instanceStateLookup_def safe_getIdentityProviders_def safe_getAnonymityRevokers_def
  safe_getBlocksAtHeight_def safe_getBlockInfo_def safe_getBakerList_def
  safe_getPoolDelegators_def safe_getPoolDelegatorsRewardPeriod_def
  safe_getPassiveDelegators_def safe_getPassiveDelegatorsRewardPeriod_def safe_getBranches_def
  safe_getElectionInfo_def safe_getAccountNonFinalizedTransactions_def
  safe_getBlockTransactionEvents_def safe_getNextUpdateSequenceNumbers_def safe_shutdown_def
  safe_peerConnect_def safe_peerDisconnect_def safe_getBannedPeers_def safe_banPeer_def
  safe_unbanPeer_def safe_dumpStart_def safe_dumpStop_def safe_getNodeInfo_def
  safe_getPeersInfo_def safe_getBlockSpecialEvents_def safe_getBlockPendingUpdates_def
  safe_getBlockFinalizationSummary_def safe_getFinalizedBlocksFrom_def
  safe_findEarliestFinalized_def safe_findInstanceCreation_def
  safe_findFirstFinalizedBlockNoLaterThan_def

declare safe_methods [simp]

fun run_safe ::
  "nat \<Rightarrow> safe_client \<Rightarrow> safe_method \<Rightarrow> jsval list \<Rightarrow> js_error + (safe_method \<times> jsval list)"
where
  "run_safe 0 this m args = Inl (range_error ''Maximum call stack size exceeded'')"
| "run_safe (Suc d) this m args =
     (case safe_body this m args of
        Super m' args' \<Rightarrow> Inr (m', args')
      | CallSelf m' args' \<Rightarrow> run_safe d this m' args'
      | Throws e \<Rightarrow> Inl e)"

definition safe_call ::
  "nat \<Rightarrow> (safe_method \<Rightarrow> jsval list \<Rightarrow> ('s, jsval) io) \<Rightarrow> safe_client \<Rightarrow> safe_method \<Rightarrow>
   jsval list \<Rightarrow> ('s, jsval) io"
where
  "safe_call depth grpc this m args =
     bind_io (lift_io (run_safe depth this m args)) (\<lambda>(m', args'). grpc m' args')"

section \<open>Which block a request is about\<close>

text \<open>
  The position of the block hash among the parameters of the SDK's methods; \<open>None\<close> for those that do
  not take one.
\<close>

definition block_position :: "safe_method \<Rightarrow> nat option" where
  "block_position m =
     (if m \<in> {GetCryptographicParameters, GetBlockChainParameters, GetPassiveDelegationInfo,
               GetTokenomicsInfo, GetAccountList, GetModuleList, GetIdentityProviders, GetBlockInfo,
               GetBakerList, GetPassiveDelegators, GetPassiveDelegatorsRewardPeriod, GetElectionInfo,
               GetBlockTransactionEvents, GetNextUpdateSequenceNumbers, GetBlockSpecialEvents,
               GetBlockPendingUpdates, GetBlockFinalizationSummary}
      then Some 0
      else if m \<in> {GetAccountInfo, GetModuleSource, GetInstanceInfo, InvokeContract, GetPoolInfo,
                    GetAncestors, GetInstanceState, GetPoolDelegators, GetPoolDelegatorsRewardPeriod}
      then Some 1
      else if m = InstanceStateLookup then Some 2
      else None)"

definition pinned :: "safe_client \<Rightarrow> safe_method \<times> jsval list \<Rightarrow> bool" where
  "pinned this r =
     (case r of (m, args) \<Rightarrow>
        (case block_position m of
           Some p \<Rightarrow> p < length args \<and> args ! p = JStr (sc_blockHash this)
         | None \<Rightarrow> m = GetBlocksAtHeight \<and>
             (\<exists>h. num_int (sc_blockHeight this) = Some h \<and> args = [JBig h])))"

lemma num_to_bigint_Inr: "num_to_bigint x = Inr h \<longleftrightarrow> num_int x = Some h"
  by (simp add: num_to_bigint_def split: option.split)

lemma num_to_bigint_Inl: "num_to_bigint x = Inl e \<Longrightarrow> num_int x = None"
  by (simp add: num_to_bigint_def split: option.splits)

text \<open>One pass over the methods: what a body may do.\<close>

lemma safe_body_cases:
  "(case safe_body this m args of
      Super m' args' \<Rightarrow> m' = m \<and> pinned this (m, args')
    | CallSelf m' args' \<Rightarrow> m = GetAnonymityRevokers \<and> m' = m
    | Throws e \<Rightarrow> err_code e = None)"
  by (cases m) (simp_all add: pinned_def block_position_def not_supported_def num_to_bigint_Inr
      split: sum.split, simp add: num_to_bigint_def split: option.split)

lemma run_safe_pinned: "run_safe d this m args = Inr r \<Longrightarrow> fst r = m \<and> pinned this r"
proof (induction d arbitrary: args)
  case 0
  then show ?case by simp
next
  case (Suc d)
  then show ?case using safe_body_cases [where this = this and m = m and args = args] by (auto split: outcome.splits)
qed

lemma run_safe_no_code: "run_safe d this m args = Inl e \<Longrightarrow> err_code e = None"
proof (induction d arbitrary: args)
  case 0
  then show ?case by auto
next
  case (Suc d)
  then show ?case using safe_body_cases [where this = this and m = m and args = args] by (auto split: outcome.splits)
qed

lemma run_safe_depth: "m \<noteq> GetAnonymityRevokers \<Longrightarrow> run_safe (Suc d) this m args = run_safe 1 this m args"
  using safe_body_cases [where this = this and m = m and args = args] by (simp split: outcome.splits)

lemma run_safe_anonymity_revokers:
  "run_safe d this GetAnonymityRevokers args = Inl (range_error ''Maximum call stack size exceeded'')"
  by (induction d arbitrary: args) simp_all

section \<open>The contract of a pinned client\<close>

text \<open>
  What the retrying proxy relies on: a client either answers a call itself with an error that carries
  no code, or makes one request that is about its block.  Then every request that a call sends, whatever
  its arguments, is about the client's block.
\<close>

locale pinned_client =
  fixes resolve :: "'c \<Rightarrow> 'm \<Rightarrow> jsval list \<Rightarrow> js_error + 'r"
    and about_block :: "'c \<Rightarrow> 'r \<Rightarrow> bool"
  assumes resolve_about: "resolve c m args = Inr r \<Longrightarrow> about_block c r"
    and resolve_error: "resolve c m args = Inl e \<Longrightarrow> err_code e = None"
begin

text \<open>The call over a recording network: the log of requests is the state's second component.\<close>

definition traced :: "('r \<Rightarrow> ('s, jsval) io) \<Rightarrow> 'c \<Rightarrow> 'm \<Rightarrow> jsval list \<Rightarrow> ('s \<times> 'r list, jsval) io" where
  "traced send c m args =
     bind_io (lift_io (resolve c m args)) (\<lambda>r (s, log). case send r s of (v, s') \<Rightarrow> (v, (s', log @ [r])))"

lemma traced_log:
  assumes "\<forall>r \<in> set log. about_block c r"
  shows "\<forall>r \<in> set (snd (snd (traced send c m args (s, log)))). about_block c r"
  using assms resolve_about [of c m args]
  by (cases "resolve c m args") (auto simp: traced_def io_defs split: prod.split)

lemma traced_at_most_one: "length (snd (snd (traced send c m args (s, log)))) \<le> Suc (length log)"
  by (cases "resolve c m args") (auto simp: traced_def io_defs split: prod.split)

lemma traced_local_error:
  assumes "resolve c m args = Inl e"
  shows "traced send c m args (s, log) = (Inl e, (s, log))" and "err_code e = None"
  using assms resolve_error by (simp_all add: traced_def io_defs)

end

interpretation safe: pinned_client "run_safe d" pinned
  by unfold_locales (auto dest: run_safe_pinned run_safe_no_code)

section \<open>Properties\<close>

definition example_client :: safe_client where
  "example_client = \<lparr>sc_blockHeight = num_of_int 7, sc_blockHash = ''hash7''\<rparr>"

text \<open>
  Whatever a handler passes, a call of the safe client that reaches the node is a call of the same
  method whose block argument is the hash of the block being indexed; the query of blocks by height asks
  for the height of that block.
\<close>

theorem safe_request_pinned:
  assumes "run_safe depth this m args = Inr (m', args')"
  shows "m' = m \<and>
    (case block_position m of
       Some p \<Rightarrow> p < length args' \<and> args' ! p = JStr (sc_blockHash this)
     | None \<Rightarrow> m = GetBlocksAtHeight \<and> (\<exists>h. num_int (sc_blockHeight this) = Some h \<and> args' = [JBig h]))"
  using run_safe_pinned [OF assms] by (auto simp: pinned_def)

theorem safe_request_pinned_witness:
  "run_safe 3 example_client GetAccountInfo [JStr ''acc'', JStr ''other''] =
     Inr (GetAccountInfo, [JStr ''acc'', JStr ''hash7''])
   \<and> (1::nat) < length [JStr ''acc'', JStr ''hash7''] \<and> [JStr ''acc'', JStr ''hash7''] ! 1 = JStr ''hash7''"
proof -
  have run: "run_safe 3 example_client GetAccountInfo [JStr ''acc'', JStr ''other''] =
      Inr (GetAccountInfo, [JStr ''acc'', JStr ''hash7''])"
    by (simp add: numeral_3_eq_3 example_client_def arg_def)
  from safe_request_pinned [OF run] run show ?thesis
    by (simp add: block_position_def example_client_def)
qed

lemma arg_update_other: "i \<noteq> p \<Longrightarrow> arg (args[p := v]) i = arg args i"
  by (simp add: arg_def)

lemma safe_body_ignores_block_argument:
  "block_position m = Some p \<Longrightarrow> safe_body this m (args[p := v]) = safe_body this m args"
  by (cases m) (auto simp: block_position_def arg_update_other)

text \<open>
  A handler cannot choose another block: replacing what it passes in the block position changes
  nothing, neither the request nor the error.
\<close>

theorem safe_block_argument_ignored:
  assumes "block_position m = Some p"
  shows "run_safe depth this m (args[p := v]) = run_safe depth this m args"
proof (cases depth)
  case (Suc d)
  moreover have "m \<noteq> GetAnonymityRevokers"
    using assms by (auto simp: block_position_def)
  ultimately show ?thesis
    using safe_body_ignores_block_argument [OF assms] safe_body_cases [where m = m and this = this and args = args]
    by (auto split: outcome.splits)
qed simp

theorem safe_block_argument_ignored_witness:
  "run_safe 2 example_client GetInstanceState ([JStr ''c'', JUndef, JNull][1 := JStr ''other'']) =
   run_safe 2 example_client GetInstanceState [JStr ''c'', JUndef, JNull]"
  by (rule safe_block_argument_ignored) (simp add: block_position_def)

text \<open>
  C23: \<open>getAnonymityRevokers\<close> never reaches the node.  The method calls itself where its siblings call
  the SDK's, so the call exhausts every stack and ends in a \<open>RangeError\<close>, whatever the arguments.
\<close>

theorem getAnonymityRevokers_overflows:
  "safe_call depth grpc this GetAnonymityRevokers args =
     throw_io (range_error ''Maximum call stack size exceeded'')"
  by (rule ext) (simp add: safe_call_def run_safe_anonymity_revokers io_defs)

definition refused :: "safe_method \<Rightarrow> bool" where
  "refused m \<longleftrightarrow> block_position m = None \<and> m \<noteq> GetBlocksAtHeight \<and> m \<noteq> GetAnonymityRevokers"

text \<open>The method a refusal names: two messages name another one.\<close>

definition refusal_name :: "safe_method \<Rightarrow> string" where
  "refusal_name m =
     (if m = WaitForTransactionFinalization then ''getBlocks''
      else if m = GetPeersInfo then ''getPeerInfo'' else method_name m)"

lemma refused_body: "refused m \<Longrightarrow> safe_body this m args = Throws (not_supported (refusal_name m))"
  by (cases m) (simp_all add: refused_def refusal_name_def block_position_def)

text \<open>
  C24: a call that cannot be answered for one block (accounts' next nonce, sending transactions, node
  administration, unbounded streams, searches) is refused without a request; the error names the method,
  but for \<open>waitForTransactionFinalization\<close> and \<open>getPeersInfo\<close>, whose messages name others.
\<close>

theorem safe_refusal:
  assumes "refused m"
  shows "safe_call (Suc depth) grpc this m args =
    throw_io (plain_error (''Method `'' @ refusal_name m @ ''` not supported.''))"
  using refused_body [OF assms] by (intro ext) (simp add: safe_call_def io_defs not_supported_def)

theorem safe_refusal_witness:
  "safe_call (Suc 0) (\<lambda>m args. return_io JNull) example_client GetPeersInfo [] (0::nat) =
   (Inl (plain_error ''Method `getPeerInfo` not supported.''), 0)"
  by (subst safe_refusal) (simp_all add: refused_def block_position_def refusal_name_def io_defs)

end
