(* ===== verification/ApiService.thy ===== *)
theory ApiService
  imports SafeApi Async
begin

text \<open>
  The API service (packages/node/src/concordium/api.service.concordium.ts): the proxy it puts around a
  safe client, which repeats a failed call on a fresh client up to \<open>maxRetries\<close> times.  Its
  initialisation with the project's endpoints is in ServiceInit.

  A call through the proxy is an async function: it is suspended at every attempt, and other code runs
  meanwhile (Async).  \<open>run_proc\<close> of it is the call with nothing else under way; calls that overlap are in
  Concurrency.

  \<open>mk\<close> is \<open>this.unsafeApi.getSafeApi(height, hash)\<close>, which takes the current connection of the pool and
  may itself throw, and \<open>attempt api\<close> is \<open>originalMethod.apply(api, args)\<close>; both act on a world \<open>'s\<close>.
\<close>

section \<open>Retrying\<close>

definition maxRetries :: nat where
  "maxRetries = 5"

definition retryErrorCodes :: "string list" where
  "retryErrorCodes =
     [''UNKNOWN_ERROR'', ''NETWORK_ERROR'', ''SERVER_ERROR'', ''TIMEOUT'', ''BAD_DATA'', ''CANCELLED'']"

definition retryable :: "js_error \<Rightarrow> bool" where
  "retryable e = (case err_code e of Some c \<Rightarrow> c \<in> set retryErrorCodes | None \<Rightarrow> False)"

text \<open>\<open>throw throwingError\<close> with the variable still unset\<close>

definition thrown_undefined :: js_error where
  "thrown_undefined = JsError ''undefined'' '''' None"

text \<open>
  One turn of the loop begins with the pending attempt; what follows it up to the next attempt, the
  choice of another connection included, happens without an interruption.
\<close>

function retry_loop ::
  "('s, 'api) io \<Rightarrow> ('api \<Rightarrow> ('s, 'r) io) \<Rightarrow> nat \<Rightarrow> 'api \<Rightarrow> js_error option \<Rightarrow> ('s, 'r) proc"
where
  "retry_loop mk attempt retries currentApi throwingError =
     (if retries < maxRetries then
        Await (\<lambda>s. case attempt currentApi s of
            (Inr r, s') \<Rightarrow> (Done (Inr r), s')
          | (Inl e, s') \<Rightarrow>
              if \<not> retryable e then (Done (Inl e), s')
              else (case mk s' of
                      (Inl e', s'') \<Rightarrow> (Done (Inl e'), s'')
                    | (Inr api', s'') \<Rightarrow> (retry_loop mk attempt (Suc retries) api' (Some e), s'')))
      else Done (Inl (case throwingError of Some e \<Rightarrow> e | None \<Rightarrow> thrown_undefined)))"
  by pat_completeness auto
termination
  by (relation "measure (\<lambda>(mk, attempt, retries, _). maxRetries - retries)") auto

declare retry_loop.simps [simp del]

lemma run_retry_loop:
  "run_proc (retry_loop mk attempt retries currentApi throwingError) s =
     (if retries < maxRetries then
        (case attempt currentApi s of
           (Inr r, s') \<Rightarrow> (Inr r, s')
         | (Inl e, s') \<Rightarrow>
             if \<not> retryable e then (Inl e, s')
             else (case mk s' of
                     (Inl e', s'') \<Rightarrow> (Inl e', s'')
                   | (Inr api', s'') \<Rightarrow> run_proc (retry_loop mk attempt (Suc retries) api' (Some e)) s''))
      else (Inl (case throwingError of Some e \<Rightarrow> e | None \<Rightarrow> thrown_undefined), s))"
  by (subst retry_loop.simps) (simp split: prod.split sum.split)

definition proxied :: "('s, 'api) io \<Rightarrow> ('api \<Rightarrow> ('s, 'r) io) \<Rightarrow> 'api \<Rightarrow> ('s, 'r) proc" where
  "proxied mk attempt target = retry_loop mk attempt 0 target None"

section \<open>The proxy\<close>

text \<open>
  A member of the target: one of its own methods, one of its fields, or what it inherits from the
  SDK's client (\<open>inherited\<close>).  Functions are wrapped, other members are read through.
\<close>

datatype member = OwnMethod safe_method | InheritedMethod string | Value jsval

definition safe_methods :: "safe_method list" where
  "safe_methods =
     [GetNextAccountNonce, GetCryptographicParameters, GetAccountInfo, GetBlockItemStatus,
      GetConsensusStatus, GetModuleSource, GetInstanceInfo, InvokeContract, SendAccountTransaction,
      SendCredentialDeploymentTransaction, GetBlockChainParameters, GetPoolInfo,
      GetPassiveDelegationInfo, GetTokenomicsInfo, GetFinalizedBlocks, GetBlocks,
      WaitForTransactionFinalization, GetAccountList, GetModuleList, GetAncestors, GetInstanceState,
      InstanceStateLookup, GetIdentityProviders, GetAnonymityRevokers, GetBlocksAtHeight, GetBlockInfo,
      GetBakerList, GetPoolDelegators, GetPoolDelegatorsRewardPeriod, GetPassiveDelegators,
      GetPassiveDelegatorsRewardPeriod, GetBranches, GetElectionInfo,
      GetAccountNonFinalizedTransactions, GetBlockTransactionEvents, GetNextUpdateSequenceNumbers,
      Shutdown, PeerConnect, PeerDisconnect, GetBannedPeers, BanPeer, UnbanPeer, DumpStart, DumpStop,
      GetNodeInfo, GetPeersInfo, GetBlockSpecialEvents, GetBlockPendingUpdates,
      GetBlockFinalizationSummary, GetFinalizedBlocksFrom, FindEarliestFinalized, FindInstanceCreation,
      FindFirstFinalizedBlockNoLaterThan]"

definition safe_member :: "(string \<Rightarrow> jsval) \<Rightarrow> safe_client \<Rightarrow> string \<Rightarrow> member" where
  "safe_member inherited target prop =
     (case find (\<lambda>m. method_name m = prop) safe_methods of
        Some m \<Rightarrow> OwnMethod m
      | None \<Rightarrow>
          if prop = ''blockHeight'' then Value (JNum (sc_blockHeight target))
          else if prop = ''blockHash'' then Value (JStr (sc_blockHash target))
          else (case inherited prop of JFun f \<Rightarrow> InheritedMethod f | v \<Rightarrow> Value v))"

definition new_safe_client :: "jsnum \<Rightarrow> string \<Rightarrow> safe_client" where
  "new_safe_client height hash = \<lparr>sc_blockHeight = height, sc_blockHash = hash\<rparr>"

text \<open>
  \<open>pool\<close> is the pool's choice of a connection; on it \<open>getSafeApi\<close> builds a client for the block.
\<close>

definition make_client :: "('s, unit) io \<Rightarrow> jsnum \<Rightarrow> string \<Rightarrow> ('s, safe_client) io" where
  "make_client pool height hash = bind_io pool (\<lambda>_. return_io (new_safe_client height hash))"

text \<open>
  \<open>getSafeApi(height, hash)\<close>: the proxy, as what its methods do when they are called.  All calls of one
  proxy start from the client made with it.
\<close>

type_synonym 's safe_proxy = "safe_method \<Rightarrow> jsval list \<Rightarrow> ('s, jsval) proc"

definition getSafeApi ::
  "nat \<Rightarrow> (safe_method \<Rightarrow> jsval list \<Rightarrow> ('s, jsval) io) \<Rightarrow> ('s, unit) io \<Rightarrow> jsnum \<Rightarrow> string \<Rightarrow>
   ('s, 's safe_proxy) io"
where
  "getSafeApi depth grpc pool height hash =
     bind_io (make_client pool height hash) (\<lambda>target.
       return_io (\<lambda>m args.
         proxied (make_client pool height hash) (\<lambda>api. safe_call depth grpc api m args) target))"

text \<open>A single call \<open>proxy.m(args)\<close> through a proxy made for it\<close>

definition proxy_call ::
  "nat \<Rightarrow> (safe_method \<Rightarrow> jsval list \<Rightarrow> ('s, jsval) io) \<Rightarrow> ('s, unit) io \<Rightarrow> jsnum \<Rightarrow> string \<Rightarrow>
   safe_method \<Rightarrow> jsval list \<Rightarrow> ('s, jsval) io"
where
  "proxy_call depth grpc pool height hash m args =
     bind_io (getSafeApi depth grpc pool height hash) (\<lambda>proxy. run_proc (proxy m args))"

lemma proxy_call_eq:
  "proxy_call depth grpc pool height hash m args =
     bind_io (make_client pool height hash) (\<lambda>target.
       run_proc (proxied (make_client pool height hash) (\<lambda>api. safe_call depth grpc api m args) target))"
  by (simp add: proxy_call_def getSafeApi_def bind_io_assoc)

section \<open>Runs of the loop\<close>

text \<open>
  \<open>failed_attempts mk attempt n api s\<close> is the situation after \<open>n\<close> attempts that all failed with a
  retryable error, each followed by a fresh client: the client, the world and the prev error.
\<close>

fun failed_attempts ::
  "('s, 'api) io \<Rightarrow> ('api \<Rightarrow> ('s, 'r) io) \<Rightarrow> nat \<Rightarrow> 'api \<Rightarrow> js_error option \<Rightarrow> 's \<Rightarrow>
   ('api \<times> js_error option \<times> 's) option"
where
  "failed_attempts mk attempt 0 api prev s = Some (api, prev, s)"
| "failed_attempts mk attempt (Suc n) api prev s =
     (case attempt api s of
        (Inr _, _) \<Rightarrow> None
      | (Inl e, s') \<Rightarrow>
          if retryable e then
            (case mk s' of (Inl _, _) \<Rightarrow> None | (Inr api', s'') \<Rightarrow> failed_attempts mk attempt n api' (Some e) s'')
          else None)"

lemma retry_loop_skip:
  assumes "failed_attempts mk attempt n api prev s = Some (api', prev', s')"
    and "retries + n \<le> maxRetries"
  shows "run_proc (retry_loop mk attempt retries api prev) s = run_proc (retry_loop mk attempt (retries + n) api' prev') s'"
  using assms
proof (induction n arbitrary: api prev s retries)
  case 0
  then show ?case by simp
next
  case (Suc n)
  then show ?case
    by (subst run_retry_loop) (auto split: prod.splits sum.splits if_splits)
qed

lemma proxied_after_failures:
  assumes "failed_attempts mk attempt n target None s = Some (api, prev, s')" and "n \<le> maxRetries"
  shows "run_proc (proxied mk attempt target) s = run_proc (retry_loop mk attempt n api prev) s'"
  using retry_loop_skip [of mk attempt n target None s api prev s' 0] assms by (simp add: proxied_def)

lemma failed_attempts_prev:
  "failed_attempts mk attempt (Suc n) api prev s = Some (api', prev', s') \<Longrightarrow> prev' \<noteq> None"
  by (induction n arbitrary: api prev s) (auto split: prod.splits sum.splits if_splits)

text \<open>
  The runs of the loop as a relation: \<open>retry_run mk attempt retries api prev s k out\<close> when the loop,
  entered with \<open>retries\<close> retries behind it, makes \<open>k\<close> more attempts and ends in \<open>out\<close>.
\<close>

inductive retry_run ::
  "('s, 'api) io \<Rightarrow> ('api \<Rightarrow> ('s, 'r) io) \<Rightarrow> nat \<Rightarrow> 'api \<Rightarrow> js_error option \<Rightarrow> 's \<Rightarrow> nat \<Rightarrow>
   (js_error + 'r) \<times> 's \<Rightarrow> bool"
  for mk attempt
where
  run_success: "\<lbrakk> retries < maxRetries; attempt api s = (Inr r, s') \<rbrakk> \<Longrightarrow>
     retry_run mk attempt retries api prev s 1 (Inr r, s')"
| run_fatal: "\<lbrakk> retries < maxRetries; attempt api s = (Inl e, s'); \<not> retryable e \<rbrakk> \<Longrightarrow>
     retry_run mk attempt retries api prev s 1 (Inl e, s')"
| run_no_client: "\<lbrakk> retries < maxRetries; attempt api s = (Inl e, s'); retryable e; mk s' = (Inl e', s'') \<rbrakk> \<Longrightarrow>
     retry_run mk attempt retries api prev s 1 (Inl e', s'')"
| run_again: "\<lbrakk> retries < maxRetries; attempt api s = (Inl e, s'); retryable e; mk s' = (Inr api', s'');
     retry_run mk attempt (Suc retries) api' (Some e) s'' k out \<rbrakk> \<Longrightarrow>
     retry_run mk attempt retries api prev s (Suc k) out"
| run_exhausted: "\<not> retries < maxRetries \<Longrightarrow>
     retry_run mk attempt retries api prev s 0 (Inl (case prev of Some e \<Rightarrow> e | None \<Rightarrow> thrown_undefined), s)"

inductive_cases retry_run_againE: "retry_run mk attempt retries api prev s (Suc k) out"

lemma retry_loop_runs: "\<exists>k. retry_run mk attempt retries api prev s k (run_proc (retry_loop mk attempt retries api prev) s)"
proof (induction mk attempt retries api prev arbitrary: s rule: retry_loop.induct)
  case (1 mk attempt retries api prev s)
  note unf = run_retry_loop [of mk attempt retries api prev s]
  show ?case
  proof (cases "retries < maxRetries")
    case False
    with unf show ?thesis by (auto intro: run_exhausted)
  next
    case less: True
    obtain res s' where at: "attempt api s = (res, s')" by fastforce
    obtain made s'' where mk: "mk s' = (made, s'')" by fastforce
    show ?thesis
    proof (cases res; cases made)
      fix e api' assume res: "res = Inl e" "made = Inr api'"
      show ?thesis
      proof (cases "retryable e")
        case True
        then obtain k where
          "retry_run mk attempt (Suc retries) api' (Some e) s'' k (run_proc (retry_loop mk attempt (Suc retries) api' (Some e)) s'')"
          using "1.IH" [OF less at [symmetric] res(1) _ mk [symmetric] res(2)] by auto
        with less at mk res True unf show ?thesis by (auto intro: run_again)
      qed (use less at mk res unf in \<open>auto intro: run_fatal\<close>)
    qed (use less at mk unf in \<open>auto intro: run_success run_fatal run_no_client\<close>)
  qed
qed

lemma proxied_runs: "\<exists>k. retry_run mk attempt 0 target None s k (run_proc (proxied mk attempt target) s)"
  unfolding proxied_def by (rule retry_loop_runs)

lemma retry_run_bound: "retry_run mk attempt retries api prev s k out \<Longrightarrow> k \<le> maxRetries - retries"
  by (induction rule: retry_run.induct) auto

lemma retry_run_deterministic:
  "retry_run mk attempt retries api prev s k out \<Longrightarrow> out = run_proc (retry_loop mk attempt retries api prev) s"
  by (induction rule: retry_run.induct) (simp_all add: run_retry_loop)

text \<open>The thrown value is never the unset variable: some attempt is always made.\<close>

lemma retry_run_error:
  assumes "retry_run mk attempt retries api prev s k (Inl e, s')"
    and "prev \<noteq> None \<or> retries < maxRetries"
  shows "(\<exists>a t. fst (attempt a t) = Inl e) \<or> (\<exists>t. fst (mk t) = Inl e) \<or> prev = Some e"
  using assms
proof (induction retries api prev s k "(Inl e :: js_error + 'c, s')" rule: retry_run.induct)
  case (run_again retries api s e1 s1 api1 s2 k prev)
  then have "(\<exists>a t. fst (attempt a t) = Inl e) \<or> (\<exists>t. fst (mk t) = Inl e) \<or> Some e1 = Some e" by blast
  with run_again.hyps(2) show ?case by (metis fst_conv option.inject)
next
  case (run_no_client retries api s e1 s1 prev)
  then show ?case by (metis fst_conv)
qed (auto intro: exI dest: arg_cong [where f = fst])

section \<open>Invariants of the world\<close>

text \<open>
  What attempts and client creations keep of the world, the whole proxied call keeps: the contract of a
  loop over two effectful operations.
\<close>

locale world_invariant =
  fixes mk :: "('s, 'api) io"
    and attempt :: "'api \<Rightarrow> ('s, 'r) io"
    and good :: "'api \<Rightarrow> bool"
    and inv :: "'s \<Rightarrow> bool"
  assumes mk_inv: "inv s \<Longrightarrow> inv (snd (mk s))"
    and mk_good: "fst (mk s) = Inr api \<Longrightarrow> good api"
    and attempt_inv: "inv s \<Longrightarrow> good api \<Longrightarrow> inv (snd (attempt api s))"
begin

lemma retry_run_inv: "retry_run mk attempt retries api prev s k out \<Longrightarrow> inv s \<Longrightarrow> good api \<Longrightarrow> inv (snd out)"
proof (induction rule: retry_run.induct)
  case (run_success retries api s r s' prev)
  then show ?case using attempt_inv by fastforce
next
  case (run_fatal retries api s e s' prev)
  then show ?case using attempt_inv by fastforce
next
  case (run_no_client retries api s e s' e' s'' prev)
  then show ?case using attempt_inv mk_inv by (metis snd_conv)
next
  case (run_again retries api s e s' api' s'' k out prev)
  then show ?case using attempt_inv mk_inv mk_good by (metis fst_conv snd_conv)
qed simp

lemma proxied_inv: "inv s \<Longrightarrow> good api \<Longrightarrow> inv (snd (run_proc (proxied mk attempt api) s))"
  using retry_loop_runs retry_run_inv unfolding proxied_def by metis

lemma call_inv:
  assumes "inv s"
  shows "inv (snd (bind_io mk (\<lambda>api. run_proc (proxied mk attempt api)) s))"
proof (cases "mk s")
  case (Pair made s')
  with assms have "inv s'" using mk_inv by fastforce
  with Pair show ?thesis
    using proxied_inv mk_good [of s] by (cases made) (auto simp: bind_io_def)
qed

end

section \<open>Requests sent through the proxy\<close>

text \<open>
  The proxied call over a recording network (\<open>safe.traced\<close>): the pool does not touch the log.
\<close>

definition logging_pool :: "('s, unit) io \<Rightarrow> ('s \<times> 'l, unit) io" where
  "logging_pool pool = (\<lambda>(s, log). case pool s of (r, s') \<Rightarrow> (r, (s', log)))"

definition logging_grpc ::
  "(safe_method \<times> jsval list \<Rightarrow> ('s, jsval) io) \<Rightarrow> safe_method \<Rightarrow> jsval list \<Rightarrow>
   ('s \<times> (safe_method \<times> jsval list) list, jsval) io"
where
  "logging_grpc send m args = (\<lambda>(s, log). case send (m, args) s of (v, s') \<Rightarrow> (v, (s', log @ [(m, args)])))"

lemma traced_safe_call: "safe_call depth (logging_grpc send) api m args = safe.traced depth send api m args"
  by (rule ext) (auto simp: safe_call_def safe.traced_def logging_grpc_def io_defs split: sum.split prod.split)

lemma retry_run_measure:
  fixes f :: "'s \<Rightarrow> nat"
  assumes "\<And>api s. f (snd (attempt api s)) \<le> Suc (f s)" and "\<And>s. f (snd (mk s)) = f s"
  shows "retry_run mk attempt retries api prev s k out \<Longrightarrow> f (snd out) \<le> f s + k"
proof (induction rule: retry_run.induct)
  case (run_success retries api s r s' prev)
  then show ?case using assms(1) [of api s] by simp
next
  case (run_fatal retries api s e s' prev)
  then show ?case using assms(1) [of api s] by simp
next
  case (run_no_client retries api s e s' e' s'' prev)
  then show ?case using assms(1) [of api s] assms(2) [of s'] by simp
next
  case (run_again retries api s e s' api' s'' k out prev)
  then show ?case using assms(1) [of api s] assms(2) [of s'] by simp
qed simp

lemma make_client_cases:
  "make_client pool height hash s =
     (case pool s of (Inl e, s') \<Rightarrow> (Inl e, s') | (Inr _, s') \<Rightarrow> (Inr (new_safe_client height hash), s'))"
  by (simp add: make_client_def io_defs)

lemma logging_pool_log: "snd (snd (make_client (logging_pool pool) height hash s)) = snd s"
  by (auto simp: make_client_cases logging_pool_def split: prod.split sum.split)

interpretation safe_world: world_invariant
  "make_client (logging_pool pool) height hash" "\<lambda>api. safe_call depth (logging_grpc send) api m args"
  "\<lambda>api. api = new_safe_client height hash"
  "\<lambda>w. \<forall>r \<in> set (snd w). pinned (new_safe_client height hash) r"
proof (unfold_locales, goal_cases)
  case (1 s)
  then show ?case by (simp add: logging_pool_log)
next
  case (2 s api)
  then show ?case by (auto simp: make_client_cases split: prod.splits sum.splits)
next
  case (3 s api)
  then show ?case using safe.traced_log by (cases s) (simp add: traced_safe_call)
qed

lemma traced_attempt_length:
  "length (snd (snd (safe_call depth (logging_grpc send) api m args s))) \<le> Suc (length (snd s))"
  using safe.traced_at_most_one by (cases s) (simp add: traced_safe_call)

lemma logged_proxy_call_length:
  "length (snd (snd (proxy_call depth (logging_grpc send) (logging_pool pool) height hash m args (s, log)))) \<le> length log + maxRetries"
proof -
  obtain made w where Pair: "make_client (logging_pool pool) height hash (s, log) = (made, w)"
    by (metis surj_pair)
  have w: "snd w = log"
    using logging_pool_log [of pool height hash "(s, log)"] Pair by simp
  show ?thesis
  proof (cases made)
    case (Inl e)
    with Pair w show ?thesis by (simp add: proxy_call_eq bind_io_def)
  next
    case (Inr target)
    let ?mk = "make_client (logging_pool pool) height hash"
    let ?attempt = "\<lambda>api. safe_call depth (logging_grpc send) api m args"
    obtain k where run: "retry_run ?mk ?attempt 0 target None w k (run_proc (proxied ?mk ?attempt target) w)"
      using proxied_runs by (rule exE)
    have "length (snd (snd (run_proc (proxied ?mk ?attempt target) w))) \<le> length (snd w) + k"
      using retry_run_measure [where f = "\<lambda>w. length (snd w)", OF traced_attempt_length _ run]
      by (simp add: logging_pool_log)
    moreover have "k \<le> maxRetries" using retry_run_bound [OF run] by simp
    ultimately show ?thesis
      using Pair Inr w by (simp add: proxy_call_eq bind_io_def)
  qed
qed

lemma proxied_fatal:
  assumes "attempt target s = (Inl e, s')" and "\<not> retryable e"
  shows "run_proc (proxied mk attempt target) s = (Inl e, s')"
  using assms by (simp add: proxied_def run_retry_loop maxRetries_def)

lemma no_code_not_retryable: "err_code e = None \<Longrightarrow> \<not> retryable e"
  by (simp add: retryable_def)

section \<open>Properties\<close>


text \<open>
  C25: after fewer than five retryable failures, an attempt that succeeds gives the result of the call, and
  an attempt that fails for another reason gives its error; after five the error of the last attempt is
  thrown, never the unset variable.
\<close>

theorem proxied_outcome:
  assumes "failed_attempts mk attempt n target None s = Some (api, prev, s')"
  shows "(n < 5 \<and> attempt api s' = (Inr r, s'') \<longrightarrow> run_proc (proxied mk attempt target) s = (Inr r, s'')) \<and>
    (n < 5 \<and> attempt api s' = (Inl e, s'') \<and> \<not> retryable e \<longrightarrow> run_proc (proxied mk attempt target) s = (Inl e, s'')) \<and>
    (n = 5 \<longrightarrow> (\<exists>e'. prev = Some e' \<and> run_proc (proxied mk attempt target) s = (Inl e', s')))"
proof (cases "n = 5")
  case True
  with assms have "prev \<noteq> None"
    using failed_attempts_prev [of mk attempt 4 target None s] by (simp add: numeral_eq_Suc)
  with True assms show ?thesis
    using proxied_after_failures [OF assms] by (auto simp: maxRetries_def run_retry_loop)
next
  case False
  then show ?thesis
    using proxied_after_failures [OF assms] by (auto simp: maxRetries_def run_retry_loop)
qed

text \<open>A world for examples: the scripted outcomes of the attempts to come.\<close>

definition scripted :: "nat \<Rightarrow> ((js_error + nat) list, nat) io" where
  "scripted api = (\<lambda>s. case s of [] \<Rightarrow> (Inr 0, []) | r # rs \<Rightarrow> (r, rs))"

definition network_error :: js_error where
  "network_error = JsError ''Error'' ''down'' (Some ''NETWORK_ERROR'')"

lemma network_error_retryable [simp]: "retryable network_error"
  by (simp add: retryable_def network_error_def retryErrorCodes_def)

theorem proxied_outcome_witness:
  "run_proc (proxied (return_io 1) scripted 0) [Inl network_error, Inl network_error, Inr 9] = (Inr 9, [])
   \<and> run_proc (proxied (return_io 1) scripted 0) (replicate 6 (Inl network_error)) = (Inl network_error, [Inl network_error])"
proof
  have two: "failed_attempts (return_io 1) scripted 2 0 None [Inl network_error, Inl network_error, Inr 9] =
      Some (1, Some network_error, [Inr 9])"
    by (simp add: numeral_2_eq_2 scripted_def io_defs)
  show "run_proc (proxied (return_io 1) scripted 0) [Inl network_error, Inl network_error, Inr 9] = (Inr 9, [])"
    using proxied_outcome [OF two, of 9 "[]"] by (simp add: scripted_def)
  have five: "failed_attempts (return_io 1) scripted 5 0 None (replicate 6 (Inl network_error)) =
      Some (1, Some network_error, [Inl network_error])"
    by (simp add: numeral_eq_Suc scripted_def io_defs)
  show "run_proc (proxied (return_io 1) scripted 0) (replicate 6 (Inl network_error)) = (Inl network_error, [Inl network_error])"
    using proxied_outcome [OF five] by simp
qed

text \<open>
  However often a call through the proxy is repeated and on however many connections, every request
  it sends is pinned to the block the proxy was made for, and it sends at most five.
\<close>

theorem proxy_requests_pinned:
  "list_all (pinned (new_safe_client height hash)) (snd (snd (proxy_call depth (logging_grpc send) (logging_pool pool) height hash m args (s, []))))
   \<and> length (snd (snd (proxy_call depth (logging_grpc send) (logging_pool pool) height hash m args (s, [])))) \<le> 5"
proof
  show "list_all (pinned (new_safe_client height hash)) (snd (snd (proxy_call depth (logging_grpc send) (logging_pool pool) height hash m args (s, []))))"
    using safe_world.call_inv [of "(s, [])"] unfolding proxy_call_eq list_all_iff by simp
  show "length (snd (snd (proxy_call depth (logging_grpc send) (logging_pool pool) height hash m args (s, [])))) \<le> 5"
    using logged_proxy_call_length [of depth send pool height hash m args s "[]"] by (simp add: maxRetries_def)
qed

text \<open>
  A refused method and \<open>getAnonymityRevokers\<close> fail on the first attempt through the proxy as well:
  their errors carry no code, so nothing is repeated and the world is only touched by the pool.
\<close>

theorem proxy_local_errors_not_retried:
  assumes "pool s = (Inr (), s')"
    and "run_safe depth (new_safe_client height hash) m args = Inl e"
  shows "proxy_call depth grpc pool height hash m args s = (Inl e, s')"
proof -
  have "\<not> retryable e"
    by (rule no_code_not_retryable) (rule run_safe_no_code [OF assms(2)])
  moreover have "safe_call depth grpc (new_safe_client height hash) m args s' = (Inl e, s')"
    using assms(2) by (simp add: safe_call_def io_defs)
  ultimately have "run_proc (proxied mk (\<lambda>api. safe_call depth grpc api m args) (new_safe_client height hash)) s' = (Inl e, s')" for mk
    by (intro proxied_fatal)
  with assms(1) show ?thesis
    by (simp add: proxy_call_eq make_client_def bind_io_assoc) (simp add: io_defs)
qed

theorem proxy_local_errors_not_retried_witness:
  "proxy_call 9 (\<lambda>m args. return_io JNull) (return_io ()) (num_of_int 7) ''hash7'' GetConsensusStatus [] (0::nat) =
     (Inl (not_supported ''getConsensusStatus''), 0)
   \<and> proxy_call 9 (\<lambda>m args. return_io JNull) (return_io ()) (num_of_int 7) ''hash7'' GetAnonymityRevokers [] (0::nat) =
     (Inl (range_error ''Maximum call stack size exceeded''), 0)"
  by (intro conjI; rule proxy_local_errors_not_retried)
    (simp_all add: io_defs run_safe_anonymity_revokers, simp add: numeral_eq_Suc)

text \<open>
  A failure to obtain a fresh client between two attempts is not retried: the error of the pool is
  thrown after a single attempt.
\<close>

theorem proxied_pool_failure:
  assumes "attempt target s = (Inl e, s')" and "retryable e" and "mk s' = (Inl e', s'')"
  shows "run_proc (proxied mk attempt target) s = (Inl e', s'') \<and> retry_run mk attempt 0 target None s 1 (Inl e', s'')"
proof
  show "run_proc (proxied mk attempt target) s = (Inl e', s'')"
    using assms by (simp add: proxied_def run_retry_loop [of mk attempt 0] maxRetries_def)
  show "retry_run mk attempt 0 target None s 1 (Inl e', s'')"
    using assms by (intro run_no_client) (simp_all add: maxRetries_def)
qed

theorem proxied_pool_failure_witness:
  "run_proc (proxied (throw_io (plain_error ''No healthy endpoints'')) scripted 0) [Inl network_error, Inr 9] =
     (Inl (plain_error ''No healthy endpoints''), [Inr 9])"
  using proxied_pool_failure [of scripted 0 "[Inl network_error, Inr 9]" network_error "[Inr 9]"
      "throw_io (plain_error ''No healthy endpoints'')" "plain_error ''No healthy endpoints''" "[Inr 9]"]
  by (simp add: scripted_def io_defs)

end
