(* ===== verification/BlockFilter.thy ===== *)
theory BlockFilter
  imports ConcordiumTypes
begin

text \<open>
  The filters of packages/node/src/concordium/block.concordium.ts: which blocks, transactions and
  events a handler's filter lets through.  The block filter's timestamp test is
  \<open>filterBlockTimestamp\<close> of @subql/node-core, the argument \<open>ts_ok\<close>.  The event filter may throw: it
  reads properties of an event value without checking that the value is there, and converts the filter
  value with \<open>BigInt\<close> outside a \<open>try\<close>.
\<close>

section \<open>Block filter\<close>

definition modulo_rejects :: "concordium_block \<Rightarrow> jsnum nullable \<Rightarrow> bool" where
  "modulo_rejects block m =
     (case m of
        Given d \<Rightarrow> num_truthy d \<and>
          \<not> num_eq (num_rem (bigint_to_number (bi_blockHeight (b_info block))) d) (num_of_int 0)
      | _ \<Rightarrow> False)"

definition filterBlocksProcessor ::
  "(int \<Rightarrow> subql_filter nullable \<Rightarrow> bool) \<Rightarrow> concordium_block \<Rightarrow> subql_filter nullable \<Rightarrow> bool"
where
  "filterBlocksProcessor ts_ok block filt =
     (if (case filt of Given f \<Rightarrow> modulo_rejects block (f_modulo f) | _ \<Rightarrow> False) then False
      else if \<not> ts_ok (bi_blockReceiveTime (b_info block)) filt then False
      else True)"

section \<open>Transaction filter\<close>

fun tx_values_match :: "concordium_tx \<Rightarrow> filter_values \<Rightarrow> bool" where
  "tx_values_match tx [] = True"
| "tx_values_match tx ((key, v) # rest) =
     (if \<not> strict_eq (JStr v) (tx_get tx key) then False else tx_values_match tx rest)"

definition type_rejects :: "string nullable \<Rightarrow> jsval \<Rightarrow> bool" where
  "type_rejects t actual =
     (case t of Given s \<Rightarrow> s \<noteq> [] \<and> \<not> strict_eq actual (JStr s) | _ \<Rightarrow> False)"

definition filterTransactionsProcessor :: "concordium_tx \<Rightarrow> subql_filter nullable \<Rightarrow> bool" where
  "filterTransactionsProcessor tx filt =
     (case filt of
        Given f \<Rightarrow>
          if type_rejects (f_type f) (tx_get tx ''type'') then False
          else (case f_values f of Given vs \<Rightarrow> tx_values_match tx vs | _ \<Rightarrow> True)
      | _ \<Rightarrow> True)"

section \<open>Event filter\<close>

definition isAddressAccount :: "jsval \<Rightarrow> js_error + bool" where
  "isAddressAccount t = map_res (\<lambda>ty. strict_eq ty (JStr ''AddressAccount'')) (js_get t ''type'')"

definition equalsAddressAccount :: "jsval \<Rightarrow> string \<Rightarrow> js_error + bool" where
  "equalsAddressAccount t address =
     bind_res (isAddressAccount t) (\<lambda>b.
       if b then map_res (\<lambda>a. strict_eq a (JStr address)) (js_get t ''address'') else Inr False)"

definition isContractAddress :: "jsval \<Rightarrow> js_error + bool" where
  "isContractAddress t =
     bind_res (js_get t ''index'') (\<lambda>i.
       if is_bigint i then map_res is_bigint (js_get t ''subindex'') else Inr False)"

definition equalsContractAddress :: "jsval \<Rightarrow> string \<Rightarrow> js_error + bool" where
  "equalsContractAddress t index =
     bind_res (isContractAddress t) (\<lambda>b.
       if b then
         bind_res (js_get t ''index'') (\<lambda>i.
           map_res (\<lambda>n. strict_eq i (JBig n)) (BigInt_of_string index))
       else Inr False)"

definition isAddress :: "jsval \<Rightarrow> js_error + bool" where
  "isAddress t =
     bind_res (js_get t ''type'') (\<lambda>ty.
       if strict_eq ty (JStr ''AddressContract'') then Inr True else isAddressAccount t)"

definition equalsAddress :: "jsval \<Rightarrow> string \<Rightarrow> js_error + bool" where
  "equalsAddress t addressOrIndex =
     bind_res (isAddress t) (\<lambda>b.
       if \<not> b then Inr False
       else bind_res (equalsAddressAccount t addressOrIndex) (\<lambda>c.
         if c then Inr True
         else bind_res (js_get t ''address'') (\<lambda>a. equalsContractAddress a addressOrIndex)))"

definition equalsBigInt :: "jsval \<Rightarrow> string \<Rightarrow> bool" where
  "equalsBigInt a b = (case BigInt_of_string b of Inl e \<Rightarrow> False | Inr n \<Rightarrow> strict_eq a (JBig n))"

text \<open>
  The condition of the loop: \<open>Inr True\<close> when the value is accepted under this key, that is, when one
  of the conjuncts of the \<open>if\<close> fails; evaluated from left to right.
\<close>

definition event_value_matches :: "jsval \<Rightarrow> string \<Rightarrow> js_error + bool" where
  "event_value_matches eventValue filterValue =
     (if strict_eq (JStr filterValue) eventValue then Inr True
      else bind_res (equalsAddressAccount eventValue filterValue) (\<lambda>b1.
        if b1 then Inr True
        else bind_res (equalsContractAddress eventValue filterValue) (\<lambda>b2.
          if b2 then Inr True
          else bind_res (equalsAddress eventValue filterValue) (\<lambda>b3.
            if b3 then Inr True else Inr (equalsBigInt eventValue filterValue)))))"

fun event_values_match :: "jsval \<Rightarrow> filter_values \<Rightarrow> js_error + bool" where
  "event_values_match ev [] = Inr True"
| "event_values_match ev ((key, v) # rest) =
     bind_res (js_get ev key) (\<lambda>eventValue.
       bind_res (event_value_matches eventValue v) (\<lambda>b.
         if b then event_values_match ev rest else Inr False))"

definition filterTxEventProcessor :: "jsval \<Rightarrow> subql_filter nullable \<Rightarrow> js_error + bool" where
  "filterTxEventProcessor ev filt =
     (case filt of
        Given f \<Rightarrow>
          bind_res (if str_truthy (f_type f)
                    then map_res (type_rejects (f_type f)) (js_get ev ''tag'') else Inr False)
            (\<lambda>rejected.
              if rejected then Inr False
              else (case f_values f of Given vs \<Rightarrow> event_values_match ev vs | _ \<Rightarrow> Inr True))
      | _ \<Rightarrow> Inr True)"

section \<open>What the helpers compute\<close>

text \<open>
  \<open>account_of\<close>, \<open>contract_index\<close> and \<open>bigint_of\<close> read off what an event value can be matched by;
  \<open>matches_spec\<close> is the meaning of a filter value as the interface describes it.
\<close>

fun bag :: "jsval \<Rightarrow> props" where
  "bag (JObj _ ps) = ps"
| "bag _ = []"

definition field_of :: "jsval \<Rightarrow> string \<Rightarrow> jsval" where
  "field_of v k = (case v of JObj _ ps \<Rightarrow> obj_member ps k | _ \<Rightarrow> JUndef)"

definition account_of :: "jsval \<Rightarrow> string \<Rightarrow> bool" where
  "account_of v a \<longleftrightarrow> field_of v ''type'' = JStr ''AddressAccount'' \<and> field_of v ''address'' = JStr a"

definition contract_index :: "jsval \<Rightarrow> int option" where
  "contract_index v = (case (field_of v ''index'', field_of v ''subindex'') of
      (JBig i, JBig _) \<Rightarrow> Some i | _ \<Rightarrow> None)"

definition is_address_value :: "jsval \<Rightarrow> bool" where
  "is_address_value v \<longleftrightarrow>
     field_of v ''type'' = JStr ''AddressAccount'' \<or> field_of v ''type'' = JStr ''AddressContract''"

text \<open>The contract addresses a value denotes: its own, or the one in its \<open>address\<close> field.\<close>

definition contract_indices :: "jsval \<Rightarrow> int set" where
  "contract_indices v =
     set_option (contract_index v) \<union>
     (if is_address_value v then set_option (contract_index (field_of v ''address'')) else {})"

definition matches_spec :: "jsval \<Rightarrow> string \<Rightarrow> bool" where
  "matches_spec v s \<longleftrightarrow>
     v = JStr s \<or> account_of v s \<or>
     (\<exists>n. string_to_bigint s = Some n \<and> (n \<in> contract_indices v \<or> v = JBig n))"

text \<open>
  A value is readable when the code can read its properties; it denotes no contract when no bigint
  comparison with an index is reached.
\<close>

definition readable :: "jsval \<Rightarrow> bool" where
  "readable v \<longleftrightarrow> \<not> is_nullish_val v \<and> (is_address_value v \<longrightarrow> \<not> is_nullish_val (field_of v ''address''))"

lemma js_get_field: "\<not> is_nullish_val v \<Longrightarrow> js_get v k = Inr (field_of v k)"
  by (cases v) (simp_all add: field_of_def)

lemma isAddressAccount_eq:
  "\<not> is_nullish_val v \<Longrightarrow>
   isAddressAccount v = Inr (field_of v ''type'' = JStr ''AddressAccount'')"
  by (simp add: isAddressAccount_def js_get_field)

lemma equalsAddressAccount_eq: "\<not> is_nullish_val v \<Longrightarrow> equalsAddressAccount v s = Inr (account_of v s)"
  by (simp add: equalsAddressAccount_def isAddressAccount_eq js_get_field account_of_def)

lemma isContractAddress_eq:
  "\<not> is_nullish_val v \<Longrightarrow> isContractAddress v = Inr (contract_index v \<noteq> None)"
  by (simp add: isContractAddress_def js_get_field contract_index_def split: jsval.split)

lemma equalsContractAddress_eq:
  assumes "\<not> is_nullish_val v"
  shows "equalsContractAddress v s =
     (case contract_index v of None \<Rightarrow> Inr False
      | Some i \<Rightarrow> map_res (\<lambda>n. i = n) (BigInt_of_string s))"
proof (cases "contract_index v")
  case None
  with assms show ?thesis by (simp add: equalsContractAddress_def isContractAddress_eq)
next
  case (Some i)
  then have "field_of v ''index'' = JBig i"
    by (simp add: contract_index_def split: jsval.splits)
  with Some assms show ?thesis
    by (simp add: equalsContractAddress_def isContractAddress_eq js_get_field)
qed

lemma isAddress_eq: "\<not> is_nullish_val v \<Longrightarrow> isAddress v = Inr (is_address_value v)"
  by (auto simp: isAddress_def js_get_field isAddressAccount_eq is_address_value_def)

lemma equalsAddress_eq:
  assumes "readable v"
  shows "equalsAddress v s =
     (if \<not> is_address_value v then Inr False
      else if account_of v s then Inr True
      else (case contract_index (field_of v ''address'') of None \<Rightarrow> Inr False
            | Some i \<Rightarrow> map_res (\<lambda>n. i = n) (BigInt_of_string s)))"
  using assms
  by (simp add: readable_def equalsAddress_def isAddress_eq equalsAddressAccount_eq js_get_field
      equalsContractAddress_eq)

lemma BigInt_of_string_Some: "string_to_bigint s = Some n \<Longrightarrow> BigInt_of_string s = Inr n"
  by (simp add: BigInt_of_string_def)

lemma BigInt_of_string_None: "string_to_bigint s = None \<Longrightarrow> \<exists>m. BigInt_of_string s = Inl (syntax_error m)"
  by (auto simp: BigInt_of_string_def)

lemma equalsBigInt_eq: "equalsBigInt v s \<longleftrightarrow> (\<exists>n. string_to_bigint s = Some n \<and> v = JBig n)"
  by (auto simp: equalsBigInt_def BigInt_of_string_def split: option.splits)

text \<open>
  On a readable value the code decides the specification whenever the filter value is an integer
  literal or the value denotes no contract; otherwise it rejects with a \<open>SyntaxError\<close>.
\<close>

lemma contract_indices_empty:
  "contract_indices v = {} \<longleftrightarrow>
   contract_index v = None \<and> (is_address_value v \<longrightarrow> contract_index (field_of v ''address'') = None)"
  by (auto simp: contract_indices_def)

lemma contract_value_not_bigint: "contract_indices v \<noteq> {} \<Longrightarrow> v \<noteq> JBig n"
  by (auto simp: contract_indices_def contract_index_def is_address_value_def field_of_def)

lemma event_value_matches_eq:
  assumes "readable v"
  shows "event_value_matches v s =
    (if v = JStr s \<or> account_of v s then Inr True
     else if contract_indices v = {} then Inr (equalsBigInt v s)
     else map_res (\<lambda>n. n \<in> contract_indices v) (BigInt_of_string s))"
proof -
  have v: "\<not> is_nullish_val v" using assms by (simp add: readable_def)
  note eqs = event_value_matches_def equalsAddressAccount_eq [OF v] equalsContractAddress_eq [OF v]
    equalsAddress_eq [OF assms]
  show ?thesis
  proof (cases "v = JStr s \<or> account_of v s")
    case True
    then show ?thesis by (auto simp: eqs)
  next
    case no: False
    show ?thesis
    proof (cases "contract_indices v = {}")
      case True
      with no show ?thesis by (auto simp: eqs contract_indices_empty)
    next
      case False
      then have "\<not> equalsBigInt v s"
        using contract_value_not_bigint by (auto simp: equalsBigInt_eq)
      with no False show ?thesis
        by (cases "contract_index v"; cases "contract_index (field_of v ''address'')";
            cases "BigInt_of_string s"; cases "is_address_value v")
          (simp_all add: eqs contract_indices_def)
    qed
  qed
qed

lemma event_value_matches_literal:
  assumes "readable v" and n: "string_to_bigint s = Some n"
  shows "event_value_matches v s = Inr (matches_spec v s)"
  using n contract_value_not_bigint [of v n]
  by (cases "contract_indices v = {}")
    (simp_all add: event_value_matches_eq [OF assms(1)] BigInt_of_string_Some equalsBigInt_eq matches_spec_def)

lemma event_value_matches_no_contract:
  assumes "readable v" and "contract_indices v = {}"
  shows "event_value_matches v s = Inr (matches_spec v s)"
  using assms by (simp add: event_value_matches_eq equalsBigInt_eq matches_spec_def)

lemma event_value_matches_throws:
  assumes "readable v" and "contract_indices v \<noteq> {}" and "string_to_bigint s = None"
    and "v \<noteq> JStr s" and "\<not> account_of v s"
  shows "\<exists>m. event_value_matches v s = Inl (syntax_error m)"
  using assms BigInt_of_string_None [OF assms(3)] by (auto simp: event_value_matches_eq)

lemma event_value_matches_nullish:
  "is_nullish_val v \<Longrightarrow> \<exists>m. event_value_matches v s = Inl (type_error m)"
  by (cases v) (simp_all add: event_value_matches_def equalsAddressAccount_def isAddressAccount_def)

section \<open>The loops over the values\<close>

lemma tx_values_match_iff: "tx_values_match tx vs \<longleftrightarrow> (\<forall>(k, s) \<in> set vs. tx_get tx k = JStr s)"
  by (induction vs rule: tx_values_match.induct) auto

lemma event_values_match_iff:
  assumes "\<And>k s. (k, s) \<in> set vs \<Longrightarrow>
    \<exists>v. js_get ev k = Inr v \<and> event_value_matches v s = Inr (matches_spec v s)"
  shows "event_values_match ev vs =
    Inr (\<forall>(k, s) \<in> set vs. \<exists>v. js_get ev k = Inr v \<and> matches_spec v s)"
  using assms
proof (induction ev vs rule: event_values_match.induct)
  case (1 ev)
  show ?case by simp
next
  case (2 ev key s rest)
  from "2.prems" [of key s] obtain v where v: "js_get ev key = Inr v"
    and m: "event_value_matches v s = Inr (matches_spec v s)" by auto
  show ?case
  proof (cases "matches_spec v s")
    case True
    with 2 v m show ?thesis by simp
  next
    case False
    with v m show ?thesis by simp
  qed
qed

lemma event_values_match_rejects_in_order:
  assumes "event_values_match ev pre = Inr True" and "js_get ev k = Inr v"
    and "event_value_matches v s = r"
  shows "event_values_match ev (pre @ (k, s) # post) =
    bind_res r (\<lambda>b. if b then event_values_match ev post else Inr False)"
  using assms by (induction ev pre rule: event_values_match.induct) (auto split: if_splits)

section \<open>Filters as predicates on data\<close>

text \<open>
  What the indexer relies on in a filter: a handler without a filter sees all data, and a filter that
  only names a type is decided by the type alone.
\<close>

locale data_filter =
  fixes accept :: "'d \<Rightarrow> subql_filter nullable \<Rightarrow> js_error + bool"
    and type_tag :: "'d \<Rightarrow> jsval"
  assumes accept_no_filter: "nullish nf \<Longrightarrow> accept d nf = Inr True"
    and accept_type: "\<lbrakk> f_type f = Given t; t \<noteq> []; nullish (f_values f) \<rbrakk> \<Longrightarrow>
      accept d (Given f) = Inr (type_tag d = JStr t)"
    and accept_untyped: "\<lbrakk> \<not> str_truthy (f_type f); nullish (f_values f) \<rbrakk> \<Longrightarrow>
      accept d (Given f) = Inr True"
    and accept_typed: "accept d (Given f) = Inr True \<Longrightarrow> f_type f = Given t \<Longrightarrow> t \<noteq> [] \<Longrightarrow>
      type_tag d = JStr t"
begin

lemma accept_empty_filter: "accept d (Given no_filter_fields) = Inr True"
  by (rule accept_untyped) (simp_all add: no_filter_fields_def)

lemma accepted_same_type:
  assumes "accept d (Given f) = Inr True" "accept d' (Given f) = Inr True"
    and "str_truthy (f_type f)"
  shows "type_tag d = type_tag d'"
proof -
  from assms(3) obtain t where "f_type f = Given t" "t \<noteq> []" by (cases "f_type f") auto
  with assms(1,2) accept_typed show ?thesis by metis
qed

lemma accept_type_partition:
  assumes "f_type f = Given t" "f_type g = Given u" "t \<noteq> []" "u \<noteq> []" "t \<noteq> u"
    and "accept d (Given f) = Inr True"
  shows "accept d (Given g) \<noteq> Inr True"
  using assms accept_typed by (metis jsval.inject(4))

end

lemma nullish_cases: "nullish x \<Longrightarrow> (case x of Given y \<Rightarrow> P y | _ \<Rightarrow> Q) = Q"
  by (cases x) auto

interpretation tx_filter: data_filter "\<lambda>tx f. Inr (filterTransactionsProcessor tx f)" "\<lambda>tx. tx_get tx ''type''"
proof (unfold_locales, goal_cases)
  case (3 f d)
  then show ?case
    by (auto simp: filterTransactionsProcessor_def type_rejects_def nullish_cases split: nullable.split)
qed (auto simp: filterTransactionsProcessor_def type_rejects_def nullish_cases split: if_splits)

definition event_tag :: "jsval \<Rightarrow> jsval" where
  "event_tag ev = field_of ev ''tag''"

interpretation tx_event_filter: data_filter
  "\<lambda>ev. filterTxEventProcessor (te_js ev)" "\<lambda>ev. event_tag (te_js ev)"
proof (unfold_locales, goal_cases)
  case (2 f t d)
  then show ?case
    by (cases d) (auto simp: filterTxEventProcessor_def type_rejects_def nullish_cases event_tag_def field_of_def)
next
  case (4 d f t)
  then show ?case
    by (cases d) (auto simp: filterTxEventProcessor_def type_rejects_def event_tag_def field_of_def split: if_splits)
qed (auto simp: filterTxEventProcessor_def nullish_cases)

interpretation special_event_filter: data_filter
  "\<lambda>ev. filterTxEventProcessor (se_js ev)" "\<lambda>ev. event_tag (se_js ev)"
proof (unfold_locales, goal_cases)
  case (2 f t d)
  then show ?case
    by (cases d) (auto simp: filterTxEventProcessor_def type_rejects_def nullish_cases event_tag_def field_of_def)
next
  case (4 d f t)
  then show ?case
    by (cases d) (auto simp: filterTxEventProcessor_def type_rejects_def event_tag_def field_of_def split: if_splits)
qed (auto simp: filterTxEventProcessor_def nullish_cases)

section \<open>Properties\<close>

lemma type_rejects_iff:
  "type_rejects t v \<longleftrightarrow> (case t of Given s \<Rightarrow> s \<noteq> [] \<and> v \<noteq> JStr s | _ \<Rightarrow> False)"
  by (auto simp: type_rejects_def split: nullable.split)

lemma event_values_match_append:
  "event_values_match ev pre = Inr True \<Longrightarrow> event_values_match ev (pre @ post) = event_values_match ev post"
  by (induction ev pre rule: event_values_match.induct) (auto split: if_splits)

lemma filterTxEventProcessor_values:
  assumes "js_get ev ''tag'' = Inr tag"
  shows "filterTxEventProcessor ev (Given f) =
    (if type_rejects (f_type f) tag then Inr False
     else (case f_values f of Given vs \<Rightarrow> event_values_match ev vs | _ \<Rightarrow> Inr True))"
  using assms by (cases "f_type f") (auto simp: filterTxEventProcessor_def type_rejects_def)

definition example_update_event :: concordium_tx_event where
  "example_update_event = ConcordiumTxEvent
     [(''tag'', JStr ''Updated''), (''contractVersion'', JNum (num_of_int 1)),
      (''address'', JObj 1 [(''index'', JBig 6536), (''subindex'', JBig 0)]),
      (''instigator'', JObj 2 [(''type'', JStr ''AddressAccount''), (''address'', JStr ''4AuT5RRm'')]),
      (''amount'', JBig 0), (''events'', JArr 3 [])]
     0 None (ConcordiumTx [] None)"

definition example_contract_event :: concordium_tx_event where
  "example_contract_event = ConcordiumTxEvent
     [(''tag'', JStr ''Updated''),
      (''instigator'', JObj 2 [(''type'', JStr ''AddressContract''),
         (''address'', JObj 3 [(''index'', JBig 12), (''subindex'', JBig 0)])])]
     0 None (ConcordiumTx [] None)"

definition example_tx :: concordium_tx where
  "example_tx = ConcordiumTx
     [(''hash'', JStr ''574289''), (''type'', JStr ''accountTransaction''), (''sender'', JStr ''4AuT''),
      (''cost'', JBig 14685685)] None"

lemmas example_events = example_update_event_def example_contract_event_def

lemma string_to_bigint_examples:
  "string_to_bigint ''6536'' = Some 6536" "string_to_bigint ''0'' = Some 0"
  "string_to_bigint ''4AuT5RRm'' = None"
  by code_simp+

text \<open>
  C1: on an event whose filtered values can be read (every filtered key is there, and a key whose value
  is a contract address is filtered by an integer literal), the event filter returns, and it returns
  whether the tag is the filter's type and every filtered value matches: the same string, the account of
  an account address, the index of a contract address, or the same bigint.
\<close>

theorem filterTxEventProcessor_decides:
  assumes "js_get ev ''tag'' = Inr tag"
    and "f_values f = Given vs"
    and "\<forall>(k, s) \<in> set vs. \<exists>v. js_get ev k = Inr v \<and> readable v \<and>
           (string_to_bigint s \<noteq> None \<or> contract_indices v = {})"
  shows "filterTxEventProcessor ev (Given f) =
    Inr (\<not> type_rejects (f_type f) tag \<and> (\<forall>(k, s) \<in> set vs. \<exists>v. js_get ev k = Inr v \<and> matches_spec v s))"
proof -
  have "event_values_match ev vs = Inr (\<forall>(k, s) \<in> set vs. \<exists>v. js_get ev k = Inr v \<and> matches_spec v s)"
  proof (rule event_values_match_iff)
    fix k s assume "(k, s) \<in> set vs"
    with assms(3) obtain v where v: "js_get ev k = Inr v" "readable v"
      "string_to_bigint s \<noteq> None \<or> contract_indices v = {}" by blast
    then have "event_value_matches v s = Inr (matches_spec v s)"
      using event_value_matches_literal event_value_matches_no_contract by blast
    with v(1) show "\<exists>v. js_get ev k = Inr v \<and> event_value_matches v s = Inr (matches_spec v s)" by blast
  qed
  with assms(1,2) show ?thesis by (simp add: filterTxEventProcessor_values)
qed

theorem filterTxEventProcessor_decides_witness:
  "filterTxEventProcessor (te_js example_update_event)
     (Given (no_filter_fields\<lparr>f_type := Given ''Updated'',
        f_values := Given [(''instigator'', ''4AuT5RRm''), (''address'', ''6536''), (''amount'', ''0'')]\<rparr>)) = Inr True"
  by (subst filterTxEventProcessor_decides [where tag = "JStr ''Updated''"
        and vs = "[(''instigator'', ''4AuT5RRm''), (''address'', ''6536''), (''amount'', ''0'')]"])
    (simp_all add: example_events obj_member_def type_rejects_def string_to_bigint_examples
      readable_def is_address_value_def field_of_def proto_member_def contract_indices_def
      contract_index_def matches_spec_def account_of_def no_filter_fields_def object_prototype_methods_def)

text \<open>
  C19: an event filter that names a key the event does not have does not reject the event: unless an
  earlier condition has rejected it, the filter throws a \<open>TypeError\<close>, because the address tests read
  \<open>type\<close> of \<open>undefined\<close>.
\<close>

theorem filterTxEventProcessor_missing_key_throws:
  assumes "js_get ev ''tag'' = Inr tag" and "\<not> type_rejects (f_type f) tag"
    and "f_values f = Given (pre @ (k, s) # post)"
    and "event_values_match ev pre = Inr True"
    and "js_get ev k = Inr JUndef"
  shows "\<exists>m. filterTxEventProcessor ev (Given f) = Inl (type_error m)"
proof -
  obtain m where "event_value_matches JUndef s = Inl (type_error m)"
    using event_value_matches_nullish [of JUndef s] by auto
  with assms show ?thesis
    by (simp add: filterTxEventProcessor_values event_values_match_append)
qed

theorem filterTxEventProcessor_missing_key_throws_witness:
  "\<exists>m. filterTxEventProcessor (te_js example_update_event)
     (Given (no_filter_fields\<lparr>f_values := Given [(''amount'', ''0''), (''sender'', ''4AuT5RRm'')]\<rparr>))
     = Inl (type_error m)"
  by (rule filterTxEventProcessor_missing_key_throws [where pre = "[(''amount'', ''0'')]" and post = "[]"
        and k = "''sender''" and s = "''4AuT5RRm''" and tag = "JStr ''Updated''"])
    (simp_all add: example_events obj_member_def type_rejects_def no_filter_fields_def proto_member_def
      object_prototype_methods_def event_value_matches_literal string_to_bigint_examples readable_def
      matches_spec_def is_address_value_def field_of_def)

text \<open>
  C20: filtering a contract address, or an address that turns out to be a contract's, by a string that is no
  integer literal, such as the account address the interface allows there, throws a \<open>SyntaxError\<close>
  instead of rejecting the event: \<open>BigInt\<close> is called outside the \<open>try\<close> of \<open>equalsBigInt\<close>.
\<close>

theorem filterTxEventProcessor_contract_throws:
  assumes "js_get ev ''tag'' = Inr tag" and "\<not> type_rejects (f_type f) tag"
    and "f_values f = Given (pre @ (k, s) # post)"
    and "event_values_match ev pre = Inr True"
    and "js_get ev k = Inr v" and "readable v" and "contract_indices v \<noteq> {}"
    and "string_to_bigint s = None" and "\<not> account_of v s" and "v \<noteq> JStr s"
  shows "\<exists>m. filterTxEventProcessor ev (Given f) = Inl (syntax_error m)"
proof -
  obtain m where "event_value_matches v s = Inl (syntax_error m)"
    using event_value_matches_throws assms(6-10) by blast
  with assms(1-5) show ?thesis
    by (simp add: filterTxEventProcessor_values event_values_match_append)
qed

theorem filterTxEventProcessor_contract_throws_witness:
  "\<exists>m. filterTxEventProcessor (te_js example_contract_event)
     (Given (no_filter_fields\<lparr>f_type := Given ''Updated'', f_values := Given [(''instigator'', ''4AuT5RRm'')]\<rparr>))
     = Inl (syntax_error m)"
  by (rule filterTxEventProcessor_contract_throws [where pre = "[]" and post = "[]" and k = "''instigator''"
        and s = "''4AuT5RRm''" and tag = "JStr ''Updated''"
        and v = "JObj 2 [(''type'', JStr ''AddressContract''),
          (''address'', JObj 3 [(''index'', JBig 12), (''subindex'', JBig 0)])]"])
    (simp_all add: example_events obj_member_def type_rejects_def no_filter_fields_def proto_member_def
      string_to_bigint_examples readable_def is_address_value_def field_of_def contract_indices_def
      contract_index_def account_of_def object_prototype_methods_def)

text \<open>
  C21: the transaction filter accepts a transaction exactly when there is no filter, or its type is the
  filter's (when the filter names one) and every filtered field of the transaction is the very string the
  filter gives; it never throws.
\<close>

theorem filterTransactionsProcessor_spec:
  "filterTransactionsProcessor tx filt =
     (case filt of
        Given f \<Rightarrow>
          (case f_type f of Given t \<Rightarrow> t = [] \<or> tx_get tx ''type'' = JStr t | _ \<Rightarrow> True) \<and>
          (case f_values f of Given vs \<Rightarrow> list_all (\<lambda>(k, s). tx_get tx k = JStr s) vs | _ \<Rightarrow> True)
      | _ \<Rightarrow> True)"
  by (auto simp: filterTransactionsProcessor_def type_rejects_iff tx_values_match_iff list_all_iff
      split: nullable.split)

text \<open>
  C22: a block filter with an integer modulus accepts a block when the modulus is zero or divides the double
  that the height becomes, and the timestamp test accepts it.  That double is the height itself up to
  \<open>2 ^ 53\<close>, off by at most one part in \<open>2 ^ 53\<close> above, and infinite, with no multiples, from about
  \<open>2 ^ 1024\<close> on.
\<close>

theorem filterBlocksProcessor_modulo:
  assumes "f_modulo f = Given (num_of_int m)"
  shows "let h = bi_blockHeight (b_info block); n = signed_round h
    in (filterBlocksProcessor ts_ok block (Given f) \<longleftrightarrow>
          ts_ok (bi_blockReceiveTime (b_info block)) (Given f) \<and> (m = 0 \<or> \<bar>n\<bar> < 2 ^ 1024 \<and> m dvd n)) \<and>
       \<bar>n - h\<bar> * 2 ^ 53 \<le> \<bar>h\<bar> \<and> (\<bar>h\<bar> \<le> 2 ^ 53 \<longrightarrow> n = h)"
proof -
  let ?h = "bi_blockHeight (b_info block)"
  let ?n = "signed_round ?h"
  have dvd: "sgn ?n * (\<bar>?n\<bar> mod \<bar>m\<bar>) = 0 \<longleftrightarrow> m dvd ?n"
    by (auto simp: sgn_0_0 dvd_eq_mod_eq_0 [symmetric])
  have "modulo_rejects block (f_modulo f) \<longleftrightarrow> \<not> (m = 0 \<or> \<bar>?n\<bar> < 2 ^ 1024 \<and> m dvd ?n)"
  proof (cases "2 ^ 1024 \<le> \<bar>?n\<bar>")
    case True
    then show ?thesis by (simp add: assms modulo_rejects_def bigint_to_number_def del: power_numeral)
  next
    case False
    then show ?thesis
      using dvd by (simp add: assms modulo_rejects_def bigint_to_number_def num_rem_int not_le
          del: num_rem.simps num_eq.simps power_numeral)
  qed
  then have "filterBlocksProcessor ts_ok block (Given f) \<longleftrightarrow>
      ts_ok (bi_blockReceiveTime (b_info block)) (Given f) \<and> (m = 0 \<or> \<bar>?n\<bar> < 2 ^ 1024 \<and> m dvd ?n)"
    by (auto simp: filterBlocksProcessor_def)
  then show ?thesis
    using signed_round_error [of ?h] signed_round_exact [of ?h] by (simp only: Let_def) blast
qed

definition example_block :: "int \<Rightarrow> concordium_block" where
  "example_block h = ConcordiumBlock
     \<lparr>bi_blockHeight = h, bi_blockHash = ''h1'', bi_blockParent = ''h0'', bi_blockReceiveTime = 0, bi_rest = []\<rparr>
     JUndef [] (Given []) []"

lemma signed_round_above: "signed_round (2 ^ 53 + 1) = 2 ^ 53"
proof -
  have "bit_len (2 ^ 53 + 1) = 54" by (simp add: bit_len.simps)
  then show ?thesis by (simp add: signed_round_def round_sig_def Let_def)
qed

text \<open>The first odd height above \<open>2 ^ 53\<close> passes a filter for even ones.\<close>

theorem filterBlocksProcessor_modulo_witness:
  "filterBlocksProcessor (\<lambda>_ _. True) (example_block 10) (Given (no_filter_fields\<lparr>f_modulo := Given (num_of_int 2)\<rparr>))
   \<and> \<not> filterBlocksProcessor (\<lambda>_ _. True) (example_block 11) (Given (no_filter_fields\<lparr>f_modulo := Given (num_of_int 2)\<rparr>))
   \<and> filterBlocksProcessor (\<lambda>_ _. True) (example_block (2 ^ 53 + 1)) (Given (no_filter_fields\<lparr>f_modulo := Given (num_of_int 2)\<rparr>))"
proof -
  let ?f = "no_filter_fields\<lparr>f_modulo := Given (num_of_int 2)\<rparr>"
  have f: "f_modulo ?f = Given (num_of_int 2)" by simp
  have h: "bi_blockHeight (b_info (example_block n)) = n" for n by (simp add: example_block_def)
  have big: "\<bar>(2::int) ^ 53\<bar> < 2 ^ 1024" "\<bar>10::int\<bar> < 2 ^ 1024" by (rule less_le_trans [of _ "2 ^ 54"]; simp)+
  show ?thesis
    using filterBlocksProcessor_modulo [OF f, of "example_block 10" "\<lambda>_ _. True"]
      filterBlocksProcessor_modulo [OF f, of "example_block 11" "\<lambda>_ _. True"]
      filterBlocksProcessor_modulo [OF f, of "example_block (2 ^ 53 + 1)" "\<lambda>_ _. True"]
    unfolding Let_def h signed_round_above using big by (simp add: signed_round_exact)
qed

end
