(* ===== verification/Indexer.thy ===== *)
theory Indexer
  imports BlockFilter ApiService ConcordiumApi
begin

text \<open>
  The indexer manager (packages/node/src/indexer/indexer.manager.ts): the order in which a block, its
  transactions, their events and the special events are handed to the datasources, the filters and
  processor predicates by handler kind, and the API the handlers of a block are given.

  \<open>indexData\<close> and \<open>internalIndexBlock\<close> are inherited from \<open>BaseIndexerManager\<close> of @subql/node-core
  and are arguments here, over any world \<open>'s\<close>; \<open>getVM\<close> is passed on to the first untouched.
  What an indexer does to a block is read off as a schedule of calls of \<open>indexData\<close>.
\<close>

section \<open>Inputs of the handlers\<close>

datatype input =
  BlockInput concordium_block
| TransactionInput concordium_tx
| TransactionEventInput concordium_tx_event
| SpecialEventInput concordium_special_event

primrec input_kind :: "input \<Rightarrow> ConcordiumHandlerKind" where
  "input_kind (BlockInput _) = BlockKind"
| "input_kind (TransactionInput _) = TransactionKind"
| "input_kind (TransactionEventInput _) = TransactionEventKind"
| "input_kind (SpecialEventInput _) = SpecialEventKind"

type_synonym ('vm, 's) index_data =
  "ConcordiumHandlerKind \<Rightarrow> input \<Rightarrow> subql_datasource \<Rightarrow> 'vm \<Rightarrow> ('s, unit) io"

section \<open>Filters and processors by kind\<close>

record filter_type_map =
  ftm_block :: "concordium_block \<Rightarrow> subql_filter nullable \<Rightarrow> subql_datasource \<Rightarrow> js_error + bool"
  ftm_specialEvent :: "concordium_special_event \<Rightarrow> subql_filter nullable \<Rightarrow> subql_datasource \<Rightarrow> js_error + bool"
  ftm_transactionEvent :: "concordium_tx_event \<Rightarrow> subql_filter nullable \<Rightarrow> subql_datasource \<Rightarrow> js_error + bool"
  ftm_transaction :: "concordium_tx \<Rightarrow> subql_filter nullable \<Rightarrow> subql_datasource \<Rightarrow> js_error + bool"

definition FilterTypeMap :: "(int \<Rightarrow> subql_filter nullable \<Rightarrow> bool) \<Rightarrow> filter_type_map" where
  "FilterTypeMap ts_ok =
     \<lparr>ftm_block = (\<lambda>data filt ds. Inr (filterBlocksProcessor ts_ok data filt)),
      ftm_specialEvent = (\<lambda>data filt ds. filterTxEventProcessor (se_js data) filt),
      ftm_transactionEvent = (\<lambda>data filt ds. filterTxEventProcessor (te_js data) filt),
      ftm_transaction = (\<lambda>data filt ds. Inr (filterTransactionsProcessor data filt))\<rparr>"

text \<open>\<open>FilterTypeMap[kind](data, filter, ds)\<close>, where \<open>data\<close> is of that kind\<close>

primrec filter_input ::
  "filter_type_map \<Rightarrow> input \<Rightarrow> subql_filter nullable \<Rightarrow> subql_datasource \<Rightarrow> js_error + bool"
where
  "filter_input m (BlockInput b) = ftm_block m b"
| "filter_input m (TransactionInput t) = ftm_transaction m t"
| "filter_input m (TransactionEventInput e) = ftm_transactionEvent m e"
| "filter_input m (SpecialEventInput e) = ftm_specialEvent m e"

primrec ProcessorTypeMap :: "ConcordiumHandlerKind \<Rightarrow> string \<Rightarrow> bool" where
  "ProcessorTypeMap BlockKind = isBlockHandlerProcessor"
| "ProcessorTypeMap TransactionKind = isTransactionHandlerProcessor"
| "ProcessorTypeMap TransactionEventKind = isTransactionEventHandlerProcessor"
| "ProcessorTypeMap SpecialEventKind = isSpecialEventHandlerProcessor"

text \<open>The guards tell the processors apart: each accepts the processors of its own kind and no others.\<close>

lemma ProcessorTypeMap_processor:
  "ProcessorTypeMap k (kind_string (baseHandlerKind p)) \<longleftrightarrow> baseHandlerKind p = k"
  by (cases k; cases "baseHandlerKind p")
    (simp_all add: isBlockHandlerProcessor_def isTransactionHandlerProcessor_def
      isTransactionEventHandlerProcessor_def isSpecialEventHandlerProcessor_def)

section \<open>The manager\<close>

definition indexer_start :: "('s, unit) io \<Rightarrow> ('s, unit) io" where
  "indexer_start projectService_init = bind_io projectService_init (\<lambda>_. return_io ())"

definition getBlockHeight :: "concordium_block \<Rightarrow> jsnum" where
  "getBlockHeight block = bigint_to_number (bi_blockHeight (b_info block))"

definition getBlockHash :: "concordium_block \<Rightarrow> string" where
  "getBlockHash block = bi_blockHash (b_info block)"

definition getApi ::
  "nat \<Rightarrow> (safe_method \<Rightarrow> jsval list \<Rightarrow> ('s, jsval) io) \<Rightarrow> ('s, unit) io \<Rightarrow> concordium_block \<Rightarrow> ('s, 's safe_proxy) io"
where
  "getApi depth grpc pool block =
     getSafeApi depth grpc pool (bigint_to_number (bi_blockHeight (b_info block))) (bi_blockHash (b_info block))"

definition indexBlock ::
  "(iblock \<Rightarrow> subql_datasource list \<Rightarrow> ('s, 's safe_proxy) io \<Rightarrow> ('s, 'r) io) \<Rightarrow> nat \<Rightarrow>
   (safe_method \<Rightarrow> jsval list \<Rightarrow> ('s, jsval) io) \<Rightarrow> ('s, unit) io \<Rightarrow> iblock \<Rightarrow> subql_datasource list \<Rightarrow> ('s, 'r) io"
where
  "indexBlock internalIndexBlock depth grpc pool block dataSources =
     internalIndexBlock block dataSources (getApi depth grpc pool (ib_block block))"

definition prepareFilteredData :: "ConcordiumHandlerKind \<Rightarrow> 'd \<Rightarrow> subql_datasource \<Rightarrow> ('s, 'd) io" where
  "prepareFilteredData kind data ds = return_io data"

section \<open>Indexing a block\<close>

definition indexBlockContent ::
  "('vm, 's) index_data \<Rightarrow> concordium_block \<Rightarrow> subql_datasource list \<Rightarrow> 'vm \<Rightarrow> ('s, unit) io"
where
  "indexBlockContent indexData block dataSources getVM =
     for_each (\<lambda>ds. indexData BlockKind (BlockInput block) ds getVM) dataSources"

definition indexTransaction ::
  "('vm, 's) index_data \<Rightarrow> concordium_tx \<Rightarrow> subql_datasource list \<Rightarrow> 'vm \<Rightarrow> ('s, unit) io"
where
  "indexTransaction indexData tx dataSources getVM =
     for_each (\<lambda>ds. indexData TransactionKind (TransactionInput tx) ds getVM) dataSources"

definition indexSpecialEvent ::
  "('vm, 's) index_data \<Rightarrow> concordium_special_event \<Rightarrow> subql_datasource list \<Rightarrow> 'vm \<Rightarrow> ('s, unit) io"
where
  "indexSpecialEvent indexData event dataSources getVM =
     for_each (\<lambda>ds. indexData SpecialEventKind (SpecialEventInput event) ds getVM) dataSources"

definition indexTransactionEvent ::
  "('vm, 's) index_data \<Rightarrow> concordium_tx_event \<Rightarrow> subql_datasource list \<Rightarrow> 'vm \<Rightarrow> ('s, unit) io"
where
  "indexTransactionEvent indexData event dataSources getVM =
     for_each (\<lambda>ds. indexData TransactionEventKind (TransactionEventInput event) ds getVM) dataSources"

text \<open>\<open>block.transactionEvents?.filter((evt) => evt.transaction.hash === tx.hash) ?? []\<close>\<close>

definition events_of_tx :: "concordium_block \<Rightarrow> concordium_tx \<Rightarrow> concordium_tx_event list" where
  "events_of_tx block tx =
     (case b_transactionEvents block of
        Given evts \<Rightarrow> filter (\<lambda>evt. strict_eq (tx_hash (te_transaction evt)) (tx_hash tx)) evts
      | _ \<Rightarrow> [])"

definition indexBlockData ::
  "('vm, 's) index_data \<Rightarrow> concordium_block \<Rightarrow> subql_datasource list \<Rightarrow> 'vm \<Rightarrow> ('s, unit) io"
where
  "indexBlockData indexData block dataSources getVM =
     bind_io (indexBlockContent indexData block dataSources getVM) (\<lambda>_.
     bind_io (for_each (\<lambda>tx.
         bind_io (indexTransaction indexData tx dataSources getVM) (\<lambda>_.
         for_each (\<lambda>event. indexTransactionEvent indexData event dataSources getVM) (events_of_tx block tx)))
       (b_transactions block)) (\<lambda>_.
     for_each (\<lambda>event. indexSpecialEvent indexData event dataSources getVM) (b_specialEvents block)))"

section \<open>The schedule\<close>

text \<open>
  The abstract specification: the inputs of a block in the order they are indexed.  The indexer hands
  each of them to every datasource, in the order of the datasources, before it goes on to the next.
\<close>

definition schedule :: "concordium_block \<Rightarrow> input list" where
  "schedule block =
     BlockInput block
     # concat (map (\<lambda>tx. TransactionInput tx # map TransactionEventInput (events_of_tx block tx)) (b_transactions block))
     @ map SpecialEventInput (b_specialEvents block)"

definition index_input :: "('vm, 's) index_data \<Rightarrow> 'vm \<Rightarrow> input \<times> subql_datasource \<Rightarrow> ('s, unit) io" where
  "index_input indexData getVM = (\<lambda>(i, ds). indexData (input_kind i) i ds getVM)"

lemmas index_ops = indexBlockContent_def indexTransaction_def indexTransactionEvent_def indexSpecialEvent_def

lemma index_op_product:
  "indexBlockContent f b dss vm = for_each (index_input f vm) (map (Pair (BlockInput b)) dss)"
  "indexTransaction f t dss vm = for_each (index_input f vm) (map (Pair (TransactionInput t)) dss)"
  "indexTransactionEvent f e dss vm = for_each (index_input f vm) (map (Pair (TransactionEventInput e)) dss)"
  "indexSpecialEvent f s dss vm = for_each (index_input f vm) (map (Pair (SpecialEventInput s)) dss)"
  by (simp_all add: index_ops for_each_map index_input_def)

lemma product_concat: "List.product (concat xss) ys = concat (map (\<lambda>xs. List.product xs ys) xss)"
  by (induction xss) (simp_all add: product_concat_map)

lemma product_map: "List.product (map f xs) ys = concat (map (\<lambda>x. map (Pair (f x)) ys) xs)"
  by (simp add: product_concat_map comp_def)

lemma indexBlockData_product:
  "indexBlockData f block dss vm = for_each (index_input f vm) (List.product (schedule block) dss)"
proof -
  have txs: "for_each (\<lambda>tx. bind_io (indexTransaction f tx dss vm)
        (\<lambda>_. for_each (\<lambda>e. indexTransactionEvent f e dss vm) (events_of_tx block tx))) txs
      = for_each (index_input f vm)
          (List.product (concat (map (\<lambda>tx. TransactionInput tx # map TransactionEventInput (events_of_tx block tx)) txs)) dss)"
    for txs
    by (induction txs)
      (simp_all add: index_op_product for_each_concat for_each_append product_concat_map comp_def bind_io_assoc)
  have specials: "for_each (\<lambda>e. indexSpecialEvent f e dss vm) ses
      = for_each (index_input f vm) (List.product (map SpecialEventInput ses) dss)" for ses
    by (simp add: index_op_product for_each_concat product_map)
  show ?thesis
    unfolding indexBlockData_def txs specials
    by (simp add: schedule_def index_op_product for_each_append product_concat_map)
qed

lemma indexBlockData_inputs:
  "indexBlockData f block dss vm =
     for_each (\<lambda>i. for_each (\<lambda>ds. f (input_kind i) i ds vm) dss) (schedule block)"
proof -
  have "for_each (\<lambda>ds. f (input_kind i) i ds vm) dss = for_each (index_input f vm) (map (Pair i) dss)" for i
    by (simp add: for_each_map index_input_def)
  then show ?thesis by (simp add: indexBlockData_product for_each_concat product_concat_map)
qed

section \<open>Events and their transactions\<close>

lemma filter_concat_owner:
  assumes "list_all2 (\<lambda>t es. \<forall>e \<in> set es. owner e = key t) ts ess" and "distinct (map key ts)"
  shows "list_all2 (\<lambda>t es. filter (\<lambda>e. owner e = key t) (concat ess) = es) ts ess"
  using assms
proof (induction ts ess rule: list_all2_induct)
  case (Cons t ts es ess)
  have owners: "\<exists>t' \<in> set ts. owner e = key t'" if "e \<in> set (concat ess)" for e
    using Cons.hyps(2) that unfolding list_all2_conv_all_nth by (metis UN_E in_set_conv_nth set_concat)
  have off: "filter (\<lambda>e. owner e = key t) (concat ess) = []"
  proof (rule filter_False, intro ballI notI)
    fix e assume "e \<in> set (concat ess)" "owner e = key t"
    then obtain t' where "t' \<in> set ts" "key t = key t'" using owners by force
    with Cons.prems show False by (metis distinct.simps(2) image_eqI list.map(2) list.set_map)
  qed
  have same: "filter (\<lambda>e. owner e = key t) es = es" using Cons.hyps(1) by simp
  have other: "filter (\<lambda>e. owner e = key t') es = []" if "t' \<in> set ts" for t'
    using Cons.hyps(1) Cons.prems that by (auto simp: filter_empty_conv)
  have "list_all2 (\<lambda>t' es'. filter (\<lambda>e. owner e = key t') (es @ concat ess) = es') ts ess"
    using Cons.IH Cons.prems other by (simp add: list_all2_conv_all_nth)
  with off same show ?case by simp
qed simp

definition hash_string :: "concordium_tx \<Rightarrow> string" where
  "hash_string t = (case tx_hash t of JStr s \<Rightarrow> s | _ \<Rightarrow> [])"

definition hashed :: "concordium_tx \<Rightarrow> bool" where
  "hashed t \<longleftrightarrow> tx_hash t = JStr (hash_string t)"

lemma strict_eq_hashed: "hashed a \<Longrightarrow> hashed b \<Longrightarrow> strict_eq (tx_hash a) (tx_hash b) \<longleftrightarrow> hash_string a = hash_string b"
  by (simp add: hashed_def)

lemma events_of_tx_hashed:
  assumes "b_transactionEvents block = Given evts" and "hashed tx" and "\<forall>e \<in> set evts. hashed (te_transaction e)"
  shows "events_of_tx block tx = filter (\<lambda>e. hash_string (te_transaction e) = hash_string tx) evts"
  using assms by (auto simp: events_of_tx_def strict_eq_hashed intro!: filter_cong)

lemma tx_hash_own: "tx_hash (ConcordiumTx ps b) = obj_member ps ''hash''"
  by (simp add: tx_hash_def tx_get_own)

lemma tx_hash_set_block [simp]: "tx_hash (set_tx_block b t) = tx_hash t"
  by (simp add: tx_hash_def tx_get_set_block)

text \<open>
  Each transaction is followed by exactly its own events, in the order of their numbers, and every event of
  the block is in the schedule once.
\<close>

definition own_events_schedule :: "concordium_block \<Rightarrow> bool" where
  "own_events_schedule b \<longleftrightarrow> (\<exists>evss. b_transactionEvents b = Given (concat evss) \<and>
    list_all2 (\<lambda>t evs. map te_id evs = [0..<length evs] \<and> (\<forall>e \<in> set evs. te_transaction e = unlinked_tx t))
      (b_transactions b) evss \<and>
    schedule b = BlockInput b
      # concat (map2 (\<lambda>t evs. TransactionInput t # map TransactionEventInput evs) (b_transactions b) evss)
      @ map SpecialEventInput (b_specialEvents b))"

definition well_hashed :: "concordium_block \<Rightarrow> bool" where
  "well_hashed b \<longleftrightarrow> distinct (map hash_string (b_transactions b)) \<and> list_all hashed (b_transactions b)"

lemma well_hashedI:
  assumes "distinct (map tx_hash (b_transactions b))" and "list_all (\<lambda>t. \<exists>s. tx_hash t = JStr s) (b_transactions b)"
  shows "well_hashed b"
proof -
  have hashed: "hashed t" if "t \<in> set (b_transactions b)" for t
    using assms(2) that by (auto simp: list_all_iff hashed_def hash_string_def)
  then have "map tx_hash (b_transactions b) = map JStr (map hash_string (b_transactions b))"
    by (simp add: hashed_def)
  with assms(1) have "distinct (map hash_string (b_transactions b))" by (simp only: distinct_map)
  with hashed show ?thesis by (simp add: well_hashed_def list_all_iff)
qed

lemma tx_hash_unlinked [simp]: "tx_hash (unlinked_tx t) = tx_hash t"
  by (cases t) (simp add: unlinked_tx_def tx_hash_own)

lemma link_block_schedule:
  assumes "lodash_ok lo" and "link_block sdk lo info fin (map (\<lambda>tx. ConcordiumTx tx None) ptxs) ses = Inr b"
    and "well_hashed b"
  shows "own_events_schedule b"
proof -
  let ?txs = "map (\<lambda>tx. ConcordiumTx tx None) ptxs"
  have hashes: "distinct (map hash_string (b_transactions b))" "\<forall>t \<in> set (b_transactions b). hashed t"
    using assms(3) by (simp_all add: well_hashed_def list_all_iff)
  from link_block_Inr [OF assms(1,2)] obtain evss0 where tr: "traverse (wrapTransactionEvents sdk) ?txs = Inr evss0"
    and b0: "b = (let clone = ConcordiumBlock info fin ?txs (Given (concat evss0)) ses
       in ConcordiumBlock info fin (map (set_tx_block clone) ?txs)
            (Given (map (set_te_block clone) (concat evss0))) (map (set_se_block clone) ses))"
    by blast
  define clone where "clone = ConcordiumBlock info fin ?txs (Given (concat evss0)) ses"
  from b0 have b: "b = ConcordiumBlock info fin (map (set_tx_block clone) ?txs)
       (Given (map (set_te_block clone) (concat evss0))) (map (set_se_block clone) ses)"
    unfolding Let_def clone_def .
  define txs where "txs = b_transactions b"
  define evss where "evss = map (map (set_te_block clone)) evss0"
  have events: "b_transactionEvents b = Given (concat evss)" by (simp add: b evss_def map_concat)
  have owned: "list_all2 (\<lambda>t evs. map te_id evs = [0..<length evs] \<and>
      (\<forall>e \<in> set evs. te_transaction e = unlinked_tx t)) txs evss"
    using list_all2_traverse_shape [OF tr]
    by (auto simp: txs_def b evss_def list_all2_conv_all_nth comp_def unlinked_tx_def)
  then have keys: "list_all2 (\<lambda>t evs. \<forall>e \<in> set evs. hash_string (te_transaction e) = hash_string t) txs evss"
    by (rule list_all2_mono) (auto simp: hash_string_def)
  have "\<exists>t \<in> set txs. tx_hash (te_transaction e) = tx_hash t" if "e \<in> set (concat evss)" for e
    using owned that unfolding list_all2_conv_all_nth by (metis UN_E in_set_conv_nth set_concat tx_hash_unlinked)
  then have hashed_owner: "\<forall>e \<in> set (concat evss). hashed (te_transaction e)"
    using hashes(2) unfolding txs_def hashed_def hash_string_def by metis
  have "list_all2 (\<lambda>t evs. events_of_tx b t = evs) txs evss"
    using filter_concat_owner [OF keys] hashes events_of_tx_hashed [OF events _ hashed_owner]
    by (auto simp: list_all2_conv_all_nth txs_def)
  then have "map (\<lambda>tx. TransactionInput tx # map TransactionEventInput (events_of_tx b tx)) txs =
      map2 (\<lambda>t evs. TransactionInput t # map TransactionEventInput evs) txs evss"
    by (induction txs evss rule: list_all2_induct) auto
  with events owned show ?thesis
    unfolding own_events_schedule_def by (intro exI [of _ evss]) (simp add: schedule_def txs_def)
qed

section \<open>Handlers at work\<close>

text \<open>
  What a handler that awaits its calls one by one does with its API: any program of calls, each chosen
  from the outcomes of the earlier ones, failures included.  Calls that overlap are in Concurrency.
\<close>

datatype script = Finished | CallApi safe_method "jsval list" "js_error + jsval \<Rightarrow> script"

primrec run_script :: "script \<Rightarrow> 's safe_proxy \<Rightarrow> ('s, unit) io" where
  "run_script Finished proxy = return_io ()"
| "run_script (CallApi m args k) proxy = (\<lambda>s. case map_prod (\<lambda>r. run_script (k r) proxy) id (run_proc (proxy m args) s) of (g, s') \<Rightarrow> g s')"

lemma run_script_inv:
  assumes "\<And>m args s. P s \<Longrightarrow> P (snd (run_proc (proxy m args) s))" and "P s"
  shows "P (snd (run_script c proxy s))"
  using assms(2)
proof (induction c arbitrary: s)
  case (CallApi m args k)
  obtain r s' where call: "run_proc (proxy m args) s = (r, s')" by fastforce
  with assms(1) [OF CallApi.prems] have "P s'" by (metis snd_conv)
  with CallApi.IH [of "k r" s'] call show ?case by simp
qed (simp add: return_io_def)

definition block_client :: "concordium_block \<Rightarrow> safe_client" where
  "block_client b = new_safe_client (getBlockHeight b) (getBlockHash b)"

lemma getApi_eq: "getApi depth grpc pool b =
    getSafeApi depth grpc pool (sc_blockHeight (block_client b)) (sc_blockHash (block_client b))"
  by (simp add: getApi_def block_client_def new_safe_client_def getBlockHeight_def getBlockHash_def)

lemma script_requests_pinned:
  "\<forall>r \<in> set (snd (snd (bind_io (getSafeApi depth (logging_grpc send) (logging_pool pool) height hash) (run_script c) (s, [])))).
     pinned (new_safe_client height hash) r"
proof -
  let ?w0 = "(s, [] :: (safe_method \<times> jsval list) list)"
  obtain made w where Pair: "make_client (logging_pool pool) height hash ?w0 = (made, w)"
    by (metis surj_pair)
  have w: "snd w = []" using logging_pool_log [of pool height hash ?w0] Pair by simp
  show ?thesis
  proof (cases made)
    case (Inl e)
    with Pair w show ?thesis by (simp add: getSafeApi_def bind_io_assoc) (simp add: bind_io_def)
  next
    case (Inr target)
    then have target: "target = new_safe_client height hash"
      using Pair by (auto simp: make_client_cases split: prod.splits sum.splits)
    have "\<forall>r \<in> set (snd (snd (run_script c (\<lambda>m args. proxied (make_client (logging_pool pool) height hash)
        (\<lambda>api. safe_call depth (logging_grpc send) api m args) target) w))). pinned (new_safe_client height hash) r"
    proof (rule run_script_inv)
      fix m args and w' :: "'a \<times> (safe_method \<times> jsval list) list"
      assume "\<forall>r \<in> set (snd w'). pinned (new_safe_client height hash) r"
      then show "\<forall>r \<in> set (snd (snd (run_proc (proxied (make_client (logging_pool pool) height hash)
          (\<lambda>api. safe_call depth (logging_grpc send) api m args) target) w'))). pinned (new_safe_client height hash) r"
        using target by (rule safe_world.proxied_inv)
    qed (simp add: w)
    then show ?thesis by (simp add: getSafeApi_def bind_io_assoc) (simp add: bind_io_def Pair Inr)
  qed
qed

section \<open>Properties\<close>

text \<open>
  C14: indexing a block is exactly: hand each input of its schedule, the block first, then each
  transaction followed by its events, then the special events, to every datasource in turn.
\<close>

theorem indexBlockData_schedule:
  "indexBlockData f block dss vm =
     for_each (\<lambda>i. for_each (\<lambda>ds. f (input_kind i) i ds vm) dss) (schedule block)"
  by (rule indexBlockData_inputs)

text \<open>
  C13: the first handler that throws ends the indexing of the block: nothing after it in the schedule is
  indexed, by no datasource, and what the earlier calls did stays done.
\<close>

theorem indexBlockData_stops:
  assumes "List.product (schedule block) dss = pre @ (i, ds) # post"
    and "\<And>j d s. (j, d) \<in> set pre \<Longrightarrow> f (input_kind j) j d vm s = (Inr (), h (j, d) s)"
    and "f (input_kind i) i ds vm (fold h pre s) = (Inl e, s')"
  shows "indexBlockData f block dss vm s = (Inl e, s')"
  unfolding indexBlockData_product assms(1)
  by (rule for_each_stops [where h = h]) (use assms(2,3) in \<open>auto simp: index_input_def\<close>)

definition example_datasource :: subql_datasource where
  "example_datasource = \<lparr>ds_name = Undefined, ds_kind = runtime_kind, ds_startBlock = Given 1,
     ds_mapping = \<lparr>m_file = ''./dist/index.js'', m_handlers = []\<rparr>, ds_assets = Undefined, ds_processor = Undefined\<rparr>"

definition example_special_block :: concordium_block where
  "example_special_block = ConcordiumBlock example_info JNull [] Undefined
     [ConcordiumSpecialEvent [] 0 None, ConcordiumSpecialEvent [] 1 None]"

theorem indexBlockData_stops_witness:
  "indexBlockData (\<lambda>k i ds vm n. if k = BlockKind then (Inr (), Suc n) else (Inl (plain_error ''failed''), n))
     example_special_block [example_datasource] () 0 = (Inl (plain_error ''failed''), 1)"
  by (rule indexBlockData_stops [where i = "SpecialEventInput (ConcordiumSpecialEvent [] 0 None)"
        and ds = example_datasource and pre = "[(BlockInput example_special_block, example_datasource)]"
        and post = "[(SpecialEventInput (ConcordiumSpecialEvent [] 1 None), example_datasource)]" and h = "\<lambda>_. Suc"])
    (simp_all add: schedule_def example_special_block_def)

lemma example_schedule_block:
  "\<exists>b e1 e2. block_at example_sdk example_lodash example_chain 7 = Inr b \<and>
     distinct (map tx_hash (b_transactions b)) \<and> list_all (\<lambda>t. \<exists>h. tx_hash t = JStr h) (b_transactions b) \<and>
     b_transactionEvents b = Given [e1, e2]"
  by (simp add: block_at_def link_block_def example_chain_def example_lodash_def example_sdk_def
      example_info_def wrapTransactionEvents_def collect_events_def switch_order_def tx_get_own
      obj_member_def Let_def, simp add: tx_hash_own obj_member_def)

text \<open>
  C5: take a batch that succeeds, whatever the node answers and in whatever order the requests complete, and
  one of its blocks whose transactions have pairwise different hashes that are strings.  Indexing it is:
  hand the block to every datasource, then each transaction directly followed by exactly its own events in the
  order of their numbers, then the special events, and stop at the first error.  Every event of the block is
  among those of one transaction.
\<close>

theorem fetched_batch_schedule:
  assumes "lodash_ok lo" and "fst (fetchBlocks sdk lo c emit sched heights s) = Some (Inr ibs)"
    and "ib \<in> set ibs" and "distinct (map tx_hash (b_transactions (ib_block ib)))"
    and "list_all (\<lambda>t. \<exists>h. tx_hash t = JStr h) (b_transactions (ib_block ib))"
  shows "\<exists>evss. b_transactionEvents (ib_block ib) = Given (concat evss) \<and>
    list_all2 (\<lambda>t evs. map te_id evs = [0..<length evs] \<and> (\<forall>e \<in> set evs. te_transaction e = unlinked_tx t))
      (b_transactions (ib_block ib)) evss \<and>
    indexBlockData f (ib_block ib) dss vm =
      for_each (\<lambda>i. for_each (\<lambda>ds. f (input_kind i) i ds vm) dss)
        (BlockInput (ib_block ib)
         # concat (map2 (\<lambda>t evs. TransactionInput t # map TransactionEventInput evs) (b_transactions (ib_block ib)) evss)
         @ map SpecialEventInput (b_specialEvents (ib_block ib)))"
proof -
  from fetchBlocks_built [OF assms(2)] assms(3) have "built sdk lo ib"
    by (auto simp: list_all2_conv_all_nth in_set_conv_nth)
  with link_block_schedule [OF assms(1)] well_hashedI [OF assms(4,5)] have "own_events_schedule (ib_block ib)"
    unfolding built_def by blast
  then obtain evss where evss: "b_transactionEvents (ib_block ib) = Given (concat evss)"
    "list_all2 (\<lambda>t evs. map te_id evs = [0..<length evs] \<and> (\<forall>e \<in> set evs. te_transaction e = unlinked_tx t))
      (b_transactions (ib_block ib)) evss"
    "schedule (ib_block ib) = BlockInput (ib_block ib)
       # concat (map2 (\<lambda>t evs. TransactionInput t # map TransactionEventInput evs) (b_transactions (ib_block ib)) evss)
       @ map SpecialEventInput (b_specialEvents (ib_block ib))"
    unfolding own_events_schedule_def by blast
  show ?thesis
    unfolding indexBlockData_inputs evss(3) using evss(1,2) by (intro exI [of _ evss] conjI refl)
qed

theorem fetched_batch_schedule_witness:
  "\<exists>ib. fst (fetchBlocks example_sdk example_lodash example_grpc (return_io ()) [0, 0, 0, 0, 0, 0] [num_of_int 7] 0) =
       Some (Inr [ib]) \<and>
     (\<exists>evss. concat evss \<noteq> [] \<and> indexBlockData (\<lambda>k i ds vm ks. (Inr (), ks @ [k])) (ib_block ib) [example_datasource] () =
       for_each (\<lambda>i. for_each (\<lambda>ds ks. (Inr (), ks @ [input_kind i])) [example_datasource])
        (BlockInput (ib_block ib)
         # concat (map2 (\<lambda>t evs. TransactionInput t # map TransactionEventInput evs) (b_transactions (ib_block ib)) evss)
         @ map SpecialEventInput (b_specialEvents (ib_block ib))))"
proof -
  obtain b e1 e2 where b: "block_at example_sdk example_lodash example_chain 7 = Inr b"
    "distinct (map tx_hash (b_transactions b))" "list_all (\<lambda>t. \<exists>h. tx_hash t = JStr h) (b_transactions b)"
    "b_transactionEvents b = Given [e1, e2]"
    using example_schedule_block by blast
  note f = example_fetch [OF b(1)]
  have ib: "ib_block (iblock_of b) = b" by (simp add: iblock_of_def)
  from fetched_batch_schedule [OF example_lodash_ok f, of "iblock_of b" "\<lambda>k i ds vm ks. (Inr (), ks @ [k])"
      "[example_datasource]" "()"] b
  obtain evss where "b_transactionEvents b = Given (concat evss)" and run: "indexBlockData (\<lambda>k i ds vm ks. (Inr (), ks @ [k])) b
      [example_datasource] () = for_each (\<lambda>i. for_each (\<lambda>ds ks. (Inr (), ks @ [input_kind i])) [example_datasource])
        (BlockInput b # concat (map2 (\<lambda>t evs. TransactionInput t # map TransactionEventInput evs) (b_transactions b) evss)
         @ map SpecialEventInput (b_specialEvents b))"
    unfolding ib by auto
  moreover have "concat evss = [e1, e2]" using \<open>b_transactionEvents b = Given (concat evss)\<close> b(4) by (simp only: nullable.inject)
  ultimately show ?thesis
    by (intro exI [of _ "iblock_of b"] conjI exI [of _ evss]) (simp_all only: f ib list.distinct simp_thms)
qed

lemma api_requests_pinned:
  "list_all (pinned (block_client b))
     (snd (snd (bind_io (getApi depth (logging_grpc send) (logging_pool pool) b) (run_script handler) (s, []))))"
  unfolding getApi_eq list_all_iff
  using script_requests_pinned [of depth send pool "sc_blockHeight (block_client b)" "sc_blockHash (block_client b)" handler s]
  by (simp add: block_client_def new_safe_client_def)

definition input_tag :: "input \<Rightarrow> jsval" where
  "input_tag i = (case i of BlockInput b \<Rightarrow> JUndef | TransactionInput t \<Rightarrow> tx_get t ''type''
     | TransactionEventInput e \<Rightarrow> event_tag (te_js e) | SpecialEventInput e \<Rightarrow> event_tag (se_js e))"

lemma filter_input_typed:
  assumes "input_kind i \<noteq> BlockKind" and "filter_input (FilterTypeMap ts_ok) i (Given f) ds = Inr True"
    and "f_type f = Given t" and "t \<noteq> []"
  shows "input_tag i = JStr t"
  using assms tx_filter.accept_typed [where f = f and t = t] tx_event_filter.accept_typed [where f = f and t = t]
    special_event_filter.accept_typed [where f = f and t = t]
  by (cases i) (simp_all add: FilterTypeMap_def input_tag_def)

text \<open>
  For each kind but blocks, the filter the indexer picks lets everything through when the handler has
  no filter or an empty one, and a filter that names a type lets through nothing of another type or tag;
  the kind of an input and the processors it may go to fit.
\<close>

theorem filter_input_contract:
  assumes "input_kind i \<noteq> BlockKind"
  shows "filter_input (FilterTypeMap ts_ok) i Undefined ds = Inr True \<and>
    filter_input (FilterTypeMap ts_ok) i (Given no_filter_fields) ds = Inr True \<and>
    (filter_input (FilterTypeMap ts_ok) i (Given f) ds = Inr True \<longrightarrow> f_type f = Given t \<longrightarrow> t \<noteq> [] \<longrightarrow>
      input_tag i = JStr t) \<and>
    (ProcessorTypeMap (input_kind i) k \<longleftrightarrow> kind_of_string k = Some (input_kind i))"
proof (cases i)
  case (TransactionInput x)
  then show ?thesis
    using tx_filter.accept_no_filter [of Undefined x] tx_filter.accept_empty_filter [of x] filter_input_typed [OF assms]
    by (simp add: FilterTypeMap_def input_tag_def kind_of_string_Some isTransactionHandlerProcessor_def)
next
  case (TransactionEventInput x)
  then show ?thesis
    using tx_event_filter.accept_no_filter [of Undefined x] tx_event_filter.accept_empty_filter [of x]
      filter_input_typed [OF assms]
    by (simp add: FilterTypeMap_def input_tag_def kind_of_string_Some isTransactionEventHandlerProcessor_def)
next
  case (SpecialEventInput x)
  then show ?thesis
    using special_event_filter.accept_no_filter [of Undefined x] special_event_filter.accept_empty_filter [of x]
      filter_input_typed [OF assms]
    by (simp add: FilterTypeMap_def input_tag_def kind_of_string_Some isSpecialEventHandlerProcessor_def)
qed (use assms in simp)

theorem filter_input_contract_witness:
  "filter_input (FilterTypeMap (\<lambda>_ _. True)) (SpecialEventInput (ConcordiumSpecialEvent [] 0 None)) Undefined
     example_datasource = Inr True"
  using filter_input_contract [of "SpecialEventInput (ConcordiumSpecialEvent [] 0 None)" "\<lambda>_ _. True"] by simp

end
