(* ===== verification/Concurrency.thy ===== *)
theory Concurrency
  imports Indexer
begin

text \<open>
  Calls that overlap.  A handler may start several calls of its API before it awaits one
  (\<open>Promise.all\<close>), or never await one, so that calls made for a block are still under way while the
  next one is indexed.  Each call is suspended at every attempt of the loop of
  concordium/api.service.concordium.ts, and whichever pending request is answered first goes on first.

  A \<open>session\<close> is one thread of the indexer with everything under way on it; its steps are the getting of
  the API for a block (\<open>getApi\<close> of indexer.manager.ts), the start of a call, and the turn of a call.  What
  handlers there are and what they do is the sequence of steps, and the theorems hold for every sequence.
\<close>

section \<open>Sessions\<close>

type_synonym request = "safe_method \<times> jsval list"

text \<open>
  A call that was started: the API it was started on (its place among those handed out), the method, and
  what is left of it.
\<close>

record 's started =
  call_api :: nat
  call_method :: safe_method
  call_args :: "jsval list"
  call_rest :: "('s \<times> request list, jsval) proc"

text \<open>
  \<open>apis\<close> are the blocks an API was handed out for, with the API; \<open>sent\<close> are the requests that went to the
  node, each with the place of its call.
\<close>

record 's session =
  apis :: "(concordium_block \<times> ('s \<times> request list) safe_proxy) list"
  calls :: "'s started list"
  world :: 's
  sent :: "(nat \<times> request) list"

datatype event = OpenApi concordium_block | StartCall nat safe_method "jsval list" | TakeTurn nat

definition open_api ::
  "nat \<Rightarrow> (request \<Rightarrow> ('s, jsval) io) \<Rightarrow> ('s, unit) io \<Rightarrow> concordium_block \<Rightarrow> 's session \<Rightarrow> 's session"
where
  "open_api depth send pool b st =
     (case getApi depth (logging_grpc send) (logging_pool pool) b (world st, []) of
        (Inl _, (w, _)) \<Rightarrow> st\<lparr>world := w\<rparr>
      | (Inr proxy, (w, _)) \<Rightarrow> st\<lparr>world := w, apis := apis st @ [(b, proxy)]\<rparr>)"

definition start_call :: "nat \<Rightarrow> safe_method \<Rightarrow> jsval list \<Rightarrow> 's session \<Rightarrow> 's session" where
  "start_call a m args st =
     (if a < length (apis st)
      then st\<lparr>calls := calls st @ [\<lparr>call_api = a, call_method = m, call_args = args, call_rest = snd (apis st ! a) m args\<rparr>]\<rparr>
      else st)"

definition take_turn :: "nat \<Rightarrow> 's session \<Rightarrow> 's session" where
  "take_turn i st =
     (if i < length (calls st) then
        (case call_rest (calls st ! i) of
           Done _ \<Rightarrow> st
         | Await f \<Rightarrow>
             (case f (world st, []) of
                (p, (w, reqs)) \<Rightarrow>
                  st\<lparr>world := w, calls := (calls st)[i := (calls st ! i)\<lparr>call_rest := p\<rparr>],
                     sent := sent st @ map (Pair i) reqs\<rparr>))
      else st)"

fun session_step ::
  "nat \<Rightarrow> (request \<Rightarrow> ('s, jsval) io) \<Rightarrow> ('s, unit) io \<Rightarrow> event \<Rightarrow> 's session \<Rightarrow> 's session"
where
  "session_step depth send pool (OpenApi b) st = open_api depth send pool b st"
| "session_step depth send pool (StartCall a m args) st = start_call a m args st"
| "session_step depth send pool (TakeTurn i) st = take_turn i st"

definition session_start :: "'s \<Rightarrow> 's session" where
  "session_start w = \<lparr>apis = [], calls = [], world = w, sent = []\<rparr>"

abbreviation session_run ::
  "nat \<Rightarrow> (request \<Rightarrow> ('s, jsval) io) \<Rightarrow> ('s, unit) io \<Rightarrow> event list \<Rightarrow> 's session \<Rightarrow> 's session"
where
  "session_run depth send pool \<equiv> fold (session_step depth send pool)"

section \<open>One call\<close>

text \<open>The loop of a call with \<open>n\<close> attempts behind it\<close>

definition call_loop ::
  "nat \<Rightarrow> (request \<Rightarrow> ('s, jsval) io) \<Rightarrow> ('s, unit) io \<Rightarrow> safe_client \<Rightarrow> safe_method \<Rightarrow> jsval list \<Rightarrow> nat \<Rightarrow>
   js_error option \<Rightarrow> ('s \<times> request list, jsval) proc"
where
  "call_loop depth send pool c m args n prev =
     retry_loop (make_client (logging_pool pool) (sc_blockHeight c) (sc_blockHash c))
       (\<lambda>api. safe_call depth (logging_grpc send) api m args) n c prev"

definition settled :: "('s, 'a) proc \<Rightarrow> bool" where
  "settled p = (case p of Done _ \<Rightarrow> True | Await _ \<Rightarrow> False)"

lemma settled_simps [simp]: "settled (Done r)" "\<not> settled (Await f)"
  by (simp_all add: settled_def)

text \<open>A call for \<open>c\<close> that is settled or has at least \<open>k\<close> attempts behind it\<close>

definition advanced ::
  "nat \<Rightarrow> (request \<Rightarrow> ('s, jsval) io) \<Rightarrow> ('s, unit) io \<Rightarrow> safe_client \<Rightarrow> nat \<Rightarrow> 's started \<Rightarrow> bool"
where
  "advanced depth send pool c k call \<longleftrightarrow>
     settled (call_rest call) \<or>
     (\<exists>n prev. k \<le> n \<and> call_rest call = call_loop depth send pool c (call_method call) (call_args call) n prev)"

lemma advanced_mono: "advanced depth send pool c k call \<Longrightarrow> j \<le> k \<Longrightarrow> advanced depth send pool c j call"
  unfolding advanced_def by (meson order_trans)

lemma advanced_all: "advanced depth send pool c maxRetries call \<Longrightarrow> settled (call_rest call)"
  by (auto simp: advanced_def call_loop_def retry_loop.simps)

lemma attempt_log:
  assumes "safe_call depth (logging_grpc send) c m args (s, log) = (r, (s', log'))"
  shows "\<exists>reqs. log' = log @ reqs \<and> length reqs \<le> 1 \<and> (\<forall>q \<in> set reqs. fst q = m \<and> pinned c q)"
proof (cases "run_safe depth c m args")
  case (Inl e)
  with assms have "log' = log @ []" by (simp add: safe_call_def io_defs)
  then show ?thesis by fastforce
next
  case (Inr q)
  with assms have "log' = log @ [q]"
    by (cases q) (auto simp: safe_call_def logging_grpc_def io_defs split: prod.splits)
  moreover have "fst q = m \<and> pinned c q" using Inr by (rule run_safe_pinned)
  ultimately show ?thesis by fastforce
qed

text \<open>
  One turn of a call: it had fewer than five attempts behind it, it sends at most one request, which is the
  called method about the block of its API, and afterwards it is settled or one attempt further.
\<close>

lemma call_turn:
  assumes "call_loop depth send pool c m args n prev = Await f" and "f (s, []) = (p, (s', reqs))"
  shows "n < maxRetries \<and> length reqs \<le> 1 \<and> (\<forall>q \<in> set reqs. fst q = m \<and> pinned c q) \<and>
    (settled p \<or> (\<exists>prev'. p = call_loop depth send pool c m args (Suc n) prev'))"
proof -
  let ?mk = "make_client (logging_pool pool) (sc_blockHeight c) (sc_blockHash c)"
  have n: "n < maxRetries"
    using assms(1) by (auto simp: call_loop_def retry_loop.simps split: if_splits)
  obtain r s1 l1 where at: "safe_call depth (logging_grpc send) c m args (s, []) = (r, (s1, l1))"
    by (metis surj_pair)
  obtain made s2 l2 where mk: "?mk (s1, l1) = (made, (s2, l2))"
    by (metis surj_pair)
  have l2: "l2 = l1" using logging_pool_log [of pool "sc_blockHeight c" "sc_blockHash c" "(s1, l1)"] mk by simp
  have client: "api = c" if "made = Inr api" for api
    using mk that by (auto simp: make_client_cases new_safe_client_def split: prod.splits sum.splits)
  have f: "f (s, []) = (case r of Inr v \<Rightarrow> (Done (Inr v), (s1, l1))
      | Inl e \<Rightarrow> if \<not> retryable e then (Done (Inl e), (s1, l1))
          else (case made of Inl e' \<Rightarrow> (Done (Inl e'), (s2, l2))
            | Inr api \<Rightarrow> (retry_loop ?mk (\<lambda>api. safe_call depth (logging_grpc send) api m args) (Suc n) api (Some e), (s2, l2))))"
    using assms(1) n at mk
    by (auto simp: call_loop_def retry_loop.simps [of _ _ n] split: sum.split)
  have "reqs = l1" using f assms(2) l2 by (auto split: sum.splits if_splits)
  moreover have "settled p \<or> (\<exists>prev'. p = call_loop depth send pool c m args (Suc n) prev')"
    using f assms(2) client by (auto simp: call_loop_def split: sum.splits if_splits)
  moreover have "length l1 \<le> 1 \<and> (\<forall>q \<in> set l1. fst q = m \<and> pinned c q)"
    using attempt_log [OF at] by auto
  ultimately show ?thesis using n by blast
qed

lemma turn_advanced:
  assumes "advanced depth send pool c k call" and "call_rest call = Await f" and "f (w, []) = (p, (w', new))"
  shows "advanced depth send pool c (Suc k) (call\<lparr>call_rest := p\<rparr>)"
proof -
  from assms(1,2) obtain n prev where n: "k \<le> n"
    "call_loop depth send pool c (call_method call) (call_args call) n prev = Await f"
    by (auto simp: advanced_def)
  from call_turn [OF n(2) assms(3)] n(1) show ?thesis
    unfolding advanced_def by (cases "settled p") (auto intro!: exI [of _ "Suc n"])
qed

section \<open>What every session keeps\<close>

definition requests_of :: "nat \<Rightarrow> (nat \<times> request) list \<Rightarrow> request list" where
  "requests_of i log = map snd (filter (\<lambda>e. fst e = i) log)"

lemma requests_of_append:
  "requests_of i (log @ map (Pair j) reqs) = requests_of i log @ (if i = j then reqs else [])"
  by (simp add: requests_of_def comp_def)

definition api_block :: "'s session \<Rightarrow> 's started \<Rightarrow> concordium_block" where
  "api_block st call = fst (apis st ! call_api call)"

text \<open>The call at place \<open>i\<close> in order: what it sent so far fits the attempts it made.\<close>

definition call_ok ::
  "nat \<Rightarrow> (request \<Rightarrow> ('s, jsval) io) \<Rightarrow> ('s, unit) io \<Rightarrow> concordium_block \<Rightarrow> request list \<Rightarrow> 's started \<Rightarrow> bool"
where
  "call_ok depth send pool b reqs call \<longleftrightarrow>
     length reqs \<le> maxRetries \<and> (\<forall>q \<in> set reqs. fst q = call_method call \<and> pinned (block_client b) q) \<and>
     advanced depth send pool (block_client b) (length reqs) call"

definition api_ok ::
  "nat \<Rightarrow> (request \<Rightarrow> ('s, jsval) io) \<Rightarrow> ('s, unit) io \<Rightarrow> concordium_block \<times> ('s \<times> request list) safe_proxy \<Rightarrow> bool"
where
  "api_ok depth send pool a \<longleftrightarrow>
     snd a = (\<lambda>m args. call_loop depth send pool (block_client (fst a)) m args 0 None)"

definition session_ok ::
  "nat \<Rightarrow> (request \<Rightarrow> ('s, jsval) io) \<Rightarrow> ('s, unit) io \<Rightarrow> 's session \<Rightarrow> bool"
where
  "session_ok depth send pool st \<longleftrightarrow>
     (\<forall>a \<in> set (apis st). api_ok depth send pool a) \<and>
     (\<forall>i < length (calls st). call_api (calls st ! i) < length (apis st) \<and>
        call_ok depth send pool (api_block st (calls st ! i)) (requests_of i (sent st)) (calls st ! i)) \<and>
     (\<forall>e \<in> set (sent st). fst e < length (calls st))"

lemma getApi_made:
  assumes "getApi depth (logging_grpc send) (logging_pool pool) b (w, []) = (Inr proxy, (w', l))"
  shows "api_ok depth send pool (b, proxy)"
proof -
  let ?mk = "make_client (logging_pool pool) (sc_blockHeight (block_client b)) (sc_blockHash (block_client b))"
  obtain made w1 where mk: "?mk (w, [] :: request list) = (made, w1)" by (metis surj_pair)
  then obtain target where "made = Inr target"
    using assms by (cases made) (auto simp: getApi_eq getSafeApi_def bind_io_def)
  moreover from this have "target = block_client b"
    using mk by (auto simp: make_client_cases block_client_def new_safe_client_def split: prod.splits sum.splits)
  ultimately show ?thesis
    using assms mk by (auto simp: getApi_eq getSafeApi_def bind_io_def return_io_def api_ok_def call_loop_def proxied_def)
qed

lemma open_api_ok:
  assumes "session_ok depth send pool st"
  shows "session_ok depth send pool (open_api depth send pool b st)"
proof -
  obtain r w l where g: "getApi depth (logging_grpc send) (logging_pool pool) b (world st, []) = (r, (w, l))"
    by (metis surj_pair)
  show ?thesis
  proof (cases r)
    case (Inl e)
    with g assms show ?thesis by (simp add: open_api_def session_ok_def api_block_def)
  next
    case (Inr proxy)
    with g have "api_ok depth send pool (b, proxy)" by (intro getApi_made) simp
    with g Inr assms show ?thesis
      by (auto simp: open_api_def session_ok_def api_block_def nth_append)
  qed
qed

lemma start_call_ok:
  assumes "session_ok depth send pool st"
  shows "session_ok depth send pool (start_call a m args st)"
proof (cases "a < length (apis st)")
  case True
  have none: "requests_of (length (calls st)) (sent st) = []"
    using assms by (auto simp: session_ok_def requests_of_def filter_empty_conv)
  have "api_ok depth send pool (apis st ! a)"
    using assms True by (simp add: session_ok_def)
  then have "advanced depth send pool (block_client (fst (apis st ! a))) 0
      \<lparr>call_api = a, call_method = m, call_args = args, call_rest = snd (apis st ! a) m args\<rparr>"
    by (auto simp: advanced_def api_ok_def)
  with True assms none show ?thesis
    by (auto simp: start_call_def session_ok_def api_block_def call_ok_def nth_append less_Suc_eq)
qed (use assms in \<open>simp add: start_call_def\<close>)

lemma turn_call_ok:
  assumes "call_ok depth send pool b reqs call" and "call_rest call = Await f" and "f (w, []) = (p, (w', new))"
  shows "call_ok depth send pool b (reqs @ new) (call\<lparr>call_rest := p\<rparr>)"
proof -
  have call: "advanced depth send pool (block_client b) (length reqs) call"
    using assms(1) by (simp add: call_ok_def)
  with assms(2) obtain n prev where n: "length reqs \<le> n"
    "call_loop depth send pool (block_client b) (call_method call) (call_args call) n prev = Await f"
    by (auto simp: advanced_def)
  note turn = call_turn [OF n(2) assms(3)]
  then have "advanced depth send pool (block_client b) (length (reqs @ new)) (call\<lparr>call_rest := p\<rparr>)"
    by (intro advanced_mono [OF turn_advanced [where f = f and w = w and w' = w' and new = new]])
      (use call assms(2,3) in auto)
  with turn n(1) assms(1) show ?thesis by (auto simp: call_ok_def)
qed

lemma take_turn_ok:
  assumes "session_ok depth send pool st"
  shows "session_ok depth send pool (take_turn i st)"
proof (cases "i < length (calls st)")
  case True
  show ?thesis
  proof (cases "call_rest (calls st ! i)")
    case (Await f)
    obtain p w new where f: "f (world st, []) = (p, (w, new))" by (metis surj_pair)
    have "call_ok depth send pool (api_block st (calls st ! i)) (requests_of i (sent st)) (calls st ! i)"
      using assms True by (simp add: session_ok_def)
    from turn_call_ok [OF this Await f] Await f True assms show ?thesis
      by (auto simp: take_turn_def session_ok_def api_block_def requests_of_append nth_list_update)
  qed (use assms True in \<open>simp add: take_turn_def\<close>)
qed (use assms in \<open>simp add: take_turn_def\<close>)

interpretation session: transition_system "session_start w" "session_step depth send pool" "session_ok depth send pool"
proof (unfold_locales, goal_cases)
  case 1
  show ?case by (simp add: session_start_def session_ok_def)
next
  case (2 st e)
  then show ?case by (cases e) (simp_all add: open_api_ok start_call_ok take_turn_ok)
qed

section \<open>Progress\<close>

text \<open>
  Another step neither takes a call back nor changes what it was made for; a turn of its own takes it one
  attempt further.
\<close>

definition progressed ::
  "nat \<Rightarrow> (request \<Rightarrow> ('s, jsval) io) \<Rightarrow> ('s, unit) io \<Rightarrow> safe_client \<Rightarrow> nat \<Rightarrow> nat \<Rightarrow> 's session \<Rightarrow> bool"
where
  "progressed depth send pool c k i st \<longleftrightarrow> i < length (calls st) \<and> advanced depth send pool c k (calls st ! i)"

lemma step_progressed:
  assumes "progressed depth send pool c k i st"
  shows "progressed depth send pool c (if e = TakeTurn i then Suc k else k) i (session_step depth send pool e st)"
proof (cases e)
  case (OpenApi b)
  with assms show ?thesis by (simp add: progressed_def open_api_def split: prod.split sum.split)
next
  case (StartCall a m args)
  with assms show ?thesis by (simp add: progressed_def start_call_def nth_append)
next
  case (TakeTurn j)
  have i: "i < length (calls st)" "advanced depth send pool c k (calls st ! i)"
    using assms by (simp_all add: progressed_def)
  show ?thesis
  proof (cases "j < length (calls st)")
    case True
    show ?thesis
    proof (cases "call_rest (calls st ! j)")
      case (Done r)
      with TakeTurn True i show ?thesis
        by (auto simp: progressed_def take_turn_def advanced_def)
    next
      case (Await f)
      obtain p w new where f: "f (world st, []) = (p, (w, new))" by (metis surj_pair)
      with TakeTurn True Await i turn_advanced [where f = f, OF i(2) _ f] show ?thesis
        by (auto simp: progressed_def take_turn_def nth_list_update)
    qed
  qed (use TakeTurn i in \<open>auto simp: progressed_def take_turn_def\<close>)
qed

lemma run_progressed:
  "progressed depth send pool c k i st \<Longrightarrow>
     progressed depth send pool c (k + count_list es (TakeTurn i)) i (session_run depth send pool es st)"
proof (induction es arbitrary: k st)
  case (Cons e es)
  from Cons.IH [OF step_progressed [OF Cons.prems, of e]] show ?case by (cases "e = TakeTurn i") auto
qed simp

section \<open>A call with nothing else under way\<close>

lemma logged_safe_call:
  "safe_call depth (logging_grpc send) c m args (s, log) =
     (case run_safe depth c m args of
        Inl e \<Rightarrow> (Inl e, (s, log))
      | Inr q \<Rightarrow> (case send q s of (v, s') \<Rightarrow> (v, (s', log @ [q]))))"
  by (auto simp: safe_call_def logging_grpc_def io_defs split: sum.split prod.split)

text \<open>What a call does depends on no earlier request of the log.\<close>

lemma call_turn_log:
  assumes "call_loop depth send pool c m args n prev = Await f" and "f (s, []) = (p, (s', reqs))"
  shows "f (s, log) = (p, (s', log @ reqs))"
proof -
  let ?mk = "make_client (logging_pool pool) (sc_blockHeight c) (sc_blockHash c)"
  have n: "n < maxRetries"
    using assms(1) by (auto simp: call_loop_def retry_loop.simps split: if_splits)
  obtain r s1 l1 where at: "safe_call depth (logging_grpc send) c m args (s, []) = (r, (s1, l1))"
    by (metis surj_pair)
  then have at': "safe_call depth (logging_grpc send) c m args (s, log) = (r, (s1, log @ l1))"
    by (auto simp: logged_safe_call split: sum.splits prod.splits)
  obtain made s2 where "\<And>l :: request list. ?mk (s1, l) = (made, (s2, l))"
    by (cases "pool s1"; cases "fst (pool s1)") (auto simp: make_client_cases logging_pool_def)
  then show ?thesis
    using assms n at at'
    by (auto simp: call_loop_def retry_loop.simps [of _ _ n] split: sum.splits if_splits)
qed

definition loop_within ::
  "nat \<Rightarrow> (request \<Rightarrow> ('s, jsval) io) \<Rightarrow> ('s, unit) io \<Rightarrow> nat \<Rightarrow> ('s \<times> request list, jsval) proc \<Rightarrow> bool"
where
  "loop_within depth send pool k p \<longleftrightarrow>
     settled p \<or> (\<exists>c m args n prev. maxRetries - n \<le> k \<and> p = call_loop depth send pool c m args n prev)"

lemma call_loop_within: "maxRetries - n \<le> k \<Longrightarrow> loop_within depth send pool k (call_loop depth send pool c m args n prev)"
  unfolding loop_within_def by blast

lemma loop_within_zero: "loop_within depth send pool 0 p \<Longrightarrow> settled p"
  by (auto simp: loop_within_def call_loop_def retry_loop.simps)

lemma loop_within_turn:
  assumes "loop_within depth send pool (Suc k) (Await f)" and "f (s, []) = (p, (s', reqs))"
  shows "loop_within depth send pool k p \<and> f (s, log) = (p, (s', log @ reqs))"
proof -
  from assms(1) obtain c m args n prev where n: "maxRetries - n \<le> Suc k"
    "call_loop depth send pool c m args n prev = Await f"
    by (auto simp: loop_within_def)
  from call_turn [OF n(2) assms(2)] n(1) have "loop_within depth send pool k p"
    unfolding loop_within_def by (metis Suc_diff_Suc Suc_le_mono)
  with call_turn_log [OF n(2) assms(2)] show ?thesis by blast
qed

lemma run_proc_log:
  assumes "loop_within depth send pool k p" and "run_proc p (s, []) = (r, (s', reqs))"
  shows "run_proc p (s, log) = (r, (s', log @ reqs))"
  using assms
proof (induction k arbitrary: p s log reqs r s')
  case 0
  then show ?case by (cases p) (auto dest: loop_within_zero)
next
  case (Suc k)
  show ?case
  proof (cases p)
    case (Await f)
    obtain p1 s1 new where f: "f (s, []) = (p1, (s1, new))" by (metis surj_pair)
    note turn = loop_within_turn [OF Suc.prems(1) [unfolded Await] f]
    obtain r2 s2 reqs2 where run: "run_proc p1 (s1, []) = (r2, (s2, reqs2))" by (metis surj_pair)
    from Suc.IH [OF _ run] turn have
      "run_proc p1 (s1, new) = (r2, (s2, new @ reqs2))" "run_proc p1 (s1, log @ new) = (r2, (s2, (log @ new) @ reqs2))"
      by blast+
    with Suc.prems(2) Await f turn show ?thesis by (simp add: run_proc_Await)
  qed (use Suc.prems in simp)
qed

lemma call_alone:
  assumes "loop_within depth send pool k (call_rest (calls st ! i))" and "i < length (calls st)"
    and "run_proc (call_rest (calls st ! i)) (world st, []) = (r, (w, reqs))"
  shows "let st' = session_run depth send pool (replicate k (TakeTurn i)) st in
    call_rest (calls st' ! i) = Done r \<and> world st' = w \<and> sent st' = sent st @ map (Pair i) reqs"
  using assms
proof (induction k arbitrary: st reqs)
  case 0
  then show ?case by (cases "call_rest (calls st ! i)") (auto dest: loop_within_zero)
next
  case (Suc k)
  show ?case
  proof (cases "call_rest (calls st ! i)")
    case (Done r')
    then have "take_turn i st = st" by (simp add: take_turn_def)
    with Suc.IH [of st reqs] Suc.prems Done show ?thesis by (simp add: loop_within_def)
  next
    case (Await f)
    obtain p w1 new where f: "f (world st, []) = (p, (w1, new))" by (metis surj_pair)
    note turn = loop_within_turn [OF Suc.prems(1) [unfolded Await] f]
    obtain r2 w2 reqs2 where run: "run_proc p (w1, []) = (r2, (w2, reqs2))" by (metis surj_pair)
    let ?st = "take_turn i st"
    have st: "call_rest (calls ?st ! i) = p" "world ?st = w1" "sent ?st = sent st @ map (Pair i) new" "i < length (calls ?st)"
      using Suc.prems(2) Await f by (simp_all add: take_turn_def)
    have "run_proc p (w1, new) = (r2, (w2, new @ reqs2))"
      using turn run by (intro run_proc_log) auto
    then have eq: "r = r2" "w = w2" "reqs = new @ reqs2"
      using Suc.prems(3) Await f by (auto simp: run_proc_Await)
    show ?thesis using Suc.IH [of ?st reqs2] st turn run unfolding eq by (simp add: Let_def)
  qed
qed

section \<open>Properties\<close>

lemma reachable_session_ok: "session_ok depth send pool (session_run depth send pool es (session_start w))"
  by (rule session.ok_reachable)

lemma session_call:
  assumes "session_ok depth send pool st" and "i < length (calls st)"
  shows "call_api (calls st ! i) < length (apis st)"
    and "call_ok depth send pool (api_block st (calls st ! i)) (requests_of i (sent st)) (calls st ! i)"
  using assms by (simp_all add: session_ok_def)

lemma session_requests:
  assumes "session_ok depth send pool st"
  shows "list_all (\<lambda>(i, q). i < length (calls st) \<and> fst q = call_method (calls st ! i) \<and>
      pinned (block_client (api_block st (calls st ! i))) q) (sent st)"
  unfolding list_all_iff
proof (intro ballI, clarify)
  fix i m args assume e: "(i, (m, args)) \<in> set (sent st)"
  then have i: "i < length (calls st)" using assms unfolding session_ok_def by fastforce
  from e have "(m, args) \<in> set (requests_of i (sent st))"
    unfolding requests_of_def by force
  with session_call(2) [OF assms i] i
  show "i < length (calls st) \<and> fst (m, args) = call_method (calls st ! i) \<and>
      pinned (block_client (api_block st (calls st ! i))) (m, args)"
    by (auto simp: call_ok_def)
qed

text \<open>
  C2: whatever calls the handlers of whatever blocks have under way, and in whatever order they go on,
  every request that is sent is of the method of its call and is pinned to the block of the API the call
  was made on, never to the block of another call; a call sends at most five.
\<close>

theorem concurrent_requests_pinned:
  "let st = session_run depth send pool es (session_start w) in
     list_all (\<lambda>(i, q). i < length (calls st) \<and> fst q = call_method (calls st ! i) \<and>
       pinned (block_client (api_block st (calls st ! i))) q) (sent st) \<and>
     list_all (\<lambda>i. length (requests_of i (sent st)) \<le> 5) [0..<length (calls st)]"
proof -
  note ok = reachable_session_ok [of depth send pool es w]
  have "length (requests_of i (sent (session_run depth send pool es (session_start w)))) \<le> 5"
    if "i < length (calls (session_run depth send pool es (session_start w)))" for i
    using session_call(2) [OF ok that] by (simp add: call_ok_def maxRetries_def)
  with session_requests [OF ok] show ?thesis by (simp add: Let_def list_all_iff)
qed

text \<open>
  C8: a call that overlaps with others is settled, with a result or an error, once it had five turns,
  whatever the other calls and the node do in between.
\<close>

theorem concurrent_call_settles:
  assumes "i < length (calls (session_run depth send pool es (session_start w)))"
    and "5 \<le> count_list es' (TakeTurn i)"
  shows "settled (call_rest (calls (session_run depth send pool (es @ es') (session_start w)) ! i))"
proof -
  let ?st = "session_run depth send pool es (session_start w)"
  let ?c = "block_client (api_block ?st (calls ?st ! i))"
  have "call_ok depth send pool (api_block ?st (calls ?st ! i)) (requests_of i (sent ?st)) (calls ?st ! i)"
    using reachable_session_ok assms(1) by (rule session_call(2))
  then have "progressed depth send pool ?c 0 i ?st"
    using assms(1) by (auto simp: progressed_def call_ok_def intro: advanced_mono)
  then have "progressed depth send pool ?c (0 + count_list es' (TakeTurn i)) i (session_run depth send pool es' ?st)"
    by (rule run_progressed)
  then have "advanced depth send pool ?c maxRetries (calls (session_run depth send pool es' ?st) ! i)"
    using assms(2) advanced_mono by (simp add: progressed_def maxRetries_def) blast
  then show ?thesis using advanced_all by fastforce
qed

definition two_calls :: "event list" where
  "two_calls = [OpenApi example_special_block, StartCall 0 GetBlockInfo [], StartCall 0 GetBakerList []]"

text \<open>A node that is down for the first request and answers with its arguments afterwards\<close>

definition flaky_node :: "request \<Rightarrow> (nat, jsval) io" where
  "flaky_node q = (\<lambda>n. (if n = 0 then Inl network_error else Inr (hd (snd q)), Suc n))"

theorem concurrent_call_settles_witness:
  "settled (call_rest (calls (session_run 9 flaky_node (return_io ())
     (two_calls @ [TakeTurn 0, TakeTurn 1, TakeTurn 0, TakeTurn 0, TakeTurn 1, TakeTurn 0, TakeTurn 0])
     (session_start 0)) ! 0))"
  by (rule concurrent_call_settles)
    (simp_all add: two_calls_def session_start_def open_api_def start_call_def getApi_def getSafeApi_def
      make_client_cases logging_pool_def io_defs numeral_eq_Suc)

text \<open>\<open>awaited a m args st\<close>: the call is started on the API at place \<open>a\<close> and takes five turns in a row.\<close>

definition awaited :: "nat \<Rightarrow> safe_method \<Rightarrow> jsval list \<Rightarrow> 's session \<Rightarrow> event list" where
  "awaited a m args st = StartCall a m args # replicate 5 (TakeTurn (length (calls st)))"

lemma run_apis: "list_all (\<lambda>e. case e of OpenApi b \<Rightarrow> False | _ \<Rightarrow> True) es \<Longrightarrow>
  apis (session_run depth send pool es st) = apis st"
proof (induction es arbitrary: st)
  case (Cons e es)
  have "apis (session_step depth send pool e st) = apis st"
    using Cons.prems by (cases e) (auto simp: start_call_def take_turn_def split: proc.split prod.split)
  with Cons show ?case by simp
qed simp

lemma api_loop_within:
  assumes "session_ok depth send pool st" and "a < length (apis st)"
  shows "loop_within depth send pool 5 (snd (apis st ! a) m args)"
proof -
  have "api_ok depth send pool (apis st ! a)" using assms by (simp add: session_ok_def)
  then show ?thesis by (simp add: api_ok_def call_loop_within maxRetries_def)
qed

lemma awaited_run:
  assumes "session_ok depth send pool st" and "a < length (apis st)"
    and "run_proc (snd (apis st ! a) m args) (world st, []) = (r, (w, reqs))"
  shows "let st' = session_run depth send pool (awaited a m args st) st in
    call_rest (calls st' ! length (calls st)) = Done r \<and> world st' = w \<and>
    sent st' = sent st @ map (Pair (length (calls st))) reqs \<and> apis st' = apis st \<and> session_ok depth send pool st'"
proof -
  define st1 where "st1 = start_call a m args st"
  have st1: "calls st1 = calls st @ [\<lparr>call_api = a, call_method = m, call_args = args, call_rest = snd (apis st ! a) m args\<rparr>]"
    "world st1 = world st" "sent st1 = sent st"
    using assms(2) by (simp_all add: st1_def start_call_def)
  let ?st' = "session_run depth send pool (replicate 5 (TakeTurn (length (calls st)))) st1"
  have st': "session_run depth send pool (awaited a m args st) st = ?st'"
    by (simp add: awaited_def st1_def)
  have "call_rest (calls ?st' ! length (calls st)) = Done r \<and> world ?st' = w \<and>
      sent ?st' = sent st @ map (Pair (length (calls st))) reqs"
    using call_alone [of depth send pool 5 st1 "length (calls st)" r w reqs] api_loop_within [OF assms(1,2)] assms(3) st1
    by (simp add: Let_def)
  moreover have "apis ?st' = apis st"
    unfolding st' [symmetric] by (rule run_apis) (simp add: awaited_def list_all_iff)
  moreover have "session_ok depth send pool ?st'"
    unfolding st' [symmetric] using assms(1) by (rule session.ok_run)
  ultimately show ?thesis unfolding st' Let_def by blast
qed

text \<open>
  A handler that awaits its calls one by one is one of the sessions: the sequential and the interleaved model of
  the API agree where nothing overlaps.
\<close>

lemma script_session:
  assumes "session_ok depth send pool st" and "a < length (apis st)"
    and "run_script c (snd (apis st ! a)) (world st, log) = (r, (w, log'))"
  shows "\<exists>es reqs. let st' = session_run depth send pool es st in
    log' = log @ reqs \<and> world st' = w \<and> map snd (sent st') = map snd (sent st) @ reqs"
  using assms
proof (induction c arbitrary: st log)
  case Finished
  then show ?case by (intro exI [of _ "[]"]) (simp add: return_io_def)
next
  case (CallApi m args k)
  let ?p = "snd (apis st ! a)"
  obtain r1 w1 reqs1 where run: "run_proc (?p m args) (world st, []) = (r1, (w1, reqs1))" by (metis surj_pair)
  note first = awaited_run [OF CallApi.prems(1,2) run, unfolded Let_def]
  let ?st1 = "session_run depth send pool (awaited a m args st) st"
  have "run_proc (?p m args) (world st, log) = (r1, (w1, log @ reqs1))"
    using api_loop_within [OF CallApi.prems(1,2)] run by (rule run_proc_log)
  then have rest: "run_script (k r1) (snd (apis ?st1 ! a)) (world ?st1, log @ reqs1) = (r, (w, log'))"
    using CallApi.prems(3) first by simp
  obtain es reqs where es: "log' = (log @ reqs1) @ reqs" "world (session_run depth send pool es ?st1) = w"
    "map snd (sent (session_run depth send pool es ?st1)) = map snd (sent ?st1) @ reqs"
    using CallApi.IH [of "k r1" ?st1 "log @ reqs1"] first rest CallApi.prems(2) by (auto simp: Let_def)
  moreover have "map snd (sent ?st1) = map snd (sent st) @ reqs1" using first by (simp add: comp_def)
  ultimately show ?case
    by (intro exI [of _ "awaited a m args st @ es"] exI [of _ "reqs1 @ reqs"]) (simp add: Let_def)
qed

end
