(* ===== verification/ApiConnection.thy ===== *)
theory ApiConnection
  imports ConcordiumApi SafeApi
begin

text \<open>
  One connection of the pool (packages/node/src/concordium/api.connection.ts): creating it from an
  endpoint, the operations the pool calls on it, and the classification of errors by their message.
  The class of @subql/node-core errors is the datatype \<open>connection_error\<close>.
\<close>

section \<open>Connections\<close>

record network_meta =
  nm_chain :: string
  nm_specName :: string
  nm_genesisHash :: "string option"

record connection =
  cn_unsafeApi :: concordium_api
  cn_networkMeta :: network_meta

definition new_connection :: "concordium_api \<Rightarrow> js_error + connection" where
  "new_connection api =
     (case getChainId api of
        None \<Rightarrow> Inl (type_error ''Cannot read properties of undefined (reading 'toString')'')
      | Some chain \<Rightarrow> Inr \<lparr>cn_unsafeApi = api,
          cn_networkMeta = \<lparr>nm_chain = chain, nm_specName = getSpecName api, nm_genesisHash = getGenesisHash api\<rparr>\<rparr>)"

definition create_connection ::
  "(string \<Rightarrow> js_error + (string \<times> string)) \<Rightarrow> (concordium_api \<Rightarrow> 's grpc_client) \<Rightarrow> string \<Rightarrow> ('s, connection) io"
where
  "create_connection url client endpoint =
     bind_io (lift_io (new_ConcordiumApi url endpoint)) (\<lambda>api.
     bind_io (api_init (client api) api) (\<lambda>api'. lift_io (new_connection api')))"

definition connection_safeApi :: "connection \<Rightarrow> jsnum \<Rightarrow> js_error + safe_client" where
  "connection_safeApi this height = Inl (plain_error ''Not Implemented'')"

definition apiConnect :: "connection \<Rightarrow> ('s, unit) io" where
  "apiConnect this = api_connect"

definition apiDisconnect :: "connection \<Rightarrow> ('s, unit) io" where
  "apiDisconnect this = api_disconnect"

definition connection_fetchBlocks ::
  "(concordium_api \<Rightarrow> jsnum list \<Rightarrow> ('s, iblock list) io) \<Rightarrow> connection \<Rightarrow> jsnum list \<Rightarrow> ('s, iblock list) io"
where
  "connection_fetchBlocks fetchBlocksBatches this heights = fetchBlocksBatches (cn_unsafeApi this) heights"

section \<open>Errors\<close>

datatype connection_error =
    TimeoutError js_error
  | DisconnectionError js_error
  | RateLimitError js_error
  | DefaultConnectionError string string

definition lower_char :: "char \<Rightarrow> char" where
  "lower_char c =
     (let n = (of_char c :: nat) in
      if 65 \<le> n \<and> n \<le> 90 \<or> 192 \<le> n \<and> n \<le> 222 \<and> n \<noteq> 215 then char_of (n + 32) else c)"

definition toLowerCase :: "string \<Rightarrow> string" where
  "toLowerCase = map lower_char"

definition handleError :: "js_error \<Rightarrow> connection_error" where
  "handleError e =
     (if has_substring ''timeout'' (toLowerCase (err_message e)) then TimeoutError e
      else if has_substring ''disconnected'' (toLowerCase (err_message e)) then DisconnectionError e
      else if has_substring ''ratelimit'' (toLowerCase (err_message e)) then RateLimitError e
      else DefaultConnectionError (err_name e) (err_message e))"

lemma toLowerCase_append [simp]: "toLowerCase (xs @ ys) = toLowerCase xs @ toLowerCase ys"
  by (simp add: toLowerCase_def)

text \<open>The class of an error and the word that stands for it\<close>

fun error_word :: "connection_error \<Rightarrow> string option" where
  "error_word (TimeoutError _) = Some ''timeout''"
| "error_word (DisconnectionError _) = Some ''disconnected''"
| "error_word (RateLimitError _) = Some ''ratelimit''"
| "error_word (DefaultConnectionError _ _) = None"

lemma handleError_word:
  "error_word (handleError e) =
    find (\<lambda>w. has_substring w (toLowerCase (err_message e))) [''timeout'', ''disconnected'', ''ratelimit'']"
  by (simp add: handleError_def)

section \<open>Properties\<close>

text \<open>
  An error is classified by the first of the words \<open>timeout\<close>, \<open>disconnected\<close>, \<open>ratelimit\<close> that its
  message contains anywhere and in any letter case; without one it keeps its name and message.  Two errors
  whose messages differ in letter case only are of the same class.
\<close>

theorem handleError_by_message:
  "(case error_word (handleError e) of
      Some w \<Rightarrow> \<exists>pre post. toLowerCase (err_message e) = pre @ w @ post
    | None \<Rightarrow> handleError e = DefaultConnectionError (err_name e) (err_message e) \<and>
        list_all (\<lambda>w. \<not> has_substring w (toLowerCase (err_message e))) [''timeout'', ''disconnected'', ''ratelimit''])
   \<and> (toLowerCase (err_message e') = toLowerCase (err_message e) \<longrightarrow>
        error_word (handleError e') = error_word (handleError e))"
proof
  show "case error_word (handleError e) of
      Some w \<Rightarrow> \<exists>pre post. toLowerCase (err_message e) = pre @ w @ post
    | None \<Rightarrow> handleError e = DefaultConnectionError (err_name e) (err_message e) \<and>
        list_all (\<lambda>w. \<not> has_substring w (toLowerCase (err_message e))) [''timeout'', ''disconnected'', ''ratelimit'']"
    unfolding has_substring_iff [symmetric] by (simp add: handleError_def)
qed (simp add: handleError_word)

theorem handleError_by_message_witness:
  "error_word (handleError (plain_error ''Request TIMEOUT'')) = error_word (handleError (plain_error ''request timeout''))
   \<and> error_word (handleError (plain_error ''request timeout'')) = Some ''timeout''"
proof
  have "toLowerCase (err_message (plain_error ''Request TIMEOUT'')) = toLowerCase (err_message (plain_error ''request timeout''))"
    by code_simp
  then show "error_word (handleError (plain_error ''Request TIMEOUT'')) = error_word (handleError (plain_error ''request timeout''))"
    using handleError_by_message [of "plain_error ''request timeout''" "plain_error ''Request TIMEOUT''"] by blast
  show "error_word (handleError (plain_error ''request timeout'')) = Some ''timeout''"
    by code_simp
qed

text \<open>
  A connection can only be made to a node that has a block at height zero: then the chain and the
  genesis hash of its metadata are that block's hash; otherwise reading the chain id of \<open>undefined\<close> throws.
\<close>

theorem create_connection_chain:
  assumes "url endpoint = Inr (host, protocol)"
    and "g_getBlocksAtHeight (client \<lparr>api_host = host, api_secure = (protocol = ''https:''), api_chainId = None, api_name = None\<rparr>) 0 s
      = (Inr hashes, s')"
  shows "case hashes of
      [] \<Rightarrow> \<exists>m. create_connection url client endpoint s = (Inl (type_error m), s')
    | g # _ \<Rightarrow> \<exists>cn. create_connection url client endpoint s = (Inr cn, s') \<and>
        cn_networkMeta cn = \<lparr>nm_chain = g, nm_specName = ''concordium'', nm_genesisHash = Some g\<rparr> \<and>
        getChainId (cn_unsafeApi cn) = Some g \<and> (api_secure (cn_unsafeApi cn) \<longleftrightarrow> protocol = ''https:'')"
  using assms
  by (cases hashes)
    (simp_all add: create_connection_def new_ConcordiumApi_def api_init_def new_connection_def io_defs
      getChainId_def getGenesisHash_def getSpecName_def)

definition example_url :: "string \<Rightarrow> js_error + (string \<times> string)" where
  "example_url s = (if s = ''http://n:20000'' then Inr (''n:20000'', ''http:'') else Inl (type_error ''Invalid URL''))"

theorem create_connection_chain_witness:
  "\<exists>m. create_connection example_url (\<lambda>_. example_grpc) ''http://n:20000'' 0 = (Inl (type_error m), Suc 0)"
  using create_connection_chain [of example_url "''http://n:20000''" "''n:20000''" "''http:''" "\<lambda>_. example_grpc" 0 "[]" "Suc 0"]
  by (simp add: example_url_def example_grpc_def example_chain_def)

end
