(* ===== verification/MetaService.thy ===== *)
theory MetaService
  imports Prelude
begin

text \<open>
  The meta service (packages/node/src/meta/meta.service.ts and meta.controller.ts) and its profiling counters: four event handlers that accumulate, and
  a timer that reports the growth since the last report.  Time is a number of milliseconds, \<open>now\<close> the
  value of \<open>new Date()\<close>.  A report is the tuple of differences that the log line is made of.
\<close>

section \<open>Versions\<close>

record named_version =
  nv_name :: string
  nv_version :: string

definition sdkVersion :: "string \<Rightarrow> named_version" where
  "sdkVersion concordiumSdkVersion = \<lparr>nv_name = ''concordiumSdkVersion'', nv_version = concordiumSdkVersion\<rparr>"

text \<open>The controller of \<open>/meta\<close> forwards to the service, whose \<open>getMeta\<close> is @subql/node-core's.\<close>

definition getMeta :: "('s, 'meta) io \<Rightarrow> ('s, 'meta) io" where
  "getMeta metaService_getMeta = metaService_getMeta"

section \<open>State and handlers\<close>

record meta_state =
  accEnqueueBlocks :: int
  accFetchBlocks :: int
  currentFilteringBlockNum :: int
  accRpcCalls :: int
  lastReportedFilteringBlockNum :: int
  lastReportedEnqueueBlocks :: int
  lastReportedFetchBlocks :: int
  lastReportedRpcCalls :: int
  lastStatsReportedTs :: "int option"

definition meta_start :: meta_state where
  "meta_start =
     \<lparr>accEnqueueBlocks = 0, accFetchBlocks = 0, currentFilteringBlockNum = 0, accRpcCalls = 0,
      lastReportedFilteringBlockNum = 0, lastReportedEnqueueBlocks = 0, lastReportedFetchBlocks = 0,
      lastReportedRpcCalls = 0, lastStatsReportedTs = None\<rparr>"

definition set_first_ts :: "int \<Rightarrow> meta_state \<Rightarrow> meta_state" where
  "set_first_ts now s =
     (case lastStatsReportedTs s of None \<Rightarrow> s\<lparr>lastStatsReportedTs := Some now\<rparr> | Some _ \<Rightarrow> s)"

definition handleEnqueueBlocks :: "int \<Rightarrow> nat \<Rightarrow> meta_state \<Rightarrow> meta_state" where
  "handleEnqueueBlocks now n s = set_first_ts now (s\<lparr>accEnqueueBlocks := accEnqueueBlocks s + int n\<rparr>)"

definition handleFilteringBlocks :: "int \<Rightarrow> meta_state \<Rightarrow> meta_state" where
  "handleFilteringBlocks height s =
     (let s1 = s\<lparr>currentFilteringBlockNum := height\<rparr> in
      case lastStatsReportedTs s of None \<Rightarrow> s1\<lparr>lastReportedFilteringBlockNum := height\<rparr> | Some _ \<Rightarrow> s1)"

definition handleFetchBlock :: "int \<Rightarrow> meta_state \<Rightarrow> meta_state" where
  "handleFetchBlock now s = set_first_ts now (s\<lparr>accFetchBlocks := accFetchBlocks s + 1\<rparr>)"

definition handleRpcCall :: "int \<Rightarrow> meta_state \<Rightarrow> meta_state" where
  "handleRpcCall now s = set_first_ts now (s\<lparr>accRpcCalls := accRpcCalls s + 1\<rparr>)"

record meta_report =
  rep_count :: int
  rep_filteringCount :: int
  rep_rpcCalls :: int
  rep_fetchCount :: int
  rep_timepass :: int

text \<open>
  The timer: \<open>None\<close> when the profiler is off.  Reading the time of the last report throws while there has
  been none; the reset of \<open>lastReportedEnqueueBlocks\<close> stands before that read.
\<close>

definition blockFilteringSpeed :: "bool \<Rightarrow> int \<Rightarrow> (meta_state, meta_report option) io" where
  "blockFilteringSpeed profiler now s =
     (if \<not> profiler then (Inr None, s)
      else
        let count = accEnqueueBlocks s - lastReportedEnqueueBlocks s;
            s1 = s\<lparr>lastReportedEnqueueBlocks := accEnqueueBlocks s\<rparr>;
            filteringCount = currentFilteringBlockNum s1 - lastReportedFilteringBlockNum s1
        in case lastStatsReportedTs s1 of
             None \<Rightarrow> (Inl (type_error ''Cannot read properties of undefined (reading 'getTime')''), s1)
           | Some ts \<Rightarrow>
               let timepass = now - ts;
                   s2 = s1\<lparr>lastStatsReportedTs := Some now,
                            lastReportedFilteringBlockNum := currentFilteringBlockNum s1\<rparr>;
                   rpcCalls = accRpcCalls s2 - lastReportedRpcCalls s2;
                   s3 = s2\<lparr>lastReportedRpcCalls := accRpcCalls s2\<rparr>;
                   fetchCount = accFetchBlocks s3 - lastReportedFetchBlocks s3;
                   s4 = s3\<lparr>lastReportedFetchBlocks := accFetchBlocks s3\<rparr>
               in (Inr (Some \<lparr>rep_count = count, rep_filteringCount = filteringCount, rep_rpcCalls = rpcCalls,
                              rep_fetchCount = fetchCount, rep_timepass = timepass\<rparr>), s4))"

section \<open>Events and runs\<close>

datatype meta_event =
    EnqueueBlocks int nat
  | FilteringBlocks int
  | FetchBlock int
  | RpcCall int
  | Tick int

fun meta_step :: "bool \<Rightarrow> meta_event \<Rightarrow> meta_state \<Rightarrow> meta_state" where
  "meta_step prof (EnqueueBlocks now n) s = handleEnqueueBlocks now n s"
| "meta_step prof (FilteringBlocks h) s = handleFilteringBlocks h s"
| "meta_step prof (FetchBlock now) s = handleFetchBlock now s"
| "meta_step prof (RpcCall now) s = handleRpcCall now s"
| "meta_step prof (Tick now) s = snd (blockFilteringSpeed prof now s)"

definition meta_run :: "bool \<Rightarrow> meta_event list \<Rightarrow> meta_state" where
  "meta_run prof es = fold (meta_step prof) es meta_start"

lemmas meta_defs = handleEnqueueBlocks_def handleFilteringBlocks_def handleFetchBlock_def
  handleRpcCall_def blockFilteringSpeed_def set_first_ts_def

definition meta_inv :: "meta_state \<Rightarrow> bool" where
  "meta_inv s \<longleftrightarrow>
     0 \<le> lastReportedEnqueueBlocks s \<and> lastReportedEnqueueBlocks s \<le> accEnqueueBlocks s \<and>
     0 \<le> lastReportedFetchBlocks s \<and> lastReportedFetchBlocks s \<le> accFetchBlocks s \<and>
     0 \<le> lastReportedRpcCalls s \<and> lastReportedRpcCalls s \<le> accRpcCalls s \<and>
     (lastStatsReportedTs s = None \<longrightarrow>
        lastReportedFilteringBlockNum s = currentFilteringBlockNum s \<and>
        accFetchBlocks s = 0 \<and> accRpcCalls s = 0)"

lemma meta_step_inv: "meta_inv s \<Longrightarrow> meta_inv (meta_step prof e s)"
  by (cases e) (auto simp: meta_inv_def meta_defs Let_def split: option.splits)

interpretation meta: transition_system meta_start "meta_step prof" meta_inv
proof (unfold_locales, goal_cases)
  case 1
  show ?case by (simp add: meta_inv_def meta_start_def)
next
  case (2 s e)
  then show ?case by (rule meta_step_inv)
qed

lemma meta_run_inv: "meta_inv (meta_run prof es)"
  unfolding meta_run_def by (rule meta.ok_reachable)

text \<open>What the reports of a run add up to\<close>

fun tick_report :: "bool \<Rightarrow> meta_event \<Rightarrow> meta_state \<Rightarrow> meta_report option" where
  "tick_report prof (Tick now) s = (case fst (blockFilteringSpeed prof now s) of Inr r \<Rightarrow> r | Inl _ \<Rightarrow> None)"
| "tick_report prof _ s = None"

fun meta_reports :: "bool \<Rightarrow> meta_event list \<Rightarrow> meta_state \<Rightarrow> meta_report list" where
  "meta_reports prof [] s = []"
| "meta_reports prof (e # es) s =
     (case tick_report prof e s of Some r \<Rightarrow> [r] | None \<Rightarrow> []) @ meta_reports prof es (meta_step prof e s)"

lemma tick_report_delta:
  "lastReportedFetchBlocks (meta_step prof e s) = lastReportedFetchBlocks s +
     (case tick_report prof e s of Some r \<Rightarrow> rep_fetchCount r | None \<Rightarrow> 0)"
  "lastReportedRpcCalls (meta_step prof e s) = lastReportedRpcCalls s +
     (case tick_report prof e s of Some r \<Rightarrow> rep_rpcCalls r | None \<Rightarrow> 0)"
  by (cases e; simp add: meta_defs Let_def split: option.splits)+

lemma meta_reports_sum:
  "lastReportedFetchBlocks (fold (meta_step prof) es s) =
     lastReportedFetchBlocks s + sum_list (map rep_fetchCount (meta_reports prof es s))"
  "lastReportedRpcCalls (fold (meta_step prof) es s) =
     lastReportedRpcCalls s + sum_list (map rep_rpcCalls (meta_reports prof es s))"
  by (induction es arbitrary: s) (auto simp: tick_report_delta split: option.splits)

fun fetch_events :: "meta_event list \<Rightarrow> int" where
  "fetch_events [] = 0"
| "fetch_events (FetchBlock _ # es) = 1 + fetch_events es"
| "fetch_events (_ # es) = fetch_events es"

lemma accFetchBlocks_step:
  "accFetchBlocks (meta_step prof e s) = accFetchBlocks s + fetch_events [e]"
  by (cases e) (auto simp: meta_defs Let_def split: option.splits)

lemma fetch_events_Cons: "fetch_events (e # es) = fetch_events [e] + fetch_events es"
  by (cases e) simp_all

lemma accFetchBlocks_fold:
  "accFetchBlocks (fold (meta_step prof) es s) = accFetchBlocks s + fetch_events es"
proof (induction es arbitrary: s)
  case (Cons e es)
  then show ?case by (simp add: accFetchBlocks_step fetch_events_Cons [of e es])
qed simp

section \<open>Properties\<close>

text \<open>
  In every run the reported figures never exceed the accumulated ones, so no report of enqueued
  blocks, fetched blocks or RPC calls is negative.
\<close>

theorem meta_reports_nonnegative:
  assumes "fst (blockFilteringSpeed prof now (meta_run prof es)) = Inr (Some r)"
  shows "0 \<le> rep_count r \<and> 0 \<le> rep_fetchCount r \<and> 0 \<le> rep_rpcCalls r"
  using assms meta_run_inv [of prof es]
  by (auto simp: blockFilteringSpeed_def meta_inv_def Let_def split: if_splits option.splits)

theorem meta_reports_nonnegative_witness:
  "\<exists>r. fst (blockFilteringSpeed True 2000 (meta_run True [FetchBlock 0, FetchBlock 10, RpcCall 20])) = Inr (Some r) \<and>
     rep_fetchCount r = 2 \<and> 0 \<le> rep_count r"
proof -
  obtain r where r: "fst (blockFilteringSpeed True 2000 (meta_run True [FetchBlock 0, FetchBlock 10, RpcCall 20])) = Inr (Some r)"
    and "rep_fetchCount r = 2"
    by (simp add: meta_run_def meta_start_def meta_defs Let_def)
  with meta_reports_nonnegative [OF r] show ?thesis by blast
qed

text \<open>
  C38: no fetched block is lost or counted twice: over any run the reported fetch counts add up to the
  number of fetches up to the last report, and with those still unreported to all fetches.
\<close>

theorem meta_fetches_accounted:
  "sum_list (map rep_fetchCount (meta_reports prof es meta_start)) +
     (accFetchBlocks (meta_run prof es) - lastReportedFetchBlocks (meta_run prof es)) = fetch_events es"
  using meta_reports_sum(1) [of prof es meta_start] accFetchBlocks_fold [of prof es meta_start]
  by (simp add: meta_run_def) (simp add: meta_start_def)

definition starts_clock :: "meta_event \<Rightarrow> bool" where
  "starts_clock e = (case e of EnqueueBlocks _ _ \<Rightarrow> True | FetchBlock _ \<Rightarrow> True | RpcCall _ \<Rightarrow> True | _ \<Rightarrow> False)"

lemma clock_step: "lastStatsReportedTs (meta_step prof e s) = None \<longleftrightarrow> lastStatsReportedTs s = None \<and> \<not> starts_clock e"
  by (cases e) (auto simp: meta_defs starts_clock_def Let_def split: option.splits)

lemma clock_fold:
  "lastStatsReportedTs (fold (meta_step prof) es s) = None \<longleftrightarrow> lastStatsReportedTs s = None \<and> \<not> list_ex starts_clock es"
  by (induction es arbitrary: s) (auto simp: clock_step)

text \<open>
  C37: with the profiler on, the timer throws a \<open>TypeError\<close> exactly when no block was enqueued or fetched
  and no RPC call was made before it fires.
\<close>

theorem meta_tick_throws_iff:
  "(\<exists>m. fst (blockFilteringSpeed True now (meta_run prof es)) = Inl (type_error m)) \<longleftrightarrow> \<not> list_ex starts_clock es"
proof -
  have "lastStatsReportedTs (meta_run prof es) = None \<longleftrightarrow> \<not> list_ex starts_clock es"
    unfolding meta_run_def by (simp add: clock_fold) (simp add: meta_start_def)
  then show ?thesis
    by (auto simp: blockFilteringSpeed_def Let_def split: option.splits)
qed

end
