(* ===== verification/Json.thy ===== *)
theory Json
  imports ConcordiumTypes
begin

text \<open>
  \<open>JSON.stringify\<close> on the values a dictionary query is made of: strings, nested objects and arrays, and
  \<open>null\<close> and \<open>undefined\<close>.  The text determines the value up to what JSON cannot express, the
  members that are \<open>undefined\<close>; \<open>json_inj\<close> is the lemma on which the deduplication of
  queries rests.
\<close>

section \<open>Serialisation\<close>

datatype dict_value =
  VUndef | VNull | VStr string | VObj "(string \<times> dict_value) list" | VArr "dict_value list"

definition hex_digit :: "nat \<Rightarrow> char" where
  "hex_digit k = (if k < 10 then char_of (48 + k) else char_of (87 + k))"

abbreviation quote_char :: char where
  "quote_char \<equiv> CHR 0x22"

abbreviation backslash :: char where
  "backslash \<equiv> CHR 0x5C"

definition escape_char :: "char \<Rightarrow> string" where
  "escape_char c =
     (if c = quote_char \<or> c = backslash then [backslash, c]
      else if c = CHR 0x08 then [backslash, CHR ''b'']
      else if c = CHR 0x09 then [backslash, CHR ''t'']
      else if c = CHR 0x0A then [backslash, CHR ''n'']
      else if c = CHR 0x0C then [backslash, CHR ''f'']
      else if c = CHR 0x0D then [backslash, CHR ''r'']
      else if of_char c < (32 :: nat)
      then [backslash, CHR ''u'', CHR ''0'', CHR ''0'', hex_digit (of_char c div 16), hex_digit (of_char c mod 16)]
      else [c])"

definition json_quote :: "string \<Rightarrow> string" where
  "json_quote s = quote_char # concat (map escape_char s) @ [quote_char]"

fun join_commas :: "string list \<Rightarrow> string" where
  "join_commas [] = []"
| "join_commas [x] = x"
| "join_commas (x # y # zs) = x @ CHR '','' # join_commas (y # zs)"

text \<open>\<open>None\<close> is the result \<open>undefined\<close>\<close>

fun json_stringify :: "dict_value \<Rightarrow> string option" where
  "json_stringify VUndef = None"
| "json_stringify VNull = Some ''null''"
| "json_stringify (VStr s) = Some (json_quote s)"
| "json_stringify (VObj ms) =
     Some (''{'' @ join_commas (concat (map (\<lambda>(k, v).
       case json_stringify v of None \<Rightarrow> [] | Some t \<Rightarrow> [json_quote k @ CHR '':'' # t]) ms)) @ ''}'')"
| "json_stringify (VArr vs) =
     Some (''['' @ join_commas (map (\<lambda>v.
       case json_stringify v of None \<Rightarrow> ''null'' | Some t \<Rightarrow> t) vs) @ '']'')"

section \<open>Normal forms\<close>

datatype json_tree =
  TNull | TStr string | TObj "(string \<times> json_tree) list" | TArr "json_tree list"

fun normal :: "dict_value \<Rightarrow> json_tree option" where
  "normal VUndef = None"
| "normal VNull = Some TNull"
| "normal (VStr s) = Some (TStr s)"
| "normal (VObj ms) =
     Some (TObj (concat (map (\<lambda>(k, v). case normal v of None \<Rightarrow> [] | Some t \<Rightarrow> [(k, t)]) ms)))"
| "normal (VArr vs) = Some (TArr (map (\<lambda>v. case normal v of None \<Rightarrow> TNull | Some t \<Rightarrow> t) vs))"

fun json_text :: "json_tree \<Rightarrow> string" where
  "json_text TNull = ''null''"
| "json_text (TStr s) = json_quote s"
| "json_text (TObj ms) = ''{'' @ join_commas (map (\<lambda>(k, t). json_quote k @ CHR '':'' # json_text t) ms) @ ''}''"
| "json_text (TArr ts) = ''['' @ join_commas (map json_text ts) @ '']''"

lemma json_stringify_normal: "json_stringify v = map_option json_text (normal v)"
proof (induction v)
  case (VObj ms)
  have "map (\<lambda>(k, t). json_quote k @ CHR '':'' # json_text t)
      (concat (map (\<lambda>(k, v). case normal v of None \<Rightarrow> [] | Some t \<Rightarrow> [(k, t)]) ns))
    = concat (map (\<lambda>(k, v). case json_stringify v of None \<Rightarrow> [] | Some t \<Rightarrow> [json_quote k @ CHR '':'' # t]) ns)"
    if "set ns \<subseteq> set ms" for ns
    using that
  proof (induction ns)
    case (Cons n ns)
    with VObj [of n "snd n"] show ?case by (cases n) (auto split: option.splits)
  qed simp
  then show ?case by simp
next
  case (VArr vs)
  then show ?case by (auto intro!: arg_cong [where f = join_commas] split: option.split)
qed simp_all

section \<open>Self-delimiting codes\<close>

text \<open>
  An encoding whose texts can be told apart from what follows them; a list of texts ended by a mark that
  no text starts with is again one.
\<close>

locale prefix_code =
  fixes enc :: "'a \<Rightarrow> 'c list"
    and stop :: 'c
  assumes enc_prefix: "enc x @ r = enc y @ q \<Longrightarrow> x = y \<and> r = q"
    and enc_start: "enc x \<noteq> [] \<and> hd (enc x) \<noteq> stop"
begin

lemma concat_enc_inj:
  "concat (map enc xs) @ stop # r = concat (map enc ys) @ stop # q \<Longrightarrow> xs = ys \<and> r = q"
proof (induction xs arbitrary: ys)
  case Nil
  then show ?case
    using enc_start by (cases ys) (auto simp: Cons_eq_append_conv, metis list.sel(1))
next
  case (Cons x xs)
  show ?case
  proof (cases ys)
    case Nil
    with Cons.prems enc_start [of x] show ?thesis by (cases "enc x") auto
  next
    case (Cons y ys')
    with Cons.prems have "enc x @ (concat (map enc xs) @ stop # r) = enc y @ (concat (map enc ys') @ stop # q)"
      by simp
    from enc_prefix [OF this] Cons.IH [of ys'] Cons show ?thesis by blast
  qed
qed

end

section \<open>Strings\<close>

definition hex_value :: "char \<Rightarrow> nat" where
  "hex_value c = (let n = of_char c in if n < 58 then n - 48 else n - 87)"

definition unescape :: "string \<Rightarrow> char \<times> string" where
  "unescape t =
     (if hd t \<noteq> backslash then (hd t, tl t)
      else if t ! 1 = quote_char \<or> t ! 1 = backslash then (t ! 1, drop 2 t)
      else if t ! 1 = CHR ''b'' then (CHR 0x08, drop 2 t)
      else if t ! 1 = CHR ''t'' then (CHR 0x09, drop 2 t)
      else if t ! 1 = CHR ''n'' then (CHR 0x0A, drop 2 t)
      else if t ! 1 = CHR ''f'' then (CHR 0x0C, drop 2 t)
      else if t ! 1 = CHR ''r'' then (CHR 0x0D, drop 2 t)
      else (char_of (16 * hex_value (t ! 4) + hex_value (t ! 5)), drop 6 t))"

lemma hex_value_digit: "k < 16 \<Longrightarrow> hex_value (hex_digit k) = k"
  by (simp add: hex_value_def hex_digit_def Let_def)

lemma char_of_hex:
  assumes "of_char c < (32 :: nat)"
  shows "char_of (16 * hex_value (hex_digit (of_char c div 16)) + hex_value (hex_digit (of_char c mod 16))) = c"
proof -
  define n where "n = (of_char c :: nat)"
  have "n div 16 < 16" "n mod 16 < 16" "16 * (n div 16) + n mod 16 = n"
    using assms by (simp_all add: n_def [symmetric])
  then have "16 * hex_value (hex_digit (n div 16)) + hex_value (hex_digit (n mod 16)) = n"
    by (simp only: hex_value_digit)
  then show ?thesis by (simp add: n_def)
qed

lemma unescape_escape: "unescape (escape_char c @ r) = (c, r)"
  by (auto simp: escape_char_def unescape_def char_of_hex nth_Cons')

lemma escape_start: "escape_char c \<noteq> [] \<and> hd (escape_char c) \<noteq> quote_char"
  by (simp add: escape_char_def)

interpretation quoted: prefix_code escape_char quote_char
proof
  fix x y r q
  assume "escape_char x @ r = escape_char y @ q"
  then show "x = y \<and> r = q" using unescape_escape by (metis prod.inject)
qed (rule escape_start)

lemma json_quote_prefix: "json_quote s @ r = json_quote t @ q \<Longrightarrow> s = t \<and> r = q"
  using quoted.concat_enc_inj [of s r t q] by (simp add: json_quote_def)

section \<open>Injectivity\<close>

lemma json_text_start: "\<exists>c u. json_text t = c # u \<and> c \<in> {CHR ''n'', quote_char, CHR ''{'', CHR ''[''}"
  by (cases t) (auto simp: json_quote_def)

text \<open>Comma-separated texts that are closed by a mark none of them starts with\<close>

lemma join_commas_inj:
  fixes f :: "'a \<Rightarrow> string"
  assumes "\<And>x y r q. x \<in> set xs \<Longrightarrow> f x @ r = f y @ q \<Longrightarrow> x = y \<and> r = q"
    and "\<And>x. \<exists>c u. f x = c # u \<and> c \<noteq> close" and "close \<noteq> CHR '',''"
  shows "join_commas (map f xs) @ close # r = join_commas (map f ys) @ close # q \<Longrightarrow> xs = ys \<and> r = q"
  using assms(1)
proof (induction xs arbitrary: ys)
  case Nil
  have "join_commas (map f (y # zs)) @ close # q \<noteq> close # r" for y zs
    using assms(2) [of y] by (cases zs) auto
  then have "\<exists>y zs. ys = y # zs \<Longrightarrow> False" using Nil(1) by (metis join_commas.simps(1) append_Nil list.map(1))
  then have "ys = []" by (cases ys) auto
  with Nil(1) show ?case by simp
next
  case (Cons x xs)
  show ?case
  proof (cases ys)
    case Nil
    with Cons.prems(1) assms(2) [of x] show ?thesis by (cases xs) auto
  next
    case (Cons y ys')
    let ?tail = "\<lambda>zs w. (case zs of [] \<Rightarrow> close # w | _ \<Rightarrow> CHR '','' # join_commas (map f zs) @ close # w)"
    have split: "join_commas (map f (z # zs)) @ close # w = f z @ ?tail zs w" for z zs w
      by (cases zs) auto
    have "f x @ ?tail xs r = f y @ ?tail ys' q"
      using Cons.prems(1) unfolding Cons split .
    with Cons.prems(2) have tails: "x = y" "?tail xs r = ?tail ys' q" by auto
    have "xs = ys' \<and> r = q"
    proof (cases "xs = [] \<or> ys' = []")
      case True
      with tails(2) assms(3) show ?thesis by (simp split: list.splits)
    next
      case False
      with tails(2) have "join_commas (map f xs) @ close # r = join_commas (map f ys') @ close # q"
        by (simp split: list.splits)
      then show ?thesis by (rule Cons.IH) (rule Cons.prems(2), rule list.set_intros(2))
    qed
    with tails(1) Cons show ?thesis by simp
  qed
qed

lemma member_text_prefix:
  assumes "\<And>r q u. json_text t @ r = json_text u @ q \<Longrightarrow> t = u \<and> r = q"
    and "(case (k, t) of (k, t) \<Rightarrow> json_quote k @ CHR '':'' # json_text t) @ r =
         (case m of (k, t) \<Rightarrow> json_quote k @ CHR '':'' # json_text t) @ q"
  shows "(k, t) = m \<and> r = q"
proof -
  obtain k' t' where m: "m = (k', t')" by fastforce
  with assms(2) have "k = k' \<and> CHR '':'' # json_text t @ r = CHR '':'' # json_text t' @ q"
    by (intro json_quote_prefix) simp
  with assms(1) [of r t' q] m show ?thesis by simp
qed

lemma json_inj: "json_text t @ r = json_text u @ q \<Longrightarrow> t = u \<and> r = q"
proof (induction t arbitrary: u r q)
  case TNull
  then show ?case by (cases u) (auto simp: json_quote_def)
next
  case (TStr s)
  show ?case
  proof (cases u)
    case (TStr s')
    with TStr.prems json_quote_prefix [of s r s' q] show ?thesis by simp
  qed (use TStr.prems in \<open>simp_all add: json_quote_def\<close>)
next
  case (TObj ms)
  show ?case
  proof (cases u)
    case u: (TObj ns)
    have "ms = ns \<and> r = q"
    proof (rule join_commas_inj [where f = "\<lambda>(k, t). json_quote k @ CHR '':'' # json_text t" and close = "CHR ''}''"])
      fix x y r q
      assume "x \<in> set ms"
      assume eq: "(case x of (k, t) \<Rightarrow> json_quote k @ CHR '':'' # json_text t) @ r =
        (case y of (k, t) \<Rightarrow> json_quote k @ CHR '':'' # json_text t) @ q"
      have "snd x \<in> Basic_BNFs.snds x" by (cases x) simp
      note ih = TObj.IH [OF \<open>x \<in> set ms\<close> this]
      show "x = y \<and> r = q"
        using member_text_prefix [OF ih, of "fst x" r y q] eq by simp
    qed (use TObj.prems u in \<open>auto simp: json_quote_def\<close>)
    with u show ?thesis by simp
  qed (use TObj.prems in \<open>simp_all add: json_quote_def\<close>)
next
  case (TArr ts)
  show ?case
  proof (cases u)
    case u: (TArr us)
    have "ts = us \<and> r = q"
    proof (rule join_commas_inj [where f = json_text and close = "CHR '']''"])
      fix x show "\<exists>c u. json_text x = c # u \<and> c \<noteq> CHR '']''" using json_text_start [of x] by auto
    qed (use TArr u in auto)
    with u show ?thesis by simp
  qed (use TArr.prems in \<open>simp_all add: json_quote_def\<close>)
qed

text \<open>
  Two values have the same JSON text exactly when they agree after the members that are
  \<open>undefined\<close> are dropped and the \<open>undefined\<close> entries of arrays are read as \<open>null\<close>.
\<close>

lemma json_stringify_eq_iff: "json_stringify v = json_stringify w \<longleftrightarrow> normal v = normal w"
proof -
  have "json_text t = json_text u \<longleftrightarrow> t = u" for t u
    using json_inj [of t "[]" u "[]"] by auto
  then show ?thesis
    by (cases "normal v"; cases "normal w") (simp_all add: json_stringify_normal)
qed

end
