(* ===== verification/Dictionary.thy ===== *)
theory Dictionary
  imports Json BlockFilter
begin

text \<open>
  The queries an indexer sends to its dictionary, an index of which blocks hold which transactions and
  events (packages/node/src/indexer/dictionary/v1/dictionaryV1.ts): each handler with a filter
  contributes one query entry, a handler that cannot be filtered turns the dictionary off.

  lodash's \<open>setWith\<close>, \<open>sortBy\<close> and \<open>uniqBy\<close> are arguments.  Their documentation, as far as
  the code relies on it, is \<open>dict_lodash_ok\<close>: sorting returns a sorted rearrangement, \<open>uniqBy\<close> keeps of
  the entries with one key the first.
\<close>

section \<open>Query entries\<close>

record query_condition =
  c_field :: string
  c_value :: dict_value
  c_matcher :: string

record query_entry =
  q_entity :: string
  q_conditions :: "query_condition list"

record dict_lodash =
  l_setWith :: "dict_value \<Rightarrow> string \<Rightarrow> string \<Rightarrow> dict_value"
  l_sortBy :: "(query_condition \<Rightarrow> string) \<Rightarrow> query_condition list \<Rightarrow> query_condition list"
  l_uniqBy :: "(query_entry \<Rightarrow> string) \<Rightarrow> query_entry list \<Rightarrow> query_entry list"

fun string_value :: "string nullable \<Rightarrow> dict_value" where
  "string_value Undefined = VUndef"
| "string_value Null = VNull"
| "string_value (Given s) = VStr s"

definition type_condition :: "subql_filter \<Rightarrow> query_condition" where
  "type_condition filt = \<lparr>c_field = ''type'', c_value = string_value (f_type filt), c_matcher = ''equalTo''\<rparr>"

definition nested_values :: "dict_lodash \<Rightarrow> filter_values \<Rightarrow> dict_value" where
  "nested_values lo vs = fold (\<lambda>(key, v) nested. l_setWith lo nested key v) vs (VObj [])"

definition data_condition :: "dict_lodash \<Rightarrow> filter_values \<Rightarrow> query_condition" where
  "data_condition lo vs = \<lparr>c_field = ''data'', c_value = nested_values lo vs, c_matcher = ''contains''\<rparr>"

text \<open>\<open>Object.keys(null)\<close> throws\<close>

definition filter_conditions :: "dict_lodash \<Rightarrow> subql_filter \<Rightarrow> js_error + query_condition list" where
  "filter_conditions lo filt =
     (case f_values filt of
        Undefined \<Rightarrow> Inr [type_condition filt]
      | Null \<Rightarrow> Inl (type_error ''Cannot convert undefined or null to object'')
      | Given vs \<Rightarrow> Inr ([type_condition filt] @ [data_condition lo vs]))"

definition txFilterToQueryEntry :: "dict_lodash \<Rightarrow> subql_filter \<Rightarrow> js_error + query_entry" where
  "txFilterToQueryEntry lo filt =
     map_res (\<lambda>conditions. \<lparr>q_entity = ''transactions'', q_conditions = conditions\<rparr>) (filter_conditions lo filt)"

definition txEventFilterToQueryEntry :: "dict_lodash \<Rightarrow> subql_filter \<Rightarrow> js_error + query_entry" where
  "txEventFilterToQueryEntry lo filt =
     map_res (\<lambda>conditions. \<lparr>q_entity = ''txEvents'', q_conditions = conditions\<rparr>) (filter_conditions lo filt)"

definition speicalEventFilterToQueryEntry :: "dict_lodash \<Rightarrow> subql_filter \<Rightarrow> js_error + query_entry" where
  "speicalEventFilterToQueryEntry lo filt =
     map_res (\<lambda>conditions. \<lparr>q_entity = ''specialEvents'', q_conditions = conditions\<rparr>) (filter_conditions lo filt)"

section \<open>Scanning the handlers\<close>

text \<open>\<open>filter.type || filter.values\<close>, as a condition\<close>

definition has_criteria :: "subql_filter \<Rightarrow> bool" where
  "has_criteria filt \<longleftrightarrow> str_truthy (f_type filt) \<or> \<not> nullish (f_values filt)"

text \<open>
  The loops: \<open>None\<close> is the early \<open>return []\<close>, \<open>Some\<close> the entries pushed so far.
\<close>

fun scan_handlers ::
  "dict_lodash \<Rightarrow> subql_handler list \<Rightarrow> query_entry list \<Rightarrow> js_error + query_entry list option"
where
  "scan_handlers lo [] queryEntries = Inr (Some queryEntries)"
| "scan_handlers lo (handler # rest) queryEntries =
     (case h_filter handler of
        Given filt \<Rightarrow>
          (case kind_of_string (h_kind handler) of
             Some BlockKind \<Rightarrow>
               if f_modulo filt = Undefined then Inr None else scan_handlers lo rest queryEntries
           | Some TransactionKind \<Rightarrow>
               if has_criteria filt
               then bind_res (txFilterToQueryEntry lo filt) (\<lambda>e. scan_handlers lo rest (queryEntries @ [e]))
               else Inr None
           | Some TransactionEventKind \<Rightarrow>
               if has_criteria filt
               then bind_res (txEventFilterToQueryEntry lo filt) (\<lambda>e. scan_handlers lo rest (queryEntries @ [e]))
               else Inr None
           | Some SpecialEventKind \<Rightarrow>
               if has_criteria filt
               then bind_res (speicalEventFilterToQueryEntry lo filt) (\<lambda>e. scan_handlers lo rest (queryEntries @ [e]))
               else Inr None
           | None \<Rightarrow> scan_handlers lo rest queryEntries)
      | _ \<Rightarrow> Inr None)"

fun scan_datasources ::
  "dict_lodash \<Rightarrow> subql_datasource list \<Rightarrow> query_entry list \<Rightarrow> js_error + query_entry list option"
where
  "scan_datasources lo [] queryEntries = Inr (Some queryEntries)"
| "scan_datasources lo (ds # rest) queryEntries =
     bind_res (scan_handlers lo (m_handlers (ds_mapping ds)) queryEntries) (\<lambda>r.
       case r of None \<Rightarrow> Inr None | Some entries \<Rightarrow> scan_datasources lo rest entries)"

definition condition_value :: "query_condition \<Rightarrow> dict_value" where
  "condition_value c =
     VObj [(''field'', VStr (c_field c)), (''value'', c_value c), (''matcher'', VStr (c_matcher c))]"

definition query_key :: "dict_lodash \<Rightarrow> query_entry \<Rightarrow> string" where
  "query_key lo item = q_entity item @ ''|'' @
     (case json_stringify (VArr (map condition_value (l_sortBy lo c_field (q_conditions item)))) of
        Some t \<Rightarrow> t | None \<Rightarrow> ''undefined'')"

definition buildDictionaryQueryEntries ::
  "dict_lodash \<Rightarrow> subql_datasource list \<Rightarrow> js_error + query_entry list"
where
  "buildDictionaryQueryEntries lo dataSources =
     map_res (\<lambda>r. case r of None \<Rightarrow> [] | Some queryEntries \<Rightarrow> l_uniqBy lo (query_key lo) queryEntries)
       (scan_datasources lo dataSources [])"

section \<open>What the dictionary is asked\<close>

text \<open>
  The specification, handler by handler: what a handler asks for, \<open>Unfiltered\<close> when it needs every block.
\<close>

datatype demand = Unfiltered | Nothing | Malformed js_error | Asks query_entry

definition entity_of :: "ConcordiumHandlerKind \<Rightarrow> string" where
  "entity_of k = (case k of TransactionKind \<Rightarrow> ''transactions'' | TransactionEventKind \<Rightarrow> ''txEvents''
     | SpecialEventKind \<Rightarrow> ''specialEvents'' | BlockKind \<Rightarrow> '''')"

definition entry_for :: "dict_lodash \<Rightarrow> ConcordiumHandlerKind \<Rightarrow> subql_filter \<Rightarrow> js_error + query_entry" where
  "entry_for lo k filt =
     map_res (\<lambda>conditions. \<lparr>q_entity = entity_of k, q_conditions = conditions\<rparr>) (filter_conditions lo filt)"

definition demand_of :: "dict_lodash \<Rightarrow> subql_handler \<Rightarrow> demand" where
  "demand_of lo h =
     (case h_filter h of
        Given filt \<Rightarrow>
          (case kind_of_string (h_kind h) of
             None \<Rightarrow> Nothing
           | Some k \<Rightarrow>
               if k = BlockKind then (if f_modulo filt = Undefined then Unfiltered else Nothing)
               else if \<not> has_criteria filt then Unfiltered
               else (case entry_for lo k filt of Inl e \<Rightarrow> Malformed e | Inr q \<Rightarrow> Asks q))
      | _ \<Rightarrow> Unfiltered)"

fun collect_demands :: "demand list \<Rightarrow> query_entry list \<Rightarrow> js_error + query_entry list option" where
  "collect_demands [] acc = Inr (Some acc)"
| "collect_demands (Unfiltered # ds) acc = Inr None"
| "collect_demands (Nothing # ds) acc = collect_demands ds acc"
| "collect_demands (Malformed e # ds) acc = Inl e"
| "collect_demands (Asks q # ds) acc = collect_demands ds (acc @ [q])"

definition all_handlers :: "subql_datasource list \<Rightarrow> subql_handler list" where
  "all_handlers dss = concat (map (\<lambda>ds. m_handlers (ds_mapping ds)) dss)"

lemma entry_for_kinds:
  "entry_for lo TransactionKind = txFilterToQueryEntry lo"
  "entry_for lo TransactionEventKind = txEventFilterToQueryEntry lo"
  "entry_for lo SpecialEventKind = speicalEventFilterToQueryEntry lo"
  by (rule ext, simp add: entry_for_def entity_of_def txFilterToQueryEntry_def txEventFilterToQueryEntry_def
      speicalEventFilterToQueryEntry_def)+

lemma scan_handlers_demands: "scan_handlers lo hs acc = collect_demands (map (demand_of lo) hs) acc"
proof (induction hs arbitrary: acc)
  case (Cons h hs)
  show ?case
  proof (cases "h_filter h")
    case (Given filt)
    show ?thesis
    proof (cases "kind_of_string (h_kind h)")
      case (Some k)
      with Cons Given show ?thesis
        by (cases k; cases "entry_for lo k filt") (simp_all add: demand_of_def entry_for_kinds)
    qed (simp add: Given Cons demand_of_def)
  qed (simp_all add: demand_of_def)
qed simp

lemma collect_demands_append:
  "collect_demands (ds @ es) acc =
     bind_res (collect_demands ds acc) (\<lambda>r. case r of None \<Rightarrow> Inr None | Some acc' \<Rightarrow> collect_demands es acc')"
  by (induction ds acc rule: collect_demands.induct) simp_all

lemma scan_datasources_demands:
  "scan_datasources lo dss acc = collect_demands (map (demand_of lo) (all_handlers dss)) acc"
proof (induction dss arbitrary: acc)
  case (Cons ds dss)
  then have "scan_datasources lo dss = collect_demands (map (demand_of lo) (all_handlers dss))"
    by (intro ext)
  then show ?case
    by (simp add: all_handlers_def scan_handlers_demands collect_demands_append)
qed (simp add: all_handlers_def)

fun ends_scan :: "demand \<Rightarrow> bool" where
  "ends_scan Unfiltered = True"
| "ends_scan (Malformed e) = True"
| "ends_scan _ = False"

fun asked :: "demand \<Rightarrow> query_entry list" where
  "asked (Asks q) = [q]"
| "asked _ = []"

lemma collect_demands_eq:
  "collect_demands ds acc =
     (case find ends_scan ds of
        None \<Rightarrow> Inr (Some (acc @ concat (map asked ds)))
      | Some (Malformed e) \<Rightarrow> Inl e
      | Some _ \<Rightarrow> Inr None)"
  by (induction ds acc rule: collect_demands.induct) (auto split: option.splits demand.splits)

section \<open>Laws of the library functions\<close>

definition dict_lodash_ok :: "dict_lodash \<Rightarrow> bool" where
  "dict_lodash_ok lo \<longleftrightarrow>
     (\<forall>key cs. mset (l_sortBy lo key cs) = mset cs) \<and>
     (\<forall>key q qs. l_uniqBy lo key [] = [] \<and>
        l_uniqBy lo key (qs @ [q]) = l_uniqBy lo key qs @ (if key q \<in> key ` set qs then [] else [q]))"

lemma uniqBy_facts:
  assumes "dict_lodash_ok lo"
  shows "set (l_uniqBy lo key qs) \<subseteq> set qs"
    and "key ` set (l_uniqBy lo key qs) = key ` set qs"
    and "distinct (map key (l_uniqBy lo key qs))"
proof (induction qs rule: rev_induct)
  case Nil
  from assms show "set (l_uniqBy lo key []) \<subseteq> set []" "key ` set (l_uniqBy lo key []) = key ` set []"
    "distinct (map key (l_uniqBy lo key []))" by (simp_all add: dict_lodash_ok_def)
next
  case (snoc q qs)
  have step: "l_uniqBy lo key (qs @ [q]) = l_uniqBy lo key qs @ (if key q \<in> key ` set qs then [] else [q])"
    using assms by (simp add: dict_lodash_ok_def)
  show "set (l_uniqBy lo key (qs @ [q])) \<subseteq> set (qs @ [q])"
    using snoc(1) by (auto simp: step)
  show "key ` set (l_uniqBy lo key (qs @ [q])) = key ` set (qs @ [q])"
    using snoc(2) by (auto simp: step)
  show "distinct (map key (l_uniqBy lo key (qs @ [q])))"
    using snoc(2,3) by (auto simp: step)
qed

text \<open>The query an entry stands for, whatever the order of its conditions\<close>

definition query_meaning :: "query_entry \<Rightarrow> string \<times> (string \<times> json_tree option \<times> string) multiset" where
  "query_meaning q = (q_entity q,
     image_mset (\<lambda>c. (c_field c, normal (c_value c), c_matcher c)) (mset (q_conditions q)))"

lemma normal_condition:
  "normal (condition_value c) = normal (condition_value d) \<longleftrightarrow>
     (c_field c, normal (c_value c), c_matcher c) = (c_field d, normal (c_value d), c_matcher d)"
  by (auto simp: condition_value_def split: option.splits)

lemma normal_condition_Some: "\<exists>t. normal (condition_value c) = Some t"
  by (simp add: condition_value_def)

lemma normal_conditions:
  "normal (VArr (map condition_value cs)) = Some (TArr (map (\<lambda>c. the (normal (condition_value c))) cs))"
proof -
  have "(case normal (condition_value c) of None \<Rightarrow> TNull | Some t \<Rightarrow> t) = the (normal (condition_value c))" for c
    using normal_condition_Some [of c] by auto
  then show ?thesis by simp
qed

lemma entity_separates:
  assumes "e @ CHR ''|'' # x = e' @ CHR ''|'' # x'" and "CHR ''|'' \<notin> set e" and "CHR ''|'' \<notin> set e'"
  shows "e = e' \<and> x = x'"
  using assms by (induction e arbitrary: e') (auto simp: Cons_eq_append_conv append_eq_Cons_conv)

lemma map_eq_transfer:
  "map f xs = map f ys \<Longrightarrow> (\<And>c d. f c = f d \<Longrightarrow> g c = g d) \<Longrightarrow> map g xs = map g ys"
  unfolding list_eq_iff_nth_eq by (metis length_map nth_map)

lemma query_key_meaning:
  assumes "dict_lodash_ok lo" and "query_key lo q = query_key lo q'"
    and "CHR ''|'' \<notin> set (q_entity q)" and "CHR ''|'' \<notin> set (q_entity q')"
  shows "query_meaning q = query_meaning q'"
proof -
  let ?cs = "l_sortBy lo c_field (q_conditions q)" and ?cs' = "l_sortBy lo c_field (q_conditions q')"
  let ?v = "VArr (map condition_value ?cs)" and ?v' = "VArr (map condition_value ?cs')"
  obtain t t' where t: "json_stringify ?v = Some t" "json_stringify ?v' = Some t'" by simp
  with assms(2) have "q_entity q @ CHR ''|'' # t = q_entity q' @ CHR ''|'' # t'"
    by (simp only: query_key_def option.case append_Cons append_Nil)
  from entity_separates [OF this assms(3,4)] have eq: "q_entity q = q_entity q'" "t = t'" by simp_all
  with t have "json_stringify ?v = json_stringify ?v'" by simp
  then have "normal ?v = normal ?v'" by (simp only: json_stringify_eq_iff)
  then have "map (\<lambda>c. the (normal (condition_value c))) ?cs = map (\<lambda>c. the (normal (condition_value c))) ?cs'"
    by (simp only: normal_conditions option.inject json_tree.inject)
  then have "map (\<lambda>c. (c_field c, normal (c_value c), c_matcher c)) ?cs =
      map (\<lambda>c. (c_field c, normal (c_value c), c_matcher c)) ?cs'"
  proof (rule map_eq_transfer)
    fix c d assume "the (normal (condition_value c)) = the (normal (condition_value d))"
    moreover obtain s t where "normal (condition_value c) = Some s" "normal (condition_value d) = Some t"
      using normal_condition_Some by blast
    ultimately have "normal (condition_value c) = normal (condition_value d)" by simp
    then show "(c_field c, normal (c_value c), c_matcher c) = (c_field d, normal (c_value d), c_matcher d)"
      by (rule normal_condition [THEN iffD1])
  qed
  from arg_cong [where f = mset, OF this]
  have "image_mset (\<lambda>c. (c_field c, normal (c_value c), c_matcher c)) (mset ?cs) =
      image_mset (\<lambda>c. (c_field c, normal (c_value c), c_matcher c)) (mset ?cs')"
    by (simp only: mset_map)
  moreover have "mset ?cs = mset (q_conditions q)" "mset ?cs' = mset (q_conditions q')"
    using assms(1) by (simp_all add: dict_lodash_ok_def)
  ultimately show ?thesis using eq(1) by (simp add: query_meaning_def)
qed

lemma demand_entity: "demand_of lo h = Asks q \<Longrightarrow> CHR ''|'' \<notin> set (q_entity q)"
  by (auto simp: demand_of_def entry_for_def entity_of_def split: nullable.splits option.splits if_splits
      sum.splits ConcordiumHandlerKind.splits)

section \<open>Properties\<close>

text \<open>
  The dictionary queries of a project are determined handler by handler: the first handler that needs
  every block turns the dictionary off, the first whose filter values are \<open>null\<close> makes the scan throw, and
  otherwise the entries of all handlers, one for each distinct key, are the queries.
\<close>

theorem dictionary_demands:
  "buildDictionaryQueryEntries lo dss =
     (case find ends_scan (map (demand_of lo) (all_handlers dss)) of
        None \<Rightarrow> Inr (l_uniqBy lo (query_key lo) (concat (map (asked \<circ> demand_of lo) (all_handlers dss))))
      | Some (Malformed e) \<Rightarrow> Inl e
      | Some _ \<Rightarrow> Inr [])"
  by (simp add: buildDictionaryQueryEntries_def scan_datasources_demands collect_demands_eq split: option.split demand.split)

lemma build_Inr_nonempty:
  assumes "buildDictionaryQueryEntries lo dss = Inr es" and "es \<noteq> []"
  shows "find ends_scan (map (demand_of lo) (all_handlers dss)) = None"
    and "es = l_uniqBy lo (query_key lo) (concat (map (asked \<circ> demand_of lo) (all_handlers dss)))"
  using assms by (auto simp: dictionary_demands split: option.splits demand.splits)

lemma dictionary_represents:
  assumes "dict_lodash_ok lo" and "buildDictionaryQueryEntries lo dss = Inr es" and "es \<noteq> []"
  shows "(\<forall>h \<in> set (all_handlers dss). demand_of lo h \<noteq> Unfiltered \<and>
      (\<forall>q. demand_of lo h = Asks q \<longrightarrow> (\<exists>q' \<in> set es. query_meaning q' = query_meaning q))) \<and>
    (\<forall>q \<in> set es. \<exists>h \<in> set (all_handlers dss). demand_of lo h = Asks q) \<and>
    distinct (map (query_key lo) es)"
proof -
  let ?qs = "concat (map (asked \<circ> demand_of lo) (all_handlers dss))"
  note none = build_Inr_nonempty(1) [OF assms(2,3)] and es = build_Inr_nonempty(2) [OF assms(2,3)]
  have asked: "q \<in> set ?qs \<longleftrightarrow> (\<exists>h \<in> set (all_handlers dss). demand_of lo h = Asks q)" for q
  proof -
    have "q \<in> set (asked d) \<longleftrightarrow> d = Asks q" for d by (cases d) auto
    then show ?thesis by auto
  qed
  have "\<exists>q' \<in> set es. query_meaning q' = query_meaning q"
    if "h \<in> set (all_handlers dss)" and "demand_of lo h = Asks q" for h q
  proof -
    from that have "query_key lo q \<in> query_key lo ` set ?qs" using asked by blast
    then obtain q' where q': "q' \<in> set es" "query_key lo q' = query_key lo q"
      using uniqBy_facts(2) [OF assms(1), of "query_key lo" ?qs] unfolding es by (metis imageE)
    then have "q' \<in> set ?qs" using uniqBy_facts(1) [OF assms(1)] unfolding es by blast
    then have "CHR ''|'' \<notin> set (q_entity q')" using asked demand_entity by blast
    with q' query_key_meaning [OF assms(1)] demand_entity [OF that(2)] show ?thesis by blast
  qed
  moreover have "demand_of lo h \<noteq> Unfiltered" if "h \<in> set (all_handlers dss)" for h
    using none that by (auto simp: find_None_iff)
  moreover have "\<exists>h \<in> set (all_handlers dss). demand_of lo h = Asks q" if "q \<in> set es" for q
    using uniqBy_facts(1) [OF assms(1), of "query_key lo" ?qs] that asked unfolding es by blast
  moreover have "distinct (map (query_key lo) es)"
    unfolding es by (rule uniqBy_facts(3) [OF assms(1)])
  ultimately show ?thesis by blast
qed

text \<open>
  C12: when the dictionary is used, no handler needs every block, every handler's query is among the
  queries sent (the deduplication by JSON text never merges two that differ), and every query sent is some
  handler's.
\<close>

theorem dictionary_complete:
  assumes "dict_lodash_ok lo" and "buildDictionaryQueryEntries lo dss = Inr es" and "es \<noteq> []"
  shows "(\<forall>h \<in> set (all_handlers dss). demand_of lo h \<noteq> Unfiltered \<and>
      (\<forall>q. demand_of lo h = Asks q \<longrightarrow> (\<exists>q' \<in> set es. query_meaning q' = query_meaning q))) \<and>
    (\<forall>q \<in> set es. \<exists>h \<in> set (all_handlers dss). demand_of lo h = Asks q) \<and>
    distinct (map (query_key lo) es)"
  using dictionary_represents [OF assms] .

text \<open>Instances of the library functions, and a project with two handlers that ask for the same\<close>

fun set_member :: "dict_value \<Rightarrow> string \<Rightarrow> string \<Rightarrow> dict_value" where
  "set_member (VObj ms) k v = VObj (filter (\<lambda>m. fst m \<noteq> k) ms @ [(k, VStr v)])"
| "set_member t k v = t"

definition example_dict_lodash :: dict_lodash where
  "example_dict_lodash = \<lparr>l_setWith = set_member, l_sortBy = (\<lambda>key cs. rev cs),
     l_uniqBy = (\<lambda>key qs. fold (\<lambda>q us. if key q \<in> key ` set us then us else us @ [q]) qs [])\<rparr>"

lemma fold_uniq_keys:
  "key ` set (fold (\<lambda>q us. if key q \<in> key ` set us then us else us @ [q]) qs us) = key ` set us \<union> key ` set qs"
  by (induction qs arbitrary: us) auto

lemma example_dict_lodash_ok: "dict_lodash_ok example_dict_lodash"
proof -
  have "key q \<in> key ` set (fold (\<lambda>q us. if key q \<in> key ` set us then us else us @ [q]) qs []) \<longleftrightarrow> key q \<in> key ` set qs"
    for key :: "query_entry \<Rightarrow> string" and q qs
    using fold_uniq_keys [of key qs "[]"] by simp
  then show ?thesis by (simp add: dict_lodash_ok_def example_dict_lodash_def)
qed

definition example_handler :: "ConcordiumHandlerKind \<Rightarrow> subql_filter \<Rightarrow> subql_handler" where
  "example_handler k f = \<lparr>h_handler = ''handle'', h_kind = kind_string k, h_filter = Given f\<rparr>"

definition example_project_ds :: "subql_handler list \<Rightarrow> subql_datasource" where
  "example_project_ds hs = \<lparr>ds_name = Undefined, ds_kind = runtime_kind, ds_startBlock = Given 1,
     ds_mapping = \<lparr>m_file = ''./dist/index.js'', m_handlers = hs\<rparr>, ds_assets = Undefined, ds_processor = Undefined\<rparr>"

definition reward_filter :: subql_filter where
  "reward_filter = no_filter_fields\<lparr>f_type := Given ''blockReward''\<rparr>"

definition reward_query :: query_entry where
  "reward_query = \<lparr>q_entity = ''specialEvents'',
     q_conditions = [\<lparr>c_field = ''type'', c_value = VStr ''blockReward'', c_matcher = ''equalTo''\<rparr>]\<rparr>"

lemma reward_demand [simp]:
  "demand_of lo (example_handler SpecialEventKind reward_filter) = Asks reward_query"
  by (simp add: demand_of_def example_handler_def reward_filter_def no_filter_fields_def has_criteria_def
      entry_for_def filter_conditions_def entity_of_def type_condition_def reward_query_def del: kind_string.simps)

lemma reward_build:
  "buildDictionaryQueryEntries example_dict_lodash
     [example_project_ds (replicate 2 (example_handler SpecialEventKind reward_filter))] = Inr [reward_query]"
  by (simp add: buildDictionaryQueryEntries_def scan_datasources_demands all_handlers_def example_project_ds_def
      numeral_2_eq_2) (simp add: example_dict_lodash_def)

theorem dictionary_complete_witness:
  "\<exists>q' \<in> set [reward_query]. query_meaning q' = query_meaning reward_query"
proof -
  have "example_handler SpecialEventKind reward_filter \<in>
      set (all_handlers [example_project_ds (replicate 2 (example_handler SpecialEventKind reward_filter))])"
    by (simp add: all_handlers_def example_project_ds_def numeral_2_eq_2)
  with dictionary_complete [OF example_dict_lodash_ok reward_build] show ?thesis
    using reward_demand by blast
qed

text \<open>
  C33: a handler for transactions or events with a type and \<open>values: null\<close> makes the scan throw a
  \<open>TypeError\<close>, although the indexer's own filters take \<open>null\<close> for no condition.
\<close>

theorem dictionary_null_values_throw:
  assumes "all_handlers dss = pre @ h # post" and "\<not> list_ex (ends_scan \<circ> demand_of lo) pre"
    and "h_filter h = Given f" and "h_kind h \<in> kind_string ` {TransactionKind, TransactionEventKind, SpecialEventKind}"
    and "f_type f = Given t" and "t \<noteq> []" and "f_values f = Null"
  shows "buildDictionaryQueryEntries lo dss = Inl (type_error ''Cannot convert undefined or null to object'') \<and>
    (filterTransactionsProcessor tx (Given f) \<longleftrightarrow> tx_get tx ''type'' = JStr t)"
proof
  let ?e = "type_error ''Cannot convert undefined or null to object''"
  have "demand_of lo h = Malformed ?e"
    using assms(3-7) by (auto simp: demand_of_def has_criteria_def entry_for_def filter_conditions_def simp del: kind_string.simps)
  moreover have "find ends_scan (map (demand_of lo) pre @ ds) = find ends_scan ds" for ds
    using assms(2) by (induction pre) auto
  ultimately show "buildDictionaryQueryEntries lo dss = Inl ?e"
    by (simp add: dictionary_demands assms(1))
  show "filterTransactionsProcessor tx (Given f) \<longleftrightarrow> tx_get tx ''type'' = JStr t"
    using assms(5-7) by (simp add: filterTransactionsProcessor_def type_rejects_def)
qed

theorem dictionary_null_values_throw_witness:
  "buildDictionaryQueryEntries example_dict_lodash [example_project_ds
     [example_handler SpecialEventKind reward_filter, example_handler TransactionKind (reward_filter\<lparr>f_values := Null\<rparr>)]] =
   Inl (type_error ''Cannot convert undefined or null to object'')"
proof -
  let ?bad = "example_handler TransactionKind (reward_filter\<lparr>f_values := Null\<rparr>)"
  have "all_handlers [example_project_ds [example_handler SpecialEventKind reward_filter, ?bad]] =
      [example_handler SpecialEventKind reward_filter] @ ?bad # []"
    by (simp add: all_handlers_def example_project_ds_def)
  from dictionary_null_values_throw [OF this, of example_dict_lodash "reward_filter\<lparr>f_values := Null\<rparr>" "''blockReward''"
      "ConcordiumTx [] None"]
  show ?thesis by (simp del: kind_string.simps) (simp add: example_handler_def reward_filter_def)
qed

definition without_custom :: "subql_datasource \<Rightarrow> subql_datasource" where
  "without_custom ds = ds\<lparr>ds_mapping := (ds_mapping ds)\<lparr>m_handlers :=
     filter (\<lambda>h. \<not> (isCustomHandler h \<and> \<not> nullish (h_filter h))) (m_handlers (ds_mapping ds))\<rparr>\<rparr>"

text \<open>
  A handler of a custom kind contributes nothing to the queries: a project with such handlers, which
  have a filter, gets the queries it would get without them, so a block that only they would want is not
  asked for.
\<close>

theorem dictionary_ignores_custom_handlers:
  "buildDictionaryQueryEntries lo (map without_custom dss) = buildDictionaryQueryEntries lo dss"
proof -
  let ?P = "\<lambda>h. \<not> (isCustomHandler h \<and> \<not> nullish (h_filter h))"
  have handlers: "all_handlers (map without_custom dss) = filter ?P (all_handlers dss)"
    by (simp add: all_handlers_def without_custom_def filter_concat comp_def)
  have "demand_of lo h = Nothing" if "\<not> ?P h" for h
    using that by (cases "h_filter h"; cases "kind_of_string (h_kind h)")
      (auto simp: demand_of_def isCustomHandler_def isBaseHandler_iff kind_of_string_Some)
  then have "collect_demands (map (demand_of lo) (filter ?P hs)) acc = collect_demands (map (demand_of lo) hs) acc" for hs acc
  proof (induction hs arbitrary: acc)
    case (Cons h hs)
    then show ?case by (cases "demand_of lo h") (auto simp del: de_Morgan_conj)
  qed simp
  then show ?thesis
    by (simp only: buildDictionaryQueryEntries_def scan_datasources_demands handlers)
qed

end
