(* ===== verification/Manifest.thy ===== *)
theory Manifest
  imports ConcordiumTypes
begin

text \<open>
  Project manifests (packages/common-concordium/src/project): choosing the implementation for a spec
  version (versioned/ProjectManifestVersioned.ts, load.ts), and the transformations that bring a raw
  manifest into shape, those of handlers (models.ts) and of the network of a deployment
  (versioned/v1_0_0/model.ts).

  class-transformer's \<open>plainToClass\<close>, class-validator's \<open>validateSync\<close> and the base class of
  @subql/common are arguments.  A network is the property bag of the manifest, on which \<open>props_set\<close>,
  \<open>props_delete\<close> and \<open>props_spread\<close> are assignment, \<open>delete\<close> and \<open>{...a, ...b}\<close>.
\<close>

section \<open>Property bags\<close>

fun js_truthy :: "jsval \<Rightarrow> bool" where
  "js_truthy JUndef = False"
| "js_truthy JNull = False"
| "js_truthy (JBool b) = b"
| "js_truthy (JNum x) = num_truthy x"
| "js_truthy (JBig n) = (n \<noteq> 0)"
| "js_truthy (JStr s) = (s \<noteq> [])"
| "js_truthy _ = True"

fun props_set :: "string \<Rightarrow> jsval \<Rightarrow> props \<Rightarrow> props" where
  "props_set k v [] = [(k, v)]"
| "props_set k v ((k', v') # ps) = (if k = k' then (k, v) # ps else (k', v') # props_set k v ps)"

definition props_delete :: "string \<Rightarrow> props \<Rightarrow> props" where
  "props_delete k ps = filter (\<lambda>p. fst p \<noteq> k) ps"

definition props_spread :: "props \<Rightarrow> props \<Rightarrow> props" where
  "props_spread ps qs = fold (\<lambda>(k, v). props_set k v) qs ps"

lemma map_of_props_set [simp]: "map_of (props_set k v ps) = (map_of ps)(k \<mapsto> v)"
  by (induction k v ps rule: props_set.induct) (auto simp: fun_upd_twist)

lemma map_of_props_delete [simp]: "map_of (props_delete k ps) = (map_of ps)(k := None)"
  by (induction ps) (auto simp: props_delete_def)

lemma map_of_props_spread: "map_of (props_spread ps qs) k = (case map_of (rev qs) k of Some v \<Rightarrow> Some v | None \<Rightarrow> map_of ps k)"
  by (induction qs arbitrary: ps) (auto simp: props_spread_def map_add_def split: option.splits)

lemma obj_member_set: "obj_member (props_set k v ps) k' = (if k' = k then v else obj_member ps k')"
  by (simp add: obj_member_def)

lemma obj_member_delete: "obj_member (props_delete k ps) k' = (if k' = k then proto_member k else obj_member ps k')"
  by (simp add: obj_member_def)

section \<open>Handlers\<close>

datatype handler_class =
  BlockHandlerClass | TransactionHandlerClass | TransactionEventHandlerClass | SpecialEventHandlerClass

fun kind_class :: "ConcordiumHandlerKind \<Rightarrow> handler_class" where
  "kind_class BlockKind = BlockHandlerClass"
| "kind_class TransactionKind = TransactionHandlerClass"
| "kind_class TransactionEventKind = TransactionEventHandlerClass"
| "kind_class SpecialEventKind = SpecialEventHandlerClass"

text \<open>The \<open>switch\<close> of \<open>ConcordiumMapping\<close>, with its cases in order\<close>

definition transform_handler :: "(handler_class \<Rightarrow> subql_handler \<Rightarrow> 'h) \<Rightarrow> subql_handler \<Rightarrow> js_error + 'h" where
  "transform_handler plainToClass handler =
     (if h_kind handler = kind_string SpecialEventKind then Inr (plainToClass SpecialEventHandlerClass handler)
      else if h_kind handler = kind_string TransactionEventKind then Inr (plainToClass TransactionEventHandlerClass handler)
      else if h_kind handler = kind_string TransactionKind then Inr (plainToClass TransactionHandlerClass handler)
      else if h_kind handler = kind_string BlockKind then Inr (plainToClass BlockHandlerClass handler)
      else Inl (plain_error (''handler '' @ h_kind handler @ '' not supported'')))"

definition transform_handlers ::
  "(handler_class \<Rightarrow> subql_handler \<Rightarrow> 'h) \<Rightarrow> subql_handler list \<Rightarrow> js_error + 'h list"
where
  "transform_handlers plainToClass handlers = traverse (transform_handler plainToClass) handlers"

section \<open>Validation\<close>

text \<open>\<open>validateObject\<close>: \<open>validate\<close> stands for \<open>validateSync(object, options)\<close>, each error as its text\<close>

fun join_lines :: "string list \<Rightarrow> string" where
  "join_lines [] = []"
| "join_lines [x] = x"
| "join_lines (x # y # zs) = x @ CHR 0x0A # join_lines (y # zs)"

definition validateObject :: "('o \<Rightarrow> string list) \<Rightarrow> 'o \<Rightarrow> string \<Rightarrow> js_error + unit" where
  "validateObject validate object errorMessage =
     (let errors = validate object in
      if errors \<noteq> [] then Inl (plain_error (errorMessage @ CHR 0x0A # join_lines errors)) else Inr ())"

definition runtime_validate :: "('o \<Rightarrow> string list) \<Rightarrow> 'o \<Rightarrow> js_error + unit" where
  "runtime_validate validate this = validateObject validate this ''failed to validate runtime datasource.''"

definition custom_validate :: "('o \<Rightarrow> string list) \<Rightarrow> 'o \<Rightarrow> js_error + unit" where
  "custom_validate validate this = validateObject validate this ''failed to validate custom datasource.''"

definition node_names :: "string list" where
  "node_names = [''@subql/node-concordium'', ''@subql/node-flare'']"

section \<open>The network of a deployment\<close>

definition trim_chainId :: "jsval \<Rightarrow> js_error + jsval" where
  "trim_chainId v =
     (case v of
        JStr s \<Rightarrow> Inr (JStr (js_trim s))
      | JUndef \<Rightarrow> Inl (type_error ''Cannot read properties of undefined (reading 'trim')'')
      | JNull \<Rightarrow> Inl (type_error ''Cannot read properties of null (reading 'trim')'')
      | _ \<Rightarrow> Inl (type_error ''value.trim is not a function''))"

definition deployment_network :: "props \<Rightarrow> props" where
  "deployment_network value =
     (if js_truthy (obj_member value ''genesisHash'') \<and> \<not> js_truthy (obj_member value ''chainId'')
      then props_set ''chainId'' (obj_member value ''genesisHash'') value else value)"

definition deployment_chainId :: "props \<Rightarrow> js_error + jsval" where
  "deployment_chainId value = trim_chainId (obj_member (deployment_network value) ''chainId'')"

section \<open>Versions\<close>

text \<open>
  The implementation of a manifest, as what the program reads of it.  \<open>Supported\<close> is the class in the
  table of versions, \<open>Inherited\<close> a member of \<open>Object.prototype\<close> that the lookup by a string can find.
\<close>

record 'd manifest_impl =
  mi_specVersion :: string
  mi_description :: "string nullable"
  mi_repository :: "string nullable"
  mi_network :: props
  mi_schema_file :: string
  mi_dataSources :: "subql_datasource list"
  mi_templates :: "subql_datasource list nullable"
  mi_runner_node_version :: string
  mi_parent :: jsval
  mi_deployment :: 'd

datatype impl_class = Supported | Inherited string

definition supported_versions :: "string list" where
  "supported_versions = [''1.0.0'']"

definition version_class :: "string \<Rightarrow> impl_class option" where
  "version_class v =
     (if v \<in> set supported_versions then Some Supported
      else if js_truthy (proto_member v) then Some (Inherited v) else None)"

record 'd versioned_manifest =
  vm_impl :: "'d manifest_impl"

definition new_versioned ::
  "(impl_class \<Rightarrow> 'raw \<Rightarrow> js_error + 'd manifest_impl) \<Rightarrow> ('raw \<Rightarrow> string) \<Rightarrow> 'raw \<Rightarrow> js_error + 'd versioned_manifest"
where
  "new_versioned plainToClass specVersionOf projectManifest =
     (case version_class (specVersionOf projectManifest) of
        None \<Rightarrow> Inl (plain_error ''specVersion not supported for project manifest file'')
      | Some klass \<Rightarrow> map_res (\<lambda>impl. \<lparr>vm_impl = impl\<rparr>) (plainToClass klass projectManifest))"

definition asImpl :: "'d versioned_manifest \<Rightarrow> 'd manifest_impl" where
  "asImpl this = vm_impl this"

definition specVersion :: "'d versioned_manifest \<Rightarrow> string" where
  "specVersion this = mi_specVersion (vm_impl this)"

definition isV1_0_0 :: "'d versioned_manifest \<Rightarrow> bool" where
  "isV1_0_0 this \<longleftrightarrow> specVersion this = ''1.0.0''"

definition asV1_0_0 :: "'d versioned_manifest \<Rightarrow> 'd manifest_impl" where
  "asV1_0_0 this = vm_impl this"

definition manifestIsV1_0_0 :: "'d manifest_impl \<Rightarrow> bool" where
  "manifestIsV1_0_0 manifest \<longleftrightarrow> mi_specVersion manifest = ''1.0.0''"

definition toDeployment :: "('d \<Rightarrow> js_error + string nullable) \<Rightarrow> 'd versioned_manifest \<Rightarrow> js_error + string nullable" where
  "toDeployment toYaml this = toYaml (mi_deployment (vm_impl this))"

definition versioned_validate :: "('d manifest_impl \<Rightarrow> js_error + unit) \<Rightarrow> 'd versioned_manifest \<Rightarrow> js_error + unit" where
  "versioned_validate validate this = validate (vm_impl this)"

definition versioned_dataSources :: "'d versioned_manifest \<Rightarrow> subql_datasource list" where
  "versioned_dataSources this = mi_dataSources (vm_impl this)"

definition versioned_schema :: "'d versioned_manifest \<Rightarrow> string" where
  "versioned_schema this = mi_schema_file (vm_impl this)"

definition versioned_description :: "'d versioned_manifest \<Rightarrow> string nullable" where
  "versioned_description this = mi_description (vm_impl this)"

definition versioned_repository :: "'d versioned_manifest \<Rightarrow> string nullable" where
  "versioned_repository this = mi_repository (vm_impl this)"

definition parseConcordiumProjectManifest ::
  "(impl_class \<Rightarrow> 'raw \<Rightarrow> js_error + 'd manifest_impl) \<Rightarrow> ('raw \<Rightarrow> string) \<Rightarrow> ('d manifest_impl \<Rightarrow> js_error + unit) \<Rightarrow>
   'raw \<Rightarrow> js_error + 'd versioned_manifest"
where
  "parseConcordiumProjectManifest plainToClass specVersionOf validate raw =
     bind_res (new_versioned plainToClass specVersionOf raw) (\<lambda>projectManifest.
     map_res (\<lambda>_. projectManifest) (versioned_validate validate projectManifest))"

section \<open>Properties\<close>

lemma transform_handler_kind:
  "transform_handler plainToClass h =
     (case kind_of_string (h_kind h) of
        Some k \<Rightarrow> Inr (plainToClass (kind_class k) h)
      | None \<Rightarrow> Inl (plain_error (''handler '' @ h_kind h @ '' not supported'')))"
proof (cases "kind_of_string (h_kind h)")
  case None
  then have "h_kind h \<noteq> kind_string k" for k using kind_of_kind_string [of k] by (auto simp del: kind_of_kind_string)
  with None show ?thesis by (simp add: transform_handler_def del: kind_string.simps)
next
  case (Some k)
  then have "h_kind h = kind_string k" by (simp add: kind_of_string_Some)
  with Some show ?thesis by (cases k) (simp_all add: transform_handler_def del: kind_string.simps)
qed

text \<open>
  C39: the handlers of a runtime mapping become instances of the class of their kind, in order, when all
  kinds are known; otherwise the first handler of another kind makes the transformation throw, naming
  that kind.
\<close>

theorem transform_handlers_spec:
  "transform_handlers plainToClass hs =
     (case find isCustomHandler hs of
        None \<Rightarrow> Inr (map (\<lambda>h. plainToClass (kind_class (the (kind_of_string (h_kind h)))) h) hs)
      | Some h \<Rightarrow> Inl (plain_error (''handler '' @ h_kind h @ '' not supported'')))"
  unfolding transform_handlers_def
proof (induction hs)
  case (Cons h hs)
  show ?case
  proof (cases "kind_of_string (h_kind h)")
    case None
    then have "isCustomHandler h"
      by (auto simp: isCustomHandler_def isBaseHandler_iff)
    with None show ?thesis by (simp add: transform_handler_kind)
  next
    case (Some k)
    then have "\<not> isCustomHandler h"
      by (auto simp: isCustomHandler_def isBaseHandler_iff kind_of_string_Some)
    with Some Cons.IH show ?thesis by (simp add: transform_handler_kind split: option.split)
  qed
qed simp

text \<open>
  C40: a raw manifest is accepted only if its spec version is 1.0.0 and its implementation validates; any
  other version is refused before the manifest is looked at, unless it is the name of a member every
  JavaScript object inherits, which the lookup takes for a supported version.
\<close>

theorem parse_manifest_versions:
  "(specVersionOf raw = ''1.0.0'' \<longrightarrow>
      parseConcordiumProjectManifest plainToClass specVersionOf validate raw =
        bind_res (plainToClass Supported raw) (\<lambda>impl. map_res (\<lambda>_. \<lparr>vm_impl = impl\<rparr>) (validate impl))) \<and>
   (specVersionOf raw \<noteq> ''1.0.0'' \<and> specVersionOf raw \<notin> set object_prototype_methods \<union> {''__proto__''} \<longrightarrow>
      parseConcordiumProjectManifest plainToClass specVersionOf validate raw =
        Inl (plain_error ''specVersion not supported for project manifest file'')) \<and>
   version_class ''toString'' = Some (Inherited ''toString'')"
proof -
  have "proto_member k = JUndef" if "k \<notin> set object_prototype_methods \<union> {''__proto__''}" for k
    using that by (simp add: proto_member_def)
  moreover have "version_class ''1.0.0'' = Some Supported" "version_class ''toString'' = Some (Inherited ''toString'')"
    by (simp_all add: version_class_def supported_versions_def proto_member_def object_prototype_methods_def)
  moreover have "version_class k = None" if "k \<noteq> ''1.0.0''" "proto_member k = JUndef" for k
    using that by (simp add: version_class_def supported_versions_def)
  ultimately show ?thesis
    by (cases "plainToClass Supported raw")
      (auto simp: parseConcordiumProjectManifest_def new_versioned_def versioned_validate_def)
qed

definition refuse_all :: "impl_class \<Rightarrow> string \<Rightarrow> js_error + unit manifest_impl" where
  "refuse_all klass raw = Inl (type_error ''not a constructor'')"

theorem parse_manifest_versions_witness:
  "parseConcordiumProjectManifest refuse_all id (\<lambda>_. Inr ()) ''0.2.0'' =
     Inl (plain_error ''specVersion not supported for project manifest file'')"
  using parse_manifest_versions [where raw = "''0.2.0''" and specVersionOf = id
      and plainToClass = refuse_all and validate = "\<lambda>_. Inr ()"]
  by (simp add: object_prototype_methods_def)

end
