(* ===== verification/Project.thy ===== *)
theory Project
  imports Manifest
begin

text \<open>
  Loading a project (packages/node/src/configure/SubqueryProject.ts): from a raw manifest and the options
  of the command line to the project the services share.

  The reader of files, the GraphQL parser, the semantic-version test and the loaders of datasources and
  templates are third-party: the fields of \<open>loader\<close>, with the conversion of a value to a
  string that an error message uses.  \<open>'schema\<close> is the parsed schema.  The state \<open>'s\<close> is
  whatever they act on.
\<close>

section \<open>The project\<close>

record 'schema subquery_project =
  sp_id :: string
  sp_root :: string
  sp_network :: props
  sp_dataSources :: "subql_datasource list"
  sp_schema :: 'schema
  sp_templates :: "subql_datasource list"
  sp_runner_node_version :: string
  sp_parent :: jsval

record ('s, 'schema) loader =
  ld_getFile :: "string \<Rightarrow> ('s, string) io"
  ld_root :: string
  ld_buildSchema :: "string \<Rightarrow> js_error + 'schema"
  ld_updateDataSources :: "subql_datasource list \<Rightarrow> string \<Rightarrow> (subql_datasource \<Rightarrow> bool) \<Rightarrow> ('s, subql_datasource list) io"
  ld_loadTemplates :: "subql_datasource list nullable \<Rightarrow> string \<Rightarrow> (subql_datasource \<Rightarrow> bool) \<Rightarrow> ('s, subql_datasource list) io"
  ld_validateSemver :: "string \<Rightarrow> string \<Rightarrow> bool"
  ld_packageVersion :: string
  ld_text :: "jsval \<Rightarrow> string"

definition processChainId :: "props \<Rightarrow> js_error + props" where
  "processChainId network =
     (if js_truthy (obj_member network ''chainId'') \<and> js_truthy (obj_member network ''genesisHash'')
      then Inl (plain_error ''Please only provide one of chainId and genesisHash'')
      else
        let network' = (if js_truthy (obj_member network ''genesisHash'') \<and> \<not> js_truthy (obj_member network ''chainId'')
                        then props_set ''chainId'' (obj_member network ''genesisHash'') network else network)
        in Inr (props_delete ''genesisHash'' network'))"

text \<open>A single endpoint given as a string becomes a list of one\<close>

definition listed_endpoint :: "props \<Rightarrow> props" where
  "listed_endpoint network =
     (case obj_member network ''endpoint'' of
        JStr e \<Rightarrow> props_set ''endpoint'' (JArr 0 [JStr e]) network
      | _ \<Rightarrow> network)"

definition loadProjectFromManifestBase ::
  "('s, 'schema) loader \<Rightarrow> 'd manifest_impl \<Rightarrow> string \<Rightarrow> string \<Rightarrow> props \<Rightarrow> ('s, 'schema subquery_project) io"
where
  "loadProjectFromManifestBase ld projectManifest path root networkOverrides =
     bind_io (lift_io (processChainId (props_spread (listed_endpoint (mi_network projectManifest)) networkOverrides)))
       (\<lambda>network.
       if \<not> js_truthy (obj_member network ''endpoint'')
       then throw_io (plain_error (''Network endpoint must be provided for network. chainId=\"''
              @ ld_text ld (obj_member network ''chainId'') @ ''\"''))
       else
         bind_io (catch_io (ld_getFile ld (mi_schema_file projectManifest))
           (\<lambda>e. throw_io (plain_error (''unable to fetch the schema from '' @ mi_schema_file projectManifest))))
           (\<lambda>schemaString.
         bind_io (lift_io (ld_buildSchema ld schemaString)) (\<lambda>schema.
         bind_io (ld_updateDataSources ld (mi_dataSources projectManifest) root isCustomDs) (\<lambda>dataSources.
         bind_io (ld_loadTemplates ld (mi_templates projectManifest) root isCustomDs) (\<lambda>templates.
         if \<not> ld_validateSemver ld (ld_packageVersion ld) (mi_runner_node_version projectManifest)
         then throw_io (plain_error (''Runner require node version '' @ mi_runner_node_version projectManifest
                @ '', current node '' @ ld_packageVersion ld))
         else return_io
           \<lparr>sp_id = (if ld_root ld \<noteq> [] then ld_root ld else path), sp_root = root, sp_network = network,
            sp_dataSources = dataSources, sp_schema = schema, sp_templates = templates,
            sp_runner_node_version = mi_runner_node_version projectManifest, sp_parent = mi_parent projectManifest\<rparr>)))))"

text \<open>\<open>None\<close> is the raw manifest \<open>undefined\<close>; \<open>parse\<close> is \<open>parseConcordiumProjectManifest\<close>\<close>

definition NOT_SUPPORT :: "string \<Rightarrow> ('s, 'a) io" where
  "NOT_SUPPORT name = throw_io (plain_error (''Manifest specVersion '' @ name @ '' is not supported''))"

definition create_project ::
  "('s, 'schema) loader \<Rightarrow> ('raw \<Rightarrow> js_error + 'd versioned_manifest) \<Rightarrow> string \<Rightarrow> 'raw option \<Rightarrow> string \<Rightarrow> props \<Rightarrow>
   ('s, 'schema subquery_project) io"
where
  "create_project ld parse path rawManifest root networkOverrides =
     (case rawManifest of
        None \<Rightarrow> throw_io (plain_error (''Get manifest from project path '' @ path @ '' failed''))
      | Some raw \<Rightarrow>
          bind_io (lift_io (parse raw)) (\<lambda>manifest.
            if isV1_0_0 manifest
            then loadProjectFromManifestBase ld (asV1_0_0 manifest) path root networkOverrides
            else NOT_SUPPORT (specVersion manifest)))"

definition project_dataSources :: "'schema subquery_project \<Rightarrow> subql_datasource list" where
  "project_dataSources this = sp_dataSources this"

text \<open>\<open>insertCron\<close> is \<open>insertBlockFiltersCronSchedules\<close> of @subql/node-core.\<close>

definition applyCronTimestamps ::
  "(subql_datasource list \<Rightarrow> (jsnum \<Rightarrow> ('s, int) io) \<Rightarrow> (subql_datasource \<Rightarrow> bool) \<Rightarrow> string \<Rightarrow> ('s, subql_datasource list) io) \<Rightarrow>
   (jsnum \<Rightarrow> ('s, int) io) \<Rightarrow> 'schema subquery_project \<Rightarrow> ('s, 'schema subquery_project) io"
where
  "applyCronTimestamps insertCron getTimestamp this =
     bind_io (insertCron (project_dataSources this) getTimestamp isRuntimeDs (kind_string BlockKind)) (\<lambda>dataSources.
       return_io (this\<lparr>sp_dataSources := dataSources\<rparr>))"

section \<open>Networks\<close>

definition chain_of :: "props \<Rightarrow> jsval" where
  "chain_of network = obj_member network ''chainId''"

lemma proto_plain [simp]:
  "proto_member ''chainId'' = JUndef" "proto_member ''genesisHash'' = JUndef" "proto_member ''endpoint'' = JUndef"
  by (simp_all add: proto_member_def object_prototype_methods_def)

lemma processChainId_Inr:
  assumes "processChainId network = Inr network'"
  shows "obj_member network' ''genesisHash'' = JUndef"
    and "k \<notin> {''chainId'', ''genesisHash''} \<Longrightarrow> obj_member network' k = obj_member network k"
    and "chain_of network' = (if js_truthy (obj_member network ''genesisHash'')
           then obj_member network ''genesisHash'' else chain_of network)"
  using assms
  by (auto simp: processChainId_def chain_of_def Let_def obj_member_set obj_member_delete split: if_splits)

section \<open>Properties\<close>

text \<open>
  A network with both a chain id and a genesis hash is refused; otherwise the project's network has
  no genesis hash, its chain id is the genesis hash when that was given and the chain id when not, and
  everything else is as it was.  A second pass changes nothing.
\<close>

theorem processChainId_spec:
  "(case processChainId network of
      Inl e \<Rightarrow> js_truthy (chain_of network) \<and> js_truthy (obj_member network ''genesisHash'') \<and>
        e = plain_error ''Please only provide one of chainId and genesisHash''
    | Inr network' \<Rightarrow> \<not> (js_truthy (chain_of network) \<and> js_truthy (obj_member network ''genesisHash'')) \<and>
        obj_member network' ''genesisHash'' = JUndef \<and>
        chain_of network' = (if js_truthy (obj_member network ''genesisHash'')
          then obj_member network ''genesisHash'' else chain_of network) \<and>
        (\<forall>k. k = ''chainId'' \<or> k = ''genesisHash'' \<or> obj_member network' k = obj_member network k) \<and>
        processChainId network' = Inr network')"
proof (cases "processChainId network")
  case (Inl e)
  then show ?thesis by (auto simp: processChainId_def chain_of_def Let_def split: if_splits)
next
  case (Inr network')
  have no_genesis: "filter (\<lambda>p. fst p \<noteq> ''genesisHash'') network' = network'"
    using Inr by (auto simp: processChainId_def Let_def props_delete_def split: if_splits)
  have "processChainId network' = Inr network'"
    using processChainId_Inr(1) [OF Inr] no_genesis
    by (simp add: processChainId_def Let_def props_delete_def)
  then show ?thesis
    using Inr processChainId_Inr [OF Inr] by (auto simp: processChainId_def chain_of_def Let_def split: if_splits)
qed

text \<open>
  C31: where loading a project accepts a network, the deployment derived from the manifest has the same
  chain id, up to surrounding white space; where loading refuses it because both fields are given, the
  deployment silently keeps the chain id.
\<close>

theorem deployment_agrees_with_project:
  "deployment_chainId network =
     trim_chainId (case processChainId network of Inr network' \<Rightarrow> chain_of network' | Inl e \<Rightarrow> chain_of network)"
  by (simp add: deployment_chainId_def deployment_network_def processChainId_def chain_of_def Let_def
      obj_member_set obj_member_delete)

text \<open>The network a project is loaded with, before its chain id is settled\<close>

definition given_network :: "'d manifest_impl \<Rightarrow> props \<Rightarrow> props" where
  "given_network manifest overrides = props_spread (listed_endpoint (mi_network manifest)) overrides"

lemma given_network_endpoint:
  "obj_member (given_network manifest overrides) ''endpoint'' =
     (case map_of (rev overrides) ''endpoint'' of
        Some v \<Rightarrow> v
      | None \<Rightarrow> (case obj_member (mi_network manifest) ''endpoint'' of JStr e \<Rightarrow> JArr 0 [JStr e] | v \<Rightarrow> v))"
  by (simp add: given_network_def obj_member_def map_of_props_spread listed_endpoint_def split: option.split jsval.split)

text \<open>
  C30: a project that loads has an endpoint, the one of the command line if it gives one and otherwise the
  manifest's, a single string having become a list of one (which an endpoint of the command line does
  not); its chain id is settled by \<open>processChainId\<close>, its runner accepts this node's version, and its schema is the
  file the manifest names.
\<close>

theorem loaded_project:
  assumes "loadProjectFromManifestBase ld manifest path root overrides s = (Inr p, s')"
  shows "processChainId (given_network manifest overrides) = Inr (sp_network p) \<and>
    obj_member (sp_network p) ''endpoint'' =
      (case map_of (rev overrides) ''endpoint'' of
         Some v \<Rightarrow> v
       | None \<Rightarrow> (case obj_member (mi_network manifest) ''endpoint'' of JStr e \<Rightarrow> JArr 0 [JStr e] | v \<Rightarrow> v)) \<and>
    js_truthy (obj_member (sp_network p) ''endpoint'') \<and>
    ld_validateSemver ld (ld_packageVersion ld) (sp_runner_node_version p) \<and>
    (\<exists>text s1. ld_getFile ld (mi_schema_file manifest) s = (Inr text, s1) \<and> ld_buildSchema ld text = Inr (sp_schema p)) \<and>
    sp_root p = root \<and> sp_id p = (if ld_root ld \<noteq> [] then ld_root ld else path)"
proof -
  from assms obtain network body s1 schema dss s2 ts where
    net: "processChainId (given_network manifest overrides) = Inr network"
    and endpoint: "js_truthy (obj_member network ''endpoint'')"
    and schema: "ld_getFile ld (mi_schema_file manifest) s = (Inr body, s1)" "ld_buildSchema ld body = Inr schema"
    and semver: "ld_validateSemver ld (ld_packageVersion ld) (mi_runner_node_version manifest)"
    and p: "p = \<lparr>sp_id = (if ld_root ld \<noteq> [] then ld_root ld else path), sp_root = root, sp_network = network,
        sp_dataSources = dss, sp_schema = schema, sp_templates = ts,
        sp_runner_node_version = mi_runner_node_version manifest, sp_parent = mi_parent manifest\<rparr>"
    by (auto simp: loadProjectFromManifestBase_def given_network_def io_simps split: if_splits)
  have "obj_member network ''endpoint'' = obj_member (given_network manifest overrides) ''endpoint''"
    using processChainId_Inr(2) [OF net, of "''endpoint''"] by simp
  with net endpoint schema semver show ?thesis
    by (simp add: p given_network_endpoint)
qed

definition example_loader :: "(nat, string) loader" where
  "example_loader = \<lparr>ld_getFile = (\<lambda>f n. (Inr (''type '' @ f), Suc n)), ld_root = [], ld_buildSchema = Inr,
     ld_updateDataSources = (\<lambda>dss r c. return_io dss), ld_loadTemplates = (\<lambda>ts r c. return_io []),
     ld_validateSemver = (\<lambda>v r. True), ld_packageVersion = ''4.0.0'', ld_text = (\<lambda>v. ''undefined'')\<rparr>"

definition example_manifest :: "props \<Rightarrow> unit manifest_impl" where
  "example_manifest network = \<lparr>mi_specVersion = ''1.0.0'', mi_description = Undefined, mi_repository = Undefined,
     mi_network = network, mi_schema_file = ''schema.graphql'', mi_dataSources = [], mi_templates = Undefined,
     mi_runner_node_version = ''>=0.0.1'', mi_parent = JUndef, mi_deployment = ()\<rparr>"

definition example_network :: props where
  "example_network = [(''genesisHash'', JStr ''4221''), (''endpoint'', JStr ''https://node'')]"

lemma example_load:
  "\<exists>p. loadProjectFromManifestBase example_loader (example_manifest example_network) ''ipfs'' ''/tmp'' [] 0 = (Inr p, 1)"
  by (simp add: loadProjectFromManifestBase_def example_loader_def example_manifest_def example_network_def
      processChainId_def listed_endpoint_def props_spread_def props_delete_def obj_member_def io_defs)

theorem loaded_project_witness:
  "\<exists>p. loadProjectFromManifestBase example_loader (example_manifest example_network) ''ipfs'' ''/tmp'' [] 0 = (Inr p, 1) \<and>
     obj_member (sp_network p) ''endpoint'' = JArr 0 [JStr ''https://node''] \<and> sp_id p = ''ipfs''"
proof -
  obtain p where p: "loadProjectFromManifestBase example_loader (example_manifest example_network) ''ipfs'' ''/tmp'' [] 0 = (Inr p, 1)"
    using example_load by blast
  from loaded_project [OF p] p show ?thesis
    by (simp add: example_manifest_def example_network_def obj_member_def) (simp add: example_loader_def)
qed

text \<open>
  The failures of loading, in their order: conflicting chain ids and a missing endpoint are reported
  before any file is read; a schema that cannot be read is reported under the name of the file, whatever
  the reader's error was.
\<close>

theorem load_failures:
  "(processChainId (given_network manifest overrides) = Inl e \<longrightarrow>
     loadProjectFromManifestBase ld manifest path root overrides s = (Inl e, s)) \<and>
   (processChainId (given_network manifest overrides) = Inr network \<and> \<not> js_truthy (obj_member network ''endpoint'') \<longrightarrow>
     (\<exists>m. loadProjectFromManifestBase ld manifest path root overrides s = (Inl (plain_error m), s))) \<and>
   (processChainId (given_network manifest overrides) = Inr network \<and> js_truthy (obj_member network ''endpoint'') \<and>
     ld_getFile ld (mi_schema_file manifest) s = (Inl e', s') \<longrightarrow>
     loadProjectFromManifestBase ld manifest path root overrides s =
       (Inl (plain_error (''unable to fetch the schema from '' @ mi_schema_file manifest)), s'))"
  by (simp add: loadProjectFromManifestBase_def given_network_def) (simp add: io_defs)

theorem load_failures_witness:
  "\<exists>m. loadProjectFromManifestBase example_loader (example_manifest []) ''ipfs'' ''/tmp'' [] 7 = (Inl (plain_error m), 7)"
  using load_failures [of "example_manifest []" "[]" _ example_loader "''ipfs''" "''/tmp''" 7 "[]"]
  by (simp add: given_network_def example_manifest_def props_spread_def listed_endpoint_def processChainId_def
      props_delete_def obj_member_def)

text \<open>
  \<open>NOT_SUPPORT\<close> is never reached: when parsing keeps the spec version of the manifest, as the
  transformation to a class does, a manifest of another version is already refused by the parser, and one
  of version 1.0.0 is loaded.
\<close>

theorem create_project_versions:
  assumes "\<And>k r impl. plainToClass k r = Inr impl \<Longrightarrow> k = Supported \<and> mi_specVersion impl = specVersionOf r"
  shows "create_project ld (parseConcordiumProjectManifest plainToClass specVersionOf validate) path (Some raw) root overrides s =
    (case parseConcordiumProjectManifest plainToClass specVersionOf validate raw of
       Inl e \<Rightarrow> (Inl e, s)
     | Inr manifest \<Rightarrow> loadProjectFromManifestBase ld (vm_impl manifest) path root overrides s)"
proof (cases "parseConcordiumProjectManifest plainToClass specVersionOf validate raw")
  case (Inl e)
  then show ?thesis by (simp add: create_project_def io_defs)
next
  case (Inr manifest)
  then obtain k where "version_class (specVersionOf raw) = Some k" "plainToClass k raw = Inr (vm_impl manifest)"
    by (auto simp: parseConcordiumProjectManifest_def new_versioned_def split: option.splits)
  with assms have "version_class (specVersionOf raw) = Some Supported" "mi_specVersion (vm_impl manifest) = specVersionOf raw"
    by blast+
  then have "isV1_0_0 manifest"
    by (auto simp: version_class_def supported_versions_def isV1_0_0_def specVersion_def split: if_splits)
  with Inr show ?thesis by (simp add: create_project_def asV1_0_0_def lift_io_def bind_io_def)
qed

definition accept_supported :: "impl_class \<Rightarrow> string \<Rightarrow> js_error + unit manifest_impl" where
  "accept_supported klass raw =
     (if klass = Supported then Inr ((example_manifest example_network)\<lparr>mi_specVersion := raw\<rparr>)
      else Inl (type_error ''not a constructor''))"

theorem create_project_versions_witness:
  "create_project example_loader (parseConcordiumProjectManifest accept_supported id (\<lambda>_. Inr ())) ''ipfs''
     (Some ''2.0.0'') ''/tmp'' [] 0 = (Inl (plain_error ''specVersion not supported for project manifest file''), 0)"
proof -
  have "accept_supported k r = Inr impl \<Longrightarrow> k = Supported \<and> mi_specVersion impl = id r" for k r impl
    by (auto simp: accept_supported_def split: if_splits)
  from create_project_versions [of accept_supported id, OF this, of example_loader "\<lambda>_. Inr ()" "''ipfs''" "''2.0.0''" "''/tmp''" "[]" 0]
  show ?thesis
    by (simp add: parseConcordiumProjectManifest_def new_versioned_def version_class_def supported_versions_def
        proto_member_def object_prototype_methods_def)
qed

end
