(* ===== verification/ServiceInit.thy ===== *)
theory ServiceInit
  imports ApiService ApiConnection Project Dictionary
begin

text \<open>
  Initialisation of the services that need the project: the API service, which connects to the project's
  endpoints (packages/node/src/concordium/api.service.concordium.ts), and the dictionary service, which
  connects to the dictionaries (packages/node/src/indexer/dictionary/dictionary.service.ts and the class
  in v1/dictionaryV1.ts).

  \<open>createConnections\<close> (the connection pool), \<open>getDictionaryEndpoints\<close>, a dictionary's own \<open>init\<close> and the
  base service's \<open>init\<close> belong to @subql/node-core.  \<open>exitWithError\<close>, which ends the process, is the
  error \<open>process_exit\<close>: nothing runs after it.
\<close>

definition process_exit :: "string \<Rightarrow> js_error" where
  "process_exit m = JsError ''process.exit'' m None"

section \<open>The API service\<close>

text \<open>\<open>network.endpoint.push(primary)\<close>: the project's own list grows\<close>

definition push_endpoint :: "string nullable \<Rightarrow> props \<Rightarrow> js_error + props" where
  "push_endpoint primary network =
     (if \<not> str_truthy primary then Inr network
      else (case obj_member network ''endpoint'' of
          JArr r vs \<Rightarrow>
            Inr (props_set ''endpoint'' (JArr r (vs @ [case primary of Given p \<Rightarrow> JStr p | _ \<Rightarrow> JUndef])) network)
        | JUndef \<Rightarrow> Inl (type_error ''Cannot read properties of undefined (reading 'push')'')
        | JNull \<Rightarrow> Inl (type_error ''Cannot read properties of null (reading 'push')'')
        | _ \<Rightarrow> Inl (type_error ''network.endpoint.push is not a function'')))"

text \<open>The result is the network as the project has it afterwards.\<close>

definition service_init ::
  "(props \<Rightarrow> (string \<Rightarrow> ('s, connection) io) \<Rightarrow> (connection \<Rightarrow> ('s, string option) io) \<Rightarrow> ('s, unit) io) \<Rightarrow>
   (string \<Rightarrow> js_error + (string \<times> string)) \<Rightarrow> (concordium_api \<Rightarrow> 's grpc_client) \<Rightarrow> string nullable \<Rightarrow>
   'schema subquery_project option \<Rightarrow> ('s, props) io"
where
  "service_init createConnections url client primaryNetworkEndpoint project =
     (case bind_res (case project of None \<Rightarrow> Inl (type_error ''Cannot read properties of undefined (reading 'network')'')
                      | Some p \<Rightarrow> Inr (sp_network p)) (push_endpoint primaryNetworkEndpoint) of
        Inl e \<Rightarrow> throw_io (process_exit ''Failed to init api'')
      | Inr network \<Rightarrow>
          bind_io (createConnections network (\<lambda>endpoint. create_connection url client endpoint)
              (\<lambda>conn. return_io (getChainId (cn_unsafeApi conn)))) (\<lambda>_.
            return_io network))"

definition fetchBlockBatches ::
  "sdk_enums \<Rightarrow> lodash \<Rightarrow> (concordium_api \<Rightarrow> 's grpc_client) \<Rightarrow> ('s, unit) io \<Rightarrow> nat list \<Rightarrow> concordium_api \<Rightarrow>
   jsnum list \<Rightarrow> 's \<Rightarrow> (js_error + iblock list) option \<times> 's"
where
  "fetchBlockBatches sdk lo client emit sched api batch = fetchBlocks sdk lo (client api) emit sched batch"

section \<open>The dictionary service\<close>

record dictionary_v1 =
  dv_url :: "string nullable"
  dv_chainId :: jsval

definition new_dictionary :: "'schema subquery_project \<Rightarrow> string nullable \<Rightarrow> dictionary_v1" where
  "new_dictionary project dictionaryUrl = \<lparr>dv_url = dictionaryUrl, dv_chainId = chain_of (sp_network project)\<rparr>"

definition create_dictionary ::
  "(dictionary_v1 \<Rightarrow> ('s, unit) io) \<Rightarrow> 'schema subquery_project \<Rightarrow> string nullable \<Rightarrow> ('s, dictionary_v1) io"
where
  "create_dictionary dictionary_init project dictionaryUrl =
     (let dictionary = new_dictionary project dictionaryUrl in
      bind_io (dictionary_init dictionary) (\<lambda>_. return_io dictionary))"

text \<open>The loop over the endpoints; \<open>dictionariesV1\<close> is the list pushed to.\<close>

fun create_dictionaries ::
  "(dictionary_v1 \<Rightarrow> ('s, unit) io) \<Rightarrow> 'schema subquery_project \<Rightarrow> string list \<Rightarrow> dictionary_v1 list \<Rightarrow>
   ('s, dictionary_v1 list) io"
where
  "create_dictionaries dictionary_init project [] dictionariesV1 = return_io dictionariesV1"
| "create_dictionaries dictionary_init project (endpoint # rest) dictionariesV1 =
     bind_io (catch_io
         (bind_io (create_dictionary dictionary_init project (Given endpoint)) (\<lambda>dictionary.
           return_io (dictionariesV1 @ [dictionary])))
         (\<lambda>e. return_io dictionariesV1))
       (create_dictionaries dictionary_init project rest)"

definition initDictionaries ::
  "(string \<Rightarrow> props \<Rightarrow> ('s, string list) io) \<Rightarrow> (dictionary_v1 \<Rightarrow> ('s, unit) io) \<Rightarrow> (dictionary_v1 list \<Rightarrow> ('s, unit) io) \<Rightarrow>
   string \<Rightarrow> 'schema subquery_project option \<Rightarrow> ('s, unit) io"
where
  "initDictionaries getDictionaryEndpoints dictionary_init base_init networkFamily project =
     (case project of
        None \<Rightarrow> throw_io (plain_error ''Project in Dictionary service not initialized '')
      | Some p \<Rightarrow>
          bind_io (getDictionaryEndpoints networkFamily (sp_network p)) (\<lambda>dictionaryEndpoints.
          bind_io (create_dictionaries dictionary_init p dictionaryEndpoints []) base_init))"

lemma create_dictionaries_total:
  "\<exists>ds s'. create_dictionaries dictionary_init p endpoints acc s = (Inr (acc @ ds), s')"
proof (induction endpoints arbitrary: acc s)
  case (Cons e es)
  obtain r s1 where init: "dictionary_init (new_dictionary p (Given e)) s = (r, s1)" by fastforce
  show ?case
  proof (cases r)
    case (Inl err)
    with init Cons [of acc s1] show ?thesis
      by (simp add: create_dictionary_def Let_def) (simp add: io_defs)
  next
    case (Inr u)
    obtain ds s' where "create_dictionaries dictionary_init p es (acc @ [new_dictionary p (Given e)]) s1 =
        (Inr ((acc @ [new_dictionary p (Given e)]) @ ds), s')"
      using Cons by blast
    with init Inr show ?thesis
      by (intro exI [of _ "new_dictionary p (Given e) # ds"] exI [of _ s'])
        (simp add: create_dictionary_def Let_def io_defs)
  qed
qed (simp add: return_io_def)

lemma create_dictionaries_filter:
  assumes "\<And>d s. (\<exists>u. fst (dictionary_init d s) = Inr u) \<longleftrightarrow> ok (dv_url d)"
  shows "fst (create_dictionaries dictionary_init p endpoints acc s) =
    Inr (acc @ map (new_dictionary p) (filter ok (map Given endpoints)))"
proof (induction endpoints arbitrary: acc s)
  case (Cons e es)
  obtain r s1 where init: "dictionary_init (new_dictionary p (Given e)) s = (r, s1)" by fastforce
  with assms [of "new_dictionary p (Given e)" s] have "(\<exists>u. r = Inr u) \<longleftrightarrow> ok (Given e)"
    by (simp add: new_dictionary_def)
  with init Cons show ?case
    by (cases r) (simp_all add: create_dictionary_def Let_def io_defs)
qed (simp add: return_io_def)

section \<open>Properties\<close>

definition push_times :: "nat \<Rightarrow> string nullable \<Rightarrow> props \<Rightarrow> js_error + props" where
  "push_times n primary network = ((\<lambda>r. bind_res r (push_endpoint primary)) ^^ n) (Inr network)"

text \<open>
  With a primary endpoint configured, initialising the API service appends it to the project's own
  list of endpoints, and connects to that list; each further initialisation with the same project appends
  it again.  Without a primary endpoint the list is left alone.
\<close>

theorem init_appends_endpoint:
  assumes "obj_member (sp_network project) ''endpoint'' = JArr r vs" and "p \<noteq> []"
  shows "service_init connect url client (Given p) (Some project) s =
      (let network = props_set ''endpoint'' (JArr r (vs @ [JStr p])) (sp_network project) in
       bind_io (connect network (create_connection url client) (\<lambda>conn. return_io (getChainId (cn_unsafeApi conn))))
         (\<lambda>_. return_io network) s) \<and>
    (\<exists>network. push_times n (Given p) (sp_network project) = Inr network \<and>
       obj_member network ''endpoint'' = JArr r (vs @ replicate n (JStr p))) \<and>
    push_times n Undefined (sp_network project) = Inr (sp_network project)"
proof (intro conjI)
  show "service_init connect url client (Given p) (Some project) s =
      (let network = props_set ''endpoint'' (JArr r (vs @ [JStr p])) (sp_network project) in
       bind_io (connect network (create_connection url client) (\<lambda>conn. return_io (getChainId (cn_unsafeApi conn))))
         (\<lambda>_. return_io network) s)"
    using assms by (simp add: service_init_def push_endpoint_def Let_def)
  show "\<exists>network. push_times n (Given p) (sp_network project) = Inr network \<and>
       obj_member network ''endpoint'' = JArr r (vs @ replicate n (JStr p))"
  proof (induction n)
    case 0
    with assms show ?case by (simp add: push_times_def)
  next
    case (Suc n)
    then obtain network where "push_times n (Given p) (sp_network project) = Inr network"
      "obj_member network ''endpoint'' = JArr r (vs @ replicate n (JStr p))" by blast
    with assms(2) show ?case
      by (simp add: push_times_def push_endpoint_def obj_member_set replicate_append_same)
  qed
  show "push_times n Undefined (sp_network project) = Inr (sp_network project)"
    by (induction n) (simp_all add: push_times_def push_endpoint_def)
qed

definition example_project :: "jsval \<Rightarrow> unit subquery_project" where
  "example_project endpoint = \<lparr>sp_id = ''ipfs'', sp_root = ''/tmp'',
     sp_network = [(''chainId'', JStr ''4221''), (''endpoint'', endpoint)], sp_dataSources = [], sp_schema = (),
     sp_templates = [], sp_runner_node_version = ''*'', sp_parent = JUndef\<rparr>"

theorem init_appends_endpoint_witness:
  "\<exists>network. push_times 2 (Given ''https://b'') (sp_network (example_project (JArr 0 [JStr ''https://a'']))) = Inr network \<and>
     obj_member network ''endpoint'' = JArr 0 [JStr ''https://a'', JStr ''https://b'', JStr ''https://b'']"
proof -
  let ?p = "example_project (JArr 0 [JStr ''https://a''])"
  have e: "obj_member (sp_network ?p) ''endpoint'' = JArr 0 [JStr ''https://a'']"
    by (simp add: example_project_def obj_member_def)
  from init_appends_endpoint [OF e, of "''https://b''" "\<lambda>n c g. return_io ()" "\<lambda>e. Inr (e, e)" "\<lambda>a. example_grpc" 0 2]
  show ?thesis by (simp add: numeral_2_eq_2)
qed

text \<open>
  A project whose endpoint is not a list, as a single endpoint given on the command line stays, and a
  service without a project end the process before anything is connected, when a primary endpoint is
  configured.
\<close>

theorem init_exits:
  assumes "str_truthy primary"
    and "project = None \<or> (\<exists>p. project = Some p \<and> (\<forall>r vs. obj_member (sp_network p) ''endpoint'' \<noteq> JArr r vs))"
  shows "service_init connect url client primary project s = (Inl (process_exit ''Failed to init api''), s)"
proof -
  have "\<exists>e. push_endpoint primary network = Inl e" if "\<forall>r vs. obj_member network ''endpoint'' \<noteq> JArr r vs" for network
    using assms(1) that by (simp add: push_endpoint_def split: jsval.split)
  with assms(2) show ?thesis
    by (fastforce simp: service_init_def throw_io_def)
qed

theorem init_exits_witness:
  "service_init (\<lambda>n c g. return_io ()) (\<lambda>e. Inr (e, e)) (\<lambda>a. example_grpc) (Given ''https://b'')
     (Some (example_project (JStr ''https://a''))) 5 = (Inl (process_exit ''Failed to init api''), 5)"
  by (rule init_exits) (simp_all add: example_project_def obj_member_def)

text \<open>
  An endpoint that is no valid dictionary never stops the initialisation: the service starts with the
  dictionaries of exactly the endpoints that answered, in their order, all for the project's chain.
\<close>

theorem dictionaries_of_valid_endpoints:
  assumes "\<And>d s. (\<exists>u. fst (dictionary_init d s) = Inr u) \<longleftrightarrow> ok (dv_url d)"
    and "getDictionaryEndpoints family (sp_network p) s = (Inr endpoints, s1)"
  shows "\<exists>s2. initDictionaries getDictionaryEndpoints dictionary_init base_init family (Some p) s =
    base_init (map (\<lambda>e. \<lparr>dv_url = Given e, dv_chainId = chain_of (sp_network p)\<rparr>) (filter (\<lambda>e. ok (Given e)) endpoints)) s2"
proof -
  obtain ds s2 where ds: "create_dictionaries dictionary_init p endpoints [] s1 = (Inr ds, s2)"
    using create_dictionaries_total [of dictionary_init p endpoints "[]" s1] by auto
  have "ds = map (new_dictionary p) (filter ok (map Given endpoints))"
    using create_dictionaries_filter [of dictionary_init ok p endpoints "[]" s1, OF assms(1)] ds by simp
  then have "ds = map (\<lambda>e. \<lparr>dv_url = Given e, dv_chainId = chain_of (sp_network p)\<rparr>) (filter (\<lambda>e. ok (Given e)) endpoints)"
    by (simp add: filter_map comp_def new_dictionary_def)
  with ds assms(2) show ?thesis
    by (intro exI [of _ s2]) (simp add: initDictionaries_def bind_io_def)
qed

theorem dictionaries_of_valid_endpoints_witness:
  "initDictionaries (\<lambda>f n. return_io [''bad'', ''good''])
     (\<lambda>d. if dv_url d = Given ''bad'' then throw_io (plain_error ''no metadata'') else return_io ())
     (\<lambda>ds _. (Inr (), map dv_url ds)) ''concordium'' (Some (example_project JUndef)) [] = (Inr (), [Given ''good''])"
proof -
  let ?init = "\<lambda>d. if dv_url d = Given ''bad'' then throw_io (plain_error ''no metadata'') else return_io ()"
  have ok: "(\<exists>u. fst (?init d s) = Inr u) \<longleftrightarrow> dv_url d \<noteq> Given ''bad''" for d :: dictionary_v1 and s :: "string nullable list"
    by (simp add: io_defs)
  have eps: "return_io [''bad'', ''good''] ([] :: string nullable list) = (Inr [''bad'', ''good''], [])"
    by (simp add: io_defs)
  from dictionaries_of_valid_endpoints [of ?init "\<lambda>u. u \<noteq> Given ''bad''" "\<lambda>f n. return_io [''bad'', ''good'']" "''concordium''"
      "example_project JUndef" "[]" "[''bad'', ''good'']" "[]" "\<lambda>ds _. (Inr (), map dv_url ds)", OF ok eps]
  show ?thesis by simp
qed

end
