(* ===== verification/DynamicDs.thy ===== *)
theory DynamicDs
  imports Project
begin

text \<open>
  Datasources created while indexing (packages/node/src/indexer/dynamic-ds.service.ts): a template is
  instantiated, given the arguments of the call when it is a custom datasource, and validated.

  \<open>getTemplate\<close> and \<open>validateCustomDs\<close> belong to @subql/node-core; \<open>validate\<close> stands for
  \<open>validateSync(plainToClass(ConcordiumRuntimeDataSourceImpl, ds), options)\<close>, each error as its text.
\<close>

record datasource_params =
  dp_templateName :: string
  dp_startBlock :: int
  dp_args :: "props nullable"

definition spread_args :: "props nullable \<Rightarrow> props" where
  "spread_args args = (case args of Given ps \<Rightarrow> ps | _ \<Rightarrow> [])"

definition with_options :: "props nullable \<Rightarrow> subql_datasource \<Rightarrow> subql_datasource" where
  "with_options args dsObj =
     (case ds_processor dsObj of
        Given pr \<Rightarrow> dsObj\<lparr>ds_processor := Given (pr\<lparr>p_options := props_spread (p_options pr) (spread_args args)\<rparr>)\<rparr>
      | _ \<Rightarrow> dsObj)"

definition dynamic_error :: "js_error \<Rightarrow> js_error" where
  "dynamic_error e = plain_error (''Unable to create dynamic datasource.'' @ CHR 0x0A # '' '' @ err_message e)"

definition getDatasource ::
  "(string \<Rightarrow> int \<Rightarrow> js_error + subql_datasource) \<Rightarrow> (subql_datasource list \<Rightarrow> ('s, unit) io) \<Rightarrow>
   (subql_datasource \<Rightarrow> string list) \<Rightarrow> datasource_params \<Rightarrow> ('s, subql_datasource) io"
where
  "getDatasource getTemplate validateCustomDs validate params =
     bind_io (lift_io (getTemplate (dp_templateName params) (dp_startBlock params))) (\<lambda>dsObj.
       catch_io
         (if isCustomDs dsObj then
            (let dsObj' = with_options (dp_args params) dsObj in
             bind_io (validateCustomDs [dsObj']) (\<lambda>_. return_io dsObj'))
          else if isRuntimeDs dsObj then
            (let errors = validate dsObj in
             if errors \<noteq> []
             then throw_io (plain_error (''Dynamic ds is invalid'' @ CHR 0x0A # join_lines errors))
             else return_io dsObj)
          else return_io dsObj)
         (\<lambda>e. throw_io (dynamic_error e)))"

section \<open>Properties\<close>

lemma with_options_kind [simp]:
  "ds_kind (with_options args ds) = ds_kind ds" "ds_mapping (with_options args ds) = ds_mapping ds"
  "isCustomDs (with_options args ds) = isCustomDs ds"
  by (auto simp: with_options_def isCustomDs_def split: nullable.split)

lemma with_options_processor:
  assumes "ds_processor ds = Given pr"
  shows "\<exists>opts. with_options args ds = ds\<lparr>ds_processor := Given (pr\<lparr>p_options := opts\<rparr>)\<rparr> \<and>
    (\<forall>k. obj_member opts k =
      (case map_of (rev (spread_args args)) k of Some v \<Rightarrow> v | None \<Rightarrow> obj_member (p_options pr) k))"
  using assms
  by (intro exI [of _ "props_spread (p_options pr) (spread_args args)"])
    (simp add: with_options_def obj_member_def map_of_props_spread split: option.split)

text \<open>
  C35: a datasource that is created from a template is the template itself, up to the processor's options
  of a custom one: there the arguments of the call override the template's options one by one, and nothing
  else changes, neither of the processor nor of the datasource.  The arguments of a runtime datasource are
  ignored.
\<close>

theorem dynamic_datasource_result:
  assumes "getDatasource getTemplate validateCustomDs validate params s = (Inr ds, s')"
  shows "\<exists>template. getTemplate (dp_templateName params) (dp_startBlock params) = Inr template \<and>
    (isCustomDs template \<longrightarrow> validateCustomDs [ds] s = (Inr (), s') \<and>
      (\<exists>pr opts. ds_processor template = Given pr \<and>
        ds = template\<lparr>ds_processor := Given (pr\<lparr>p_options := opts\<rparr>)\<rparr> \<and>
        (\<forall>k. obj_member opts k =
          (case map_of (rev (spread_args (dp_args params))) k of Some v \<Rightarrow> v | None \<Rightarrow> obj_member (p_options pr) k)))) \<and>
    (\<not> isCustomDs template \<longrightarrow> ds = template \<and> s' = s \<and> (isRuntimeDs template \<longrightarrow> validate template = []))"
proof -
  from assms obtain template where template: "getTemplate (dp_templateName params) (dp_startBlock params) = Inr template"
    by (auto simp: getDatasource_def io_simps)
  have custom: "ds = with_options (dp_args params) template \<and> validateCustomDs [ds] s = (Inr (), s')" if "isCustomDs template"
    using assms that template by (auto simp: getDatasource_def io_simps Let_def)
  have other: "ds = template \<and> s' = s \<and> (isRuntimeDs template \<longrightarrow> validate template = [])" if "\<not> isCustomDs template"
    using assms that template by (auto simp: getDatasource_def io_simps Let_def split: if_splits)
  have "\<exists>pr opts. ds_processor template = Given pr \<and> ds = template\<lparr>ds_processor := Given (pr\<lparr>p_options := opts\<rparr>)\<rparr> \<and>
      (\<forall>k. obj_member opts k =
        (case map_of (rev (spread_args (dp_args params))) k of Some v \<Rightarrow> v | None \<Rightarrow> obj_member (p_options pr) k))"
    if "isCustomDs template"
  proof -
    from that obtain pr where pr: "ds_processor template = Given pr"
      by (cases "ds_processor template") (auto simp: isCustomDs_def)
    with with_options_processor [OF pr, of "dp_args params"] custom [OF that] show ?thesis by metis
  qed
  with template custom other show ?thesis
    by (intro exI [of _ template]) (cases "isCustomDs template", auto)
qed

definition example_custom_ds :: subql_datasource where
  "example_custom_ds = \<lparr>ds_name = Given ''Token'', ds_kind = ''concordium/Cis2'', ds_startBlock = Given 1,
     ds_mapping = \<lparr>m_file = ''./dist/index.js'', m_handlers = []\<rparr>, ds_assets = Undefined,
     ds_processor = Given \<lparr>p_file = ''./cis2.js'', p_options = [(''index'', JStr ''0''), (''strict'', JBool True)]\<rparr>\<rparr>"

theorem dynamic_datasource_result_witness:
  "\<exists>opts. getDatasource (\<lambda>n b. Inr example_custom_ds) (\<lambda>dss n. (Inr (), Suc n)) (\<lambda>_. [])
     \<lparr>dp_templateName = ''Token'', dp_startBlock = 5, dp_args = Given [(''index'', JStr ''9'')]\<rparr> 0 =
     (Inr (example_custom_ds\<lparr>ds_processor := Given \<lparr>p_file = ''./cis2.js'', p_options = opts\<rparr>\<rparr>), 1) \<and>
     obj_member opts ''index'' = JStr ''9'' \<and> obj_member opts ''strict'' = JBool True"
proof -
  let ?params = "\<lparr>dp_templateName = ''Token'', dp_startBlock = 5, dp_args = Given [(''index'', JStr ''9'')]\<rparr>"
  have custom: "isCustomDs example_custom_ds"
    by (simp add: isCustomDs_def example_custom_ds_def runtime_kind_def)
  obtain ds where run: "getDatasource (\<lambda>n b. Inr example_custom_ds) (\<lambda>dss n. (Inr (), Suc n)) (\<lambda>_. []) ?params 0 = (Inr ds, 1)"
    by (simp add: getDatasource_def custom Let_def io_defs)
  from dynamic_datasource_result [OF run] custom obtain pr opts
    where pr: "ds_processor example_custom_ds = Given pr"
      and ds: "ds = example_custom_ds\<lparr>ds_processor := Given (pr\<lparr>p_options := opts\<rparr>)\<rparr>"
      and opts: "\<And>k. obj_member opts k =
        (case map_of [(''index'', JStr ''9'')] k of Some v \<Rightarrow> v | None \<Rightarrow> obj_member (p_options pr) k)"
    by (auto simp: spread_args_def)
  show ?thesis
    unfolding run using pr opts
    by (intro exI [of _ opts]) (auto simp: ds example_custom_ds_def obj_member_def)
qed

text \<open>
  Failures: a template that does not exist is reported as it is; a datasource that does not validate
  is reported with the text of the validator's complaint inside the service's own message, and one that is
  neither a runtime datasource nor has a processor is accepted without any validation.
\<close>

theorem dynamic_datasource_failures:
  "(getTemplate (dp_templateName params) (dp_startBlock params) = Inl e \<longrightarrow>
     getDatasource getTemplate validateCustomDs validate params s = (Inl e, s)) \<and>
   (getTemplate (dp_templateName params) (dp_startBlock params) = Inr template \<longrightarrow>
     (isCustomDs template \<and> validateCustomDs [with_options (dp_args params) template] s = (Inl e, s') \<longrightarrow>
       getDatasource getTemplate validateCustomDs validate params s = (Inl (dynamic_error e), s')) \<and>
     (isRuntimeDs template \<and> validate template \<noteq> [] \<longrightarrow>
       getDatasource getTemplate validateCustomDs validate params s =
         (Inl (dynamic_error (plain_error (''Dynamic ds is invalid'' @ CHR 0x0A # join_lines (validate template)))), s)) \<and>
     (\<not> isCustomDs template \<and> \<not> isRuntimeDs template \<longrightarrow>
       getDatasource getTemplate validateCustomDs validate params s = (Inr template, s)))"
  using custom_not_runtime [of template]
  by (auto simp: getDatasource_def Let_def io_defs)

theorem dynamic_datasource_failures_witness:
  "getDatasource (\<lambda>n b. Inr (example_custom_ds\<lparr>ds_processor := Undefined\<rparr>)) (\<lambda>dss n. (Inr (), Suc n)) (\<lambda>_. [''bad''])
     \<lparr>dp_templateName = ''Token'', dp_startBlock = 5, dp_args = Undefined\<rparr> 0 =
     (Inr (example_custom_ds\<lparr>ds_processor := Undefined\<rparr>), 0)"
proof -
  let ?t = "example_custom_ds\<lparr>ds_processor := Undefined\<rparr>"
  have "\<not> isCustomDs ?t" "\<not> isRuntimeDs ?t"
    by (simp_all add: isCustomDs_def isRuntimeDs_def example_custom_ds_def runtime_kind_def)
  with dynamic_datasource_failures [of "\<lambda>n b. Inr ?t" "\<lparr>dp_templateName = ''Token'', dp_startBlock = 5, dp_args = Undefined\<rparr>"
      _ "\<lambda>dss n. (Inr (), Suc n)" "\<lambda>_. [''bad'']" 0 ?t]
  show ?thesis by blast
qed

end
