(* ===== verification/Services.thy ===== *)
theory Services
  imports Indexer
begin

text \<open>
  The services around the indexer: the fetch service (packages/node/src/indexer/fetch.service.ts), the
  unfinalized-blocks service (unfinalizedBlocks.service.ts), the datasource processors
  (ds-processor.service.ts), the project service (project.service.ts), the worker (worker/worker.service.ts) and the two block dispatchers (blockDispatcher/ and their choice in
  fetch.module.ts).

  Their base classes belong to @subql/node-core; what they call of them is an argument.  \<open>c\<close> is the
  node's interface, as in the Concordium API.
\<close>

section \<open>Fetch service\<close>

definition BLOCK_TIME_VARIANCE :: jsnum where
  "BLOCK_TIME_VARIANCE = num_of_int 5000"

text \<open>The double nearest to 0.9\<close>

definition INTERVAL_PERCENT :: jsnum where
  "INTERVAL_PERCENT = NumFin 8106479329266893 (- 53)"

definition calcInterval :: "'api \<Rightarrow> jsnum" where
  "calcInterval api = num_of_int 2000"

definition getFinalizedHeight :: "'s grpc_client \<Rightarrow> (header \<Rightarrow> ('s, unit) io) \<Rightarrow> ('s, jsnum) io" where
  "getFinalizedHeight c registerFinalizedBlock =
     bind_io (getFinalizedBlock c) (\<lambda>block.
       let header = blockToHeader block in
       bind_io (registerFinalizedBlock header) (\<lambda>_. return_io (hd_blockHeight header)))"

definition getBestHeight :: "'s grpc_client \<Rightarrow> ('s, jsnum) io" where
  "getBestHeight c = bind_io (getBestBlockHeight c) (\<lambda>h. return_io (bigint_to_number h))"

definition getChainInterval :: "'api \<Rightarrow> ('s, jsnum) io" where
  "getChainInterval api =
     (let CHAIN_INTERVAL = num_mul (calcInterval api) INTERVAL_PERCENT in
      return_io (num_min BLOCK_TIME_VARIANCE CHAIN_INTERVAL))"

definition getModulos ::
  "(subql_datasource list \<Rightarrow> (subql_datasource \<Rightarrow> bool) \<Rightarrow> string \<Rightarrow> js_error + jsnum list) \<Rightarrow>
   subql_datasource list \<Rightarrow> js_error + jsnum list"
where
  "getModulos core_getModulos dataSources = core_getModulos dataSources isCustomDs (kind_string BlockKind)"

definition initBlockDispatcher :: "('r \<Rightarrow> ('s, unit) io) \<Rightarrow> 'r \<Rightarrow> ('s, unit) io" where
  "initBlockDispatcher dispatcher_init resetForNewDs = bind_io (dispatcher_init resetForNewDs) (\<lambda>_. return_io ())"

definition preLoopHook :: "('s, unit) io" where
  "preLoopHook = return_io ()"

section \<open>Datasource processors\<close>

text \<open>
  The service of indexer/ds-processor.service.ts is its base class with the test for custom datasources filled
  in.
\<close>

record ds_processor_members =
  dp_isCustomDs :: "subql_datasource \<Rightarrow> bool"

definition ds_processor_service :: ds_processor_members where
  "ds_processor_service = \<lparr>dp_isCustomDs = isCustomDs\<rparr>"

section \<open>Unfinalized blocks\<close>

text \<open>
  The members of the class \<open>ConcordiumApi\<close>, which has no superclass but \<open>Object\<close>: what
  \<open>this.apiService.api\<close> can be asked for.  \<open>methods\<close> is such an object's table of methods.
\<close>

definition api_methods :: "string list" where
  "api_methods =
     [''constructor'', ''init'', ''getFinalizedBlock'', ''getFinalizedBlockHeight'', ''getBestBlockHeight'',
      ''getRuntimeChain'', ''getChainId'', ''getGenesisHash'', ''getSpecName'', ''getBlockByHash'',
      ''getAndWrapSpecialEvents'', ''wrapTransactionEvents'', ''getAndWrapTransactions'', ''getAndWrapBlock'',
      ''fetchBlock'', ''fetchBlocks'', ''api'', ''getSafeApi'', ''connect'', ''disconnect'']"

definition call_api ::
  "(string \<Rightarrow> (jsval \<Rightarrow> ('s, block_info) io) option) \<Rightarrow> string \<Rightarrow> jsval \<Rightarrow> ('s, block_info) io"
where
  "call_api methods m a =
     (case methods m of
        Some f \<Rightarrow> f a
      | None \<Rightarrow> throw_io (type_error (''this.apiService.api.'' @ m @ '' is not a function'')))"

definition getFinalizedHead :: "(('s, header) io \<Rightarrow> ('s, header) io) \<Rightarrow> 's grpc_client \<Rightarrow> ('s, header) io" where
  "getFinalizedHead mainThreadOnly c =
     mainThreadOnly (bind_io (getFinalizedBlock c) (\<lambda>finalizedBlock. return_io (blockToHeader finalizedBlock)))"

definition getHeaderForHash ::
  "(('s, header) io \<Rightarrow> ('s, header) io) \<Rightarrow> (string \<Rightarrow> (jsval \<Rightarrow> ('s, block_info) io) option) \<Rightarrow> string \<Rightarrow> ('s, header) io"
where
  "getHeaderForHash mainThreadOnly methods hash =
     mainThreadOnly (bind_io (call_api methods ''getBlockByHeightOrHash'' (JStr hash)) (\<lambda>block.
       return_io (blockToHeader block)))"

definition getHeaderForHeight ::
  "(('s, header) io \<Rightarrow> ('s, header) io) \<Rightarrow> (string \<Rightarrow> (jsval \<Rightarrow> ('s, block_info) io) option) \<Rightarrow> jsnum \<Rightarrow> ('s, header) io"
where
  "getHeaderForHeight mainThreadOnly methods height =
     mainThreadOnly (bind_io (call_api methods ''getBlockByHeightOrHash'' (JNum height)) (\<lambda>block.
       return_io (blockToHeader block)))"

section \<open>Project service\<close>

definition project_init :: "(jsnum nullable \<Rightarrow> ('s, unit) io) \<Rightarrow> jsnum nullable \<Rightarrow> ('s, unit) io" where
  "project_init base_init startHeight = base_init startHeight"

definition getBlockTimestamp :: "'s grpc_client \<Rightarrow> jsnum \<Rightarrow> ('s, int) io" where
  "getBlockTimestamp c height =
     bind_io (lift_io (num_to_bigint height)) (\<lambda>h.
     bind_io (g_getBlocksAtHeight c h) (\<lambda>hashes.
     bind_io (getBlockByHash c (first_hash hashes)) (\<lambda>blockInfo.
       return_io (bi_blockReceiveTime blockInfo))))"

definition onProjectChange :: "'project \<Rightarrow> ('s, unit) io" where
  "onProjectChange project = return_io ()"

section \<open>Worker and dispatchers\<close>

text \<open>\<open>const [block] = ...\<close>: \<open>None\<close> is \<open>undefined\<close>\<close>

definition fetchChainBlock :: "(jsnum list \<Rightarrow> ('s, iblock list) io) \<Rightarrow> jsnum \<Rightarrow> ('s, iblock option) io" where
  "fetchChainBlock fetch_blocks heights =
     bind_io (fetch_blocks [heights]) (\<lambda>bs. return_io (case bs of [] \<Rightarrow> None | b # _ \<Rightarrow> Some b))"

record block_response =
  br_parentHash :: string

definition toBlockResponse :: "concordium_block \<Rightarrow> block_response" where
  "toBlockResponse block = \<lparr>br_parentHash = bi_blockParent (b_info block)\<rparr>"

definition processFetchedBlock ::
  "(iblock \<Rightarrow> subql_datasource list \<Rightarrow> ('s, 'r) io) \<Rightarrow> iblock \<Rightarrow> subql_datasource list \<Rightarrow> ('s, 'r) io"
where
  "processFetchedBlock indexer_indexBlock block dataSources = indexer_indexBlock block dataSources"

definition dispatcher_indexBlock ::
  "(iblock \<Rightarrow> subql_datasource list \<Rightarrow> ('s, 'r) io) \<Rightarrow> (jsnum \<Rightarrow> ('s, subql_datasource list) io) \<Rightarrow> iblock \<Rightarrow> ('s, 'r) io"
where
  "dispatcher_indexBlock indexer_indexBlock getDataSources block =
     bind_io (getDataSources (hd_blockHeight (ib_header block))) (\<lambda>dss. indexer_indexBlock block dss)"

definition worker_fetchBlock :: "(jsnum \<Rightarrow> ('s, 'x) io) \<Rightarrow> jsnum \<Rightarrow> ('s, unit) io" where
  "worker_fetchBlock fetch height = bind_io (fetch height) (\<lambda>_. return_io ())"

datatype dispatcher = WorkerBlockDispatcherService | BlockDispatcherService

definition choose_dispatcher :: "jsnum nullable \<Rightarrow> dispatcher" where
  "choose_dispatcher workers =
     (case workers of Given n \<Rightarrow> if num_truthy n then WorkerBlockDispatcherService else BlockDispatcherService
      | _ \<Rightarrow> BlockDispatcherService)"

section \<open>Properties\<close>

lemma interval_product: "num_mul (num_of_int 2000) INTERVAL_PERCENT = NumFin 16212958658533785600 (- 53)"
proof -
  have "(16212958658533786000 :: nat) div 2 ^ 11 = 7916483719987200" "(16212958658533786000 :: nat) mod 2 ^ 11 = 400"
    by simp_all
  moreover have "bit_len 16212958658533786000 = 64" by (simp add: bit_len.simps)
  ultimately show ?thesis
    by (simp add: INTERVAL_PERCENT_def signed_round_def round_sig_def Let_def)
qed

text \<open>
  The interval between two looks at the chain is 1800 milliseconds, whatever the API: the product of
  2000 and the double nearest to 0.9 rounds to exactly 1800, which is below the limit of five seconds.
\<close>

theorem chain_interval: "\<exists>n. getChainInterval api s = (Inr n, s) \<and> num_eq n (num_of_int 1800)"
proof -
  have "num_eq (NumFin 16212958658533785600 (- 53)) (num_of_int 1800)" by (simp add: scale_def)
  moreover have "num_min BLOCK_TIME_VARIANCE (NumFin 16212958658533785600 (- 53)) = NumFin 16212958658533785600 (- 53)"
    by (simp add: num_min_def BLOCK_TIME_VARIANCE_def scale_def)
  ultimately show ?thesis
    by (simp add: getChainInterval_def calcInterval_def interval_product return_io_def)
qed

text \<open>
  The finalized height the fetch service reports is the height of the last finalized block, exactly for
  heights up to 2 to the 53rd, and the header it registers as finalized, before it reports, is that block's.
\<close>

theorem finalized_height_registered:
  assumes "g_getBlockInfo c None s = (Inr b, s')" and "\<bar>bi_blockHeight b\<bar> \<le> 2 ^ 53"
    and "register (blockToHeader b) s' = (Inr (), s'')"
  shows "getFinalizedHeight c register s = (Inr (num_of_int (bi_blockHeight b)), s'') \<and>
    hd_blockHeight (blockToHeader b) = num_of_int (bi_blockHeight b) \<and>
    getFinalizedHead id c s = (Inr (blockToHeader b), s')"
  using assms
  by (simp add: getFinalizedHeight_def getFinalizedBlock_def getFinalizedHead_def blockToHeader_def
      bigint_to_number_exact Let_def io_defs)

theorem finalized_height_registered_witness:
  "getFinalizedHeight example_grpc (\<lambda>h n. (Inr (), n + 10)) 0 = (Inr (num_of_int 7), 11)"
  using finalized_height_registered [of example_grpc 0 example_info 1 "\<lambda>h n. (Inr (), n + 10)" 11]
  by (simp add: example_grpc_def example_chain_def example_info_def)

text \<open>
  C36: looking up the header of a block that is not final yet, by hash or by height, always throws a
  \<open>TypeError\<close> and asks the node nothing: the method it calls is not one of the API's.
\<close>

theorem header_lookup_throws:
  assumes "\<And>m. methods m \<noteq> None \<Longrightarrow> m \<in> set api_methods \<union> set object_prototype_methods"
  shows "getHeaderForHash id methods hash s =
      (Inl (type_error ''this.apiService.api.getBlockByHeightOrHash is not a function''), s) \<and>
    getHeaderForHeight id methods height s =
      (Inl (type_error ''this.apiService.api.getBlockByHeightOrHash is not a function''), s)"
proof -
  have "''getBlockByHeightOrHash'' \<notin> set api_methods \<union> set object_prototype_methods"
    by (simp add: api_methods_def object_prototype_methods_def)
  with assms have "methods ''getBlockByHeightOrHash'' = None" by blast
  then show ?thesis
    by (simp add: getHeaderForHash_def getHeaderForHeight_def call_api_def throw_io_def bind_io_def)
qed

definition example_methods :: "string \<Rightarrow> (jsval \<Rightarrow> (nat, block_info) io) option" where
  "example_methods m = (if m = ''getBlockByHash''
     then Some (\<lambda>a. getBlockByHash example_grpc (case a of JStr h \<Rightarrow> Some h | _ \<Rightarrow> None)) else None)"

theorem header_lookup_throws_witness:
  "getHeaderForHash id example_methods ''hash7'' 0 =
     (Inl (type_error ''this.apiService.api.getBlockByHeightOrHash is not a function''), 0)"
proof -
  have "m \<in> set api_methods \<union> set object_prototype_methods" if "example_methods m \<noteq> None" for m
    using that by (auto simp: example_methods_def api_methods_def split: if_splits)
  from header_lookup_throws [of example_methods, OF this] show ?thesis by blast
qed

text \<open>
  The timestamp of a height is the receive time of the block that fetching the height gives, so a
  height the node does not have yet gets the time of the last finalized block; a height that is no integer
  throws.
\<close>

theorem timestamp_of_fetched_block:
  assumes "serves c d"
  shows "(num_int height = Some h \<and> block_at sdk lo d h = Inr b \<and> lodash_ok lo \<longrightarrow>
      fst (getBlockTimestamp c height s) = Inr (bi_blockReceiveTime (b_info b))) \<and>
    (num_int height = None \<longrightarrow> (\<exists>m. getBlockTimestamp c height s = (Inl (range_error m), s)))"
proof (intro conjI impI)
  assume "num_int height = Some h \<and> block_at sdk lo d h = Inr b \<and> lodash_ok lo"
  then have int: "num_to_bigint height = Inr h" and info: "b_info b = c_info d (first_hash (c_hashes d h))"
    by (auto simp: num_to_bigint_def block_at_def link_block_def Let_def)
  obtain s1 where s1: "g_getBlocksAtHeight c h s = (Inr (c_hashes d h), s1)"
    using assms unfolding serves_def by (metis prod.collapse)
  obtain s2 where s2: "g_getBlockInfo c (first_hash (c_hashes d h)) s1 = (Inr (c_info d (first_hash (c_hashes d h))), s2)"
    using assms unfolding serves_def by (metis prod.collapse)
  show "fst (getBlockTimestamp c height s) = Inr (bi_blockReceiveTime (b_info b))"
    by (simp add: getBlockTimestamp_def getBlockByHash_def io_defs int s1 s2 info)
qed (simp add: getBlockTimestamp_def num_to_bigint_def io_defs)

theorem timestamp_of_fetched_block_witness:
  "fst (getBlockTimestamp example_grpc (num_of_int 7) 0) = Inr 1000"
proof -
  obtain b where b: "block_at example_sdk example_lodash example_chain 7 = Inr b"
    using example_block_at by blast
  then have "b_info b = example_info"
    by (auto simp: block_at_def link_block_def Let_def example_chain_def)
  with b show ?thesis
    using timestamp_of_fetched_block [OF example_serves, of "num_of_int 7" 7 example_sdk example_lodash b 0]
    by (simp add: example_lodash_ok example_info_def)
qed

text \<open>
  The worker's path and the main thread's path agree: for a height the chain has, the worker fetches
  that block and no other, reports its parent, and indexing it with the datasources of its height is what
  the dispatcher of the main thread does.
\<close>

lemma worker_agrees_with_dispatcher:
  assumes "fetch_blocks [height] s = (Inr [ib], s1)"
    and "getDataSources (hd_blockHeight (ib_header ib)) s1 = (Inr dss, s2)"
  shows "bind_io (fetchChainBlock fetch_blocks height) (\<lambda>b. case b of
        Some block \<Rightarrow> bind_io (getDataSources (hd_blockHeight (ib_header block))) (processFetchedBlock idx block)
      | None \<Rightarrow> throw_io (plain_error ''no block'')) s
    = dispatcher_indexBlock idx getDataSources ib s1"
  using assms
  by (simp add: fetchChainBlock_def processFetchedBlock_def [abs_def] dispatcher_indexBlock_def io_defs)

end
