(* ===== verification/Wiring.thy ===== *)
theory Wiring
  imports Services
begin

text \<open>
  How the services are put together: the constructors with what they ask the container for, the factories
  and the modules (packages/node/src/indexer/fetch.module.ts, worker/worker-fetch.module.ts,
  worker/worker.module.ts, meta/meta.module.ts, admin/admin.module.ts, app.module.ts,
  configure/configure.module.ts and the modules of subcommands/).

  The container is NestJS, which is not in the repository.  What it is given is data here: a token is a
  class or a string, a provider says under which token what is made, a module lists providers, imports and
  exports.  \<open>env\<close> stands for what the container holds under each token; injection hands a factory the
  values of the tokens of its \<open>inject\<close> list, and a class those of its constructor's parameters, in order.
\<close>

section \<open>Tokens\<close>

datatype cls =
    NodeConfig | EventEmitter2 | Sequelize | SchedulerRegistry
  | ApiService | StoreService | StoreCacheService | PoiService | PoiSyncService | InMemoryCacheService
  | SandboxService | MonitorService | ConnectionPoolService | ConnectionPoolStateManager
  | IndexingBenchmarkService | PoiBenchmarkService | TestRunner | ReindexService | ForceCleanService
  | WorkerConnectionPoolStateManager | WorkerDynamicDsService | WorkerUnfinalizedBlocksService
  | WorkerMonitorService | WorkerInMemoryCacheService
  | ConcordiumApiService | IndexerManager | FetchService | DictionaryService | DsProcessorService
  | DynamicDsService | ProjectService | UnfinalizedBlocksService | WorkerService | MetaService
  | MetaController | TestingService | Dispatcher dispatcher | OtherClass string

datatype token = Class cls | Name string

abbreviation ISubqueryProject :: token where
  "ISubqueryProject \<equiv> Name ''ISubqueryProject''"

abbreviation IProjectService :: token where
  "IProjectService \<equiv> Name ''IProjectService''"

abbreviation IProjectUpgradeService :: token where
  "IProjectUpgradeService \<equiv> Name ''IProjectUpgradeService''"

abbreviation IBlockDispatcher :: token where
  "IBlockDispatcher \<equiv> Name ''IBlockDispatcher''"

abbreviation NullToken :: token where
  "NullToken \<equiv> Name ''Null''"

section \<open>Constructors\<close>

text \<open>
  What a constructor asks for, by \<open>@Inject\<close> or by the class of the parameter, in order; \<open>None\<close> is a
  parameter whose type is an interface and that has no decorator, so that it names no token.  \<open>main\<close> is
  \<open>isMainThread\<close>.
\<close>

definition ConcordiumApiService_params :: "token option list" where
  "ConcordiumApiService_params =
     [Some ISubqueryProject, Some (Class ConnectionPoolService), Some (Class EventEmitter2),
      Some (Class NodeConfig)]"

definition IndexerManager_params :: "token option list" where
  "IndexerManager_params =
     [Some (Class ApiService), Some (Class NodeConfig), Some (Class SandboxService),
      Some (Class DsProcessorService), Some (Class DynamicDsService), Some (Class UnfinalizedBlocksService),
      Some IProjectService]"

definition FetchService_params :: "token option list" where
  "FetchService_params =
     [Some (Class ApiService), Some (Class NodeConfig), Some IProjectService, Some ISubqueryProject,
      Some IBlockDispatcher, Some (Class DictionaryService), Some (Class UnfinalizedBlocksService),
      Some (Class EventEmitter2), Some (Class SchedulerRegistry)]"

definition DictionaryService_params :: "token option list" where
  "DictionaryService_params =
     [Some ISubqueryProject, Some (Class NodeConfig), Some (Class DsProcessorService),
      Some (Class EventEmitter2)]"

definition DynamicDsService_params :: "token option list" where
  "DynamicDsService_params = [Some (Class DsProcessorService), Some ISubqueryProject]"

definition UnfinalizedBlocksService_params :: "token option list" where
  "UnfinalizedBlocksService_params =
     [Some (Class ApiService), Some (Class NodeConfig), Some (Class StoreCacheService)]"

definition ProjectService_params :: "bool \<Rightarrow> token option list" where
  "ProjectService_params main =
     [Some (Class DsProcessorService),
      Some (Class ApiService),
      Some (if main then Class PoiService else NullToken),
      Some (if main then Class PoiSyncService else NullToken),
      Some (if main then Class Sequelize else NullToken),
      Some ISubqueryProject,
      Some IProjectUpgradeService,
      Some (if main then Class StoreService else NullToken),
      Some (Class NodeConfig),
      Some (Class DynamicDsService),
      Some (Class EventEmitter2),
      Some (Class UnfinalizedBlocksService)]"

definition WorkerService_params :: "token option list" where
  "WorkerService_params =
     [Some (Class ApiService), Some (Class IndexerManager), Some IProjectService,
      Some IProjectUpgradeService, Some (Class NodeConfig)]"

definition MetaService_params :: "token option list" where
  "MetaService_params = [Some (Class NodeConfig), Some (Class StoreCacheService)]"

definition MetaController_params :: "token option list" where
  "MetaController_params = [Some (Class MetaService)]"

definition TestingService_params :: "token option list" where
  "TestingService_params = [Some (Class NodeConfig), Some ISubqueryProject]"

definition BlockDispatcherService_params :: "token option list" where
  "BlockDispatcherService_params =
     [Some (Class ApiService), Some (Class NodeConfig), Some (Class IndexerManager),
      Some (Class EventEmitter2), Some IProjectService, Some IProjectUpgradeService,
      Some (Class StoreService), Some (Class StoreCacheService), Some (Class PoiSyncService),
      Some ISubqueryProject]"

definition WorkerBlockDispatcherService_params :: "token option list" where
  "WorkerBlockDispatcherService_params =
     [Some (Class NodeConfig), Some (Class EventEmitter2), Some IProjectService,
      Some IProjectUpgradeService, Some (Class InMemoryCacheService), Some (Class StoreService),
      Some (Class StoreCacheService), Some (Class PoiSyncService), Some ISubqueryProject,
      Some (Class DynamicDsService), Some (Class UnfinalizedBlocksService),
      Some (Class ConnectionPoolStateManager), None]"

definition dispatcher_params :: "dispatcher \<Rightarrow> token option list" where
  "dispatcher_params d =
     (case d of
        WorkerBlockDispatcherService \<Rightarrow> WorkerBlockDispatcherService_params
      | BlockDispatcherService \<Rightarrow> BlockDispatcherService_params)"

lemmas params_defs =
  ConcordiumApiService_params_def IndexerManager_params_def FetchService_params_def
  DictionaryService_params_def DynamicDsService_params_def UnfinalizedBlocksService_params_def
  ProjectService_params_def WorkerService_params_def MetaService_params_def MetaController_params_def
  TestingService_params_def BlockDispatcherService_params_def WorkerBlockDispatcherService_params_def

text \<open>
  The constructors in the repository.  Those of other packages are not known (\<open>None\<close>); the class
  \<open>DsProcessorService\<close> inherits one of them.
\<close>

definition params :: "bool \<Rightarrow> cls \<Rightarrow> token option list option" where
  "params main c =
     (case c of
        ConcordiumApiService \<Rightarrow> Some ConcordiumApiService_params
      | IndexerManager \<Rightarrow> Some IndexerManager_params
      | FetchService \<Rightarrow> Some FetchService_params
      | DictionaryService \<Rightarrow> Some DictionaryService_params
      | DynamicDsService \<Rightarrow> Some DynamicDsService_params
      | UnfinalizedBlocksService \<Rightarrow> Some UnfinalizedBlocksService_params
      | ProjectService \<Rightarrow> Some (ProjectService_params main)
      | WorkerService \<Rightarrow> Some WorkerService_params
      | MetaService \<Rightarrow> Some MetaService_params
      | MetaController \<Rightarrow> Some MetaController_params
      | TestingService \<Rightarrow> Some TestingService_params
      | Dispatcher d \<Rightarrow> Some (dispatcher_params d)
      | _ \<Rightarrow> None)"

section \<open>What a constructor passes on\<close>

text \<open>
  The arguments of \<open>super(...)\<close>: a parameter, a member of one, the result of one of its methods, a method
  bound to one, a closure over some, or a table of the module.  An instance is what its base class was given and the parameter properties it keeps itself.
\<close>

datatype 'v passed =
    Arg 'v
  | Member "'v passed" string
  | Call "'v passed" string
  | Bound 'v string
  | Closure string "'v passed list"
  | Table string

record 'v service =
  in_super :: "'v passed list"
  in_fields :: "(string \<times> 'v) list"

definition new_ConcordiumApiService :: "'v \<Rightarrow> 'v \<Rightarrow> 'v \<Rightarrow> 'v \<Rightarrow> 'v service" where
  "new_ConcordiumApiService project connectionPoolService eventEmitter nodeConfig =
     \<lparr>in_super = [Arg connectionPoolService, Arg eventEmitter],
      in_fields = [(''project'', project), (''nodeConfig'', nodeConfig)]\<rparr>"

definition new_IndexerManager :: "'v \<Rightarrow> 'v \<Rightarrow> 'v \<Rightarrow> 'v \<Rightarrow> 'v \<Rightarrow> 'v \<Rightarrow> 'v \<Rightarrow> 'v service" where
  "new_IndexerManager apiService nodeConfig sandboxService dsProcessorService dynamicDsService
       unfinalizedBlocksService projectService =
     \<lparr>in_super = [Arg apiService, Arg nodeConfig, Arg sandboxService, Arg dsProcessorService,
        Arg dynamicDsService, Arg unfinalizedBlocksService, Table ''FilterTypeMap'', Table ''ProcessorTypeMap''],
      in_fields = [(''projectService'', projectService)]\<rparr>"

definition new_FetchService ::
  "'v \<Rightarrow> 'v \<Rightarrow> 'v \<Rightarrow> 'v \<Rightarrow> 'v \<Rightarrow> 'v \<Rightarrow> 'v \<Rightarrow> 'v \<Rightarrow> 'v \<Rightarrow> 'v service"
where
  "new_FetchService apiService nodeConfig projectService project blockDispatcher dictionaryService
       unfinalizedBlocksService eventEmitter schedulerRegistry =
     \<lparr>in_super = [Arg nodeConfig, Arg projectService, Member (Arg project) ''network'', Arg blockDispatcher,
        Arg dictionaryService, Arg eventEmitter, Arg schedulerRegistry],
      in_fields = [(''apiService'', apiService), (''unfinalizedBlocksService'', unfinalizedBlocksService)]\<rparr>"

definition new_DictionaryService :: "'v \<Rightarrow> 'v \<Rightarrow> 'v \<Rightarrow> 'v \<Rightarrow> 'v service" where
  "new_DictionaryService project nodeConfig dsProcessorService eventEmitter =
     \<lparr>in_super = [Member (Member (Arg project) ''network'') ''chainId'', Arg nodeConfig, Arg eventEmitter],
      in_fields = [(''project'', project), (''dsProcessorService'', dsProcessorService)]\<rparr>"

definition new_DynamicDsService :: "'v \<Rightarrow> 'v \<Rightarrow> 'v service" where
  "new_DynamicDsService dsProcessorService project =
     \<lparr>in_super = [Arg project], in_fields = [(''dsProcessorService'', dsProcessorService)]\<rparr>"

definition new_UnfinalizedBlocksService :: "'v \<Rightarrow> 'v \<Rightarrow> 'v \<Rightarrow> 'v service" where
  "new_UnfinalizedBlocksService apiService nodeConfig storeCache =
     \<lparr>in_super = [Arg nodeConfig, Arg storeCache], in_fields = [(''apiService'', apiService)]\<rparr>"

definition new_ProjectService ::
  "'v \<Rightarrow> 'v \<Rightarrow> 'v \<Rightarrow> 'v \<Rightarrow> 'v \<Rightarrow> 'v \<Rightarrow> 'v \<Rightarrow> 'v \<Rightarrow> 'v \<Rightarrow> 'v \<Rightarrow> 'v \<Rightarrow> 'v \<Rightarrow> 'v service"
where
  "new_ProjectService dsProcessorService apiService poiService poiSyncService sequelize project
       projectUpgradeService storeService nodeConfig dynamicDsService eventEmitter unfinalizedBlockService =
     \<lparr>in_super = [Arg dsProcessorService, Arg apiService, Arg poiService, Arg poiSyncService, Arg sequelize,
        Arg project, Arg projectUpgradeService, Arg storeService, Arg nodeConfig, Arg dynamicDsService,
        Arg eventEmitter, Arg unfinalizedBlockService],
      in_fields = []\<rparr>"

definition new_WorkerService :: "'v \<Rightarrow> 'v \<Rightarrow> 'v \<Rightarrow> 'v \<Rightarrow> 'v \<Rightarrow> 'v service" where
  "new_WorkerService apiService indexerManager projectService projectUpgradeService nodeConfig =
     \<lparr>in_super = [Arg projectService, Arg projectUpgradeService, Arg nodeConfig],
      in_fields = [(''apiService'', apiService), (''indexerManager'', indexerManager)]\<rparr>"

definition new_MetaService :: "'v \<Rightarrow> 'v \<Rightarrow> 'v service" where
  "new_MetaService nodeConfig storeCacheService =
     \<lparr>in_super = [Arg storeCacheService, Arg nodeConfig], in_fields = [(''nodeConfig'', nodeConfig)]\<rparr>"

definition new_MetaController :: "'v \<Rightarrow> 'v service" where
  "new_MetaController metaService = \<lparr>in_super = [], in_fields = [(''metaService'', metaService)]\<rparr>"

definition new_TestingService :: "'v \<Rightarrow> 'v \<Rightarrow> 'v service" where
  "new_TestingService nodeConfig project = \<lparr>in_super = [Arg nodeConfig, Arg project], in_fields = []\<rparr>"

definition new_BlockDispatcherService ::
  "'v \<Rightarrow> 'v \<Rightarrow> 'v \<Rightarrow> 'v \<Rightarrow> 'v \<Rightarrow> 'v \<Rightarrow> 'v \<Rightarrow> 'v \<Rightarrow> 'v \<Rightarrow> 'v \<Rightarrow> 'v service"
where
  "new_BlockDispatcherService apiService nodeConfig indexerManager eventEmitter projectService
       projectUpgradeService storeService storeCacheService poiSyncService project =
     \<lparr>in_super = [Arg nodeConfig, Arg eventEmitter, Arg projectService, Arg projectUpgradeService,
        Arg storeService, Arg storeCacheService, Arg poiSyncService, Arg project,
        Bound apiService ''fetchBlocks''],
      in_fields = [(''indexerManager'', indexerManager)]\<rparr>"

definition new_WorkerBlockDispatcherService ::
  "'v \<Rightarrow> 'v \<Rightarrow> 'v \<Rightarrow> 'v \<Rightarrow> 'v \<Rightarrow> 'v \<Rightarrow> 'v \<Rightarrow> 'v \<Rightarrow> 'v \<Rightarrow> 'v \<Rightarrow> 'v \<Rightarrow> 'v \<Rightarrow> 'v \<Rightarrow> 'v service"
where
  "new_WorkerBlockDispatcherService nodeConfig eventEmitter projectService projectUpgadeService cacheService
       storeService storeCacheService poiSyncService project dynamicDsService unfinalizedBlocksSevice
       connectionPoolState monitorService =
     \<lparr>in_super = [Arg nodeConfig, Arg eventEmitter, Arg projectService, Arg projectUpgadeService,
        Arg storeService, Arg storeCacheService, Arg poiSyncService, Arg project,
        Closure ''createIndexerWorker''
          [Call (Arg storeService) ''getStore'', Call (Arg cacheService) ''getCache'',
           Arg dynamicDsService, Arg unfinalizedBlocksSevice, Arg connectionPoolState,
           Member (Arg project) ''root'', Member (Arg projectService) ''startHeight'', Arg monitorService],
        Arg monitorService],
      in_fields = []\<rparr>"

text \<open>\<open>new C(args)\<close> for the classes the factories make\<close>

definition new_dispatcher :: "dispatcher \<Rightarrow> 'v list \<Rightarrow> 'v service option" where
  "new_dispatcher d args =
     (case d of
        BlockDispatcherService \<Rightarrow>
          (case args of
             [a1, a2, a3, a4, a5, a6, a7, a8, a9, a10] \<Rightarrow>
               Some (new_BlockDispatcherService a1 a2 a3 a4 a5 a6 a7 a8 a9 a10)
           | _ \<Rightarrow> None)
      | WorkerBlockDispatcherService \<Rightarrow>
          (case args of
             [a1, a2, a3, a4, a5, a6, a7, a8, a9, a10, a11, a12, a13] \<Rightarrow>
               Some (new_WorkerBlockDispatcherService a1 a2 a3 a4 a5 a6 a7 a8 a9 a10 a11 a12 a13)
           | _ \<Rightarrow> None))"

section \<open>Factories\<close>

text \<open>
  What a factory makes: \<open>new C(args)\<close>, something whose \<open>init()\<close> was awaited, a proxy
  \<open>new C(global.host)\<close> of a service of the main thread, or \<open>undefined\<close>.
\<close>

datatype 'v construction = New cls "'v list" | Awaited "'v construction" | HostProxy cls | NoValue

definition apiService_factory :: "'v \<Rightarrow> 'v \<Rightarrow> 'v \<Rightarrow> 'v \<Rightarrow> 'v construction" where
  "apiService_factory project connectionPoolService eventEmitter nodeConfig =
     Awaited (New ConcordiumApiService [project, connectionPoolService, eventEmitter, nodeConfig])"

definition apiService_inject :: "token list" where
  "apiService_inject =
     [ISubqueryProject, Class ConnectionPoolService, Class EventEmitter2, Class NodeConfig]"

definition blockDispatcher_factory ::
  "('v \<Rightarrow> jsnum nullable) \<Rightarrow> 'v \<Rightarrow> 'v \<Rightarrow> 'v \<Rightarrow> 'v \<Rightarrow> 'v \<Rightarrow> 'v \<Rightarrow> 'v \<Rightarrow> 'v \<Rightarrow> 'v \<Rightarrow> 'v \<Rightarrow> 'v \<Rightarrow> 'v \<Rightarrow> 'v \<Rightarrow>
   'v \<Rightarrow> 'v \<Rightarrow> 'v construction"
where
  "blockDispatcher_factory workers nodeConfig eventEmitter projectService projectUpgradeService apiService
       indexerManager cacheService storeService storeCacheService poiSyncService project dynamicDsService
       unfinalizedBlocks connectionPoolState monitorService =
     (case choose_dispatcher (workers nodeConfig) of
        WorkerBlockDispatcherService \<Rightarrow>
          New (Dispatcher WorkerBlockDispatcherService)
            [nodeConfig, eventEmitter, projectService, projectUpgradeService, cacheService, storeService,
             storeCacheService, poiSyncService, project, dynamicDsService, unfinalizedBlocks,
             connectionPoolState, monitorService]
      | BlockDispatcherService \<Rightarrow>
          New (Dispatcher BlockDispatcherService)
            [apiService, nodeConfig, indexerManager, eventEmitter, projectService, projectUpgradeService,
             storeService, storeCacheService, poiSyncService, project])"

definition blockDispatcher_inject :: "token list" where
  "blockDispatcher_inject =
     [Class NodeConfig, Class EventEmitter2, IProjectService, IProjectUpgradeService, Class ApiService,
      Class IndexerManager, Class InMemoryCacheService, Class StoreService, Class StoreCacheService,
      Class PoiSyncService, ISubqueryProject, Class DynamicDsService, Class UnfinalizedBlocksService,
      Class ConnectionPoolStateManager, Class MonitorService]"

text \<open>A factory called with the list of the injected values\<close>

definition call4 :: "('v \<Rightarrow> 'v \<Rightarrow> 'v \<Rightarrow> 'v \<Rightarrow> 'v construction) \<Rightarrow> 'v list \<Rightarrow> 'v construction" where
  "call4 f args = (case args of [a1, a2, a3, a4] \<Rightarrow> f a1 a2 a3 a4 | _ \<Rightarrow> NoValue)"

definition call15 ::
  "('v \<Rightarrow> 'v \<Rightarrow> 'v \<Rightarrow> 'v \<Rightarrow> 'v \<Rightarrow> 'v \<Rightarrow> 'v \<Rightarrow> 'v \<Rightarrow> 'v \<Rightarrow> 'v \<Rightarrow> 'v \<Rightarrow> 'v \<Rightarrow> 'v \<Rightarrow> 'v \<Rightarrow> 'v \<Rightarrow> 'v construction) \<Rightarrow>
   'v list \<Rightarrow> 'v construction"
where
  "call15 f args =
     (case args of
        [a1, a2, a3, a4, a5, a6, a7, a8, a9, a10, a11, a12, a13, a14, a15] \<Rightarrow>
          f a1 a2 a3 a4 a5 a6 a7 a8 a9 a10 a11 a12 a13 a14 a15
      | _ \<Rightarrow> NoValue)"

section \<open>Modules\<close>

datatype nest_module =
    AppModule | FetchModule | MetaModule | AdminModule | WorkerModule | WorkerFetchModule | TestingModule
  | TestingFeatureModule | ReindexModule | ReindexFeatureModule | ForceCleanModule | ConfigureModule
  | CoreModule string

datatype 'v provider =
    ClassProvider cls
  | UseClass token cls
  | UseFactory token "token list" "'v list \<Rightarrow> 'v construction"
  | UseValue token 'v

record 'v module_spec =
  md_global :: bool
  md_imports :: "nest_module list"
  md_controllers :: "cls list"
  md_providers :: "'v provider list"
  md_exports :: "token list"

text \<open>
  What the modules take from outside: the values \<open>registerApp\<close> gives, how the number of workers is read
  off the configuration, and the lists of services and controllers @subql/node-core exports.
\<close>

record 'v boot =
  su_nodeConfig :: 'v
  su_project :: 'v
  su_null :: 'v
  su_workers :: "'v \<Rightarrow> jsnum nullable"
  su_metaServices :: "cls list"
  su_metaControllers :: "cls list"
  su_adminServices :: "cls list"
  su_adminControllers :: "cls list"

definition apiService_provider :: "'v provider" where
  "apiService_provider = UseFactory (Class ApiService) apiService_inject (call4 apiService_factory)"

definition FetchModule_data :: "'v boot \<Rightarrow> 'v module_spec" where
  "FetchModule_data su =
     \<lparr>md_global = False, md_imports = [], md_controllers = [],
      md_providers =
        [ClassProvider InMemoryCacheService,
         ClassProvider StoreService,
         ClassProvider StoreCacheService,
         apiService_provider,
         ClassProvider IndexerManager,
         ClassProvider ConnectionPoolStateManager,
         ClassProvider ConnectionPoolService,
         ClassProvider PoiSyncService,
         UseFactory IBlockDispatcher blockDispatcher_inject (call15 (blockDispatcher_factory (su_workers su))),
         ClassProvider FetchService,
         ClassProvider ConnectionPoolService,
         ClassProvider IndexingBenchmarkService,
         ClassProvider PoiBenchmarkService,
         ClassProvider DictionaryService,
         ClassProvider SandboxService,
         ClassProvider DsProcessorService,
         ClassProvider DynamicDsService,
         ClassProvider PoiService,
         UseClass IProjectService ProjectService,
         ClassProvider UnfinalizedBlocksService,
         ClassProvider MonitorService],
      md_exports =
        [Class StoreService, Class StoreCacheService, Class MonitorService, Class PoiService]\<rparr>"

definition WorkerFetchModule_data :: "'v module_spec" where
  "WorkerFetchModule_data =
     \<lparr>md_global = False, md_imports = [], md_controllers = [],
      md_providers =
        [ClassProvider IndexerManager,
         UseFactory (Class ConnectionPoolStateManager) [] (\<lambda>_. HostProxy WorkerConnectionPoolStateManager),
         ClassProvider ConnectionPoolService,
         apiService_provider,
         ClassProvider SandboxService,
         ClassProvider DsProcessorService,
         UseFactory (Class DynamicDsService) [] (\<lambda>_. HostProxy WorkerDynamicDsService),
         UseClass IProjectService ProjectService,
         ClassProvider WorkerService,
         UseFactory (Class UnfinalizedBlocksService) [] (\<lambda>_. HostProxy WorkerUnfinalizedBlocksService),
         UseFactory (Class MonitorService) [] (\<lambda>_. HostProxy WorkerMonitorService),
         UseFactory (Class InMemoryCacheService) [] (\<lambda>_. HostProxy WorkerInMemoryCacheService)],
      md_exports = []\<rparr>"

definition TestingFeatureModule_data :: "'v module_spec" where
  "TestingFeatureModule_data =
     \<lparr>md_global = False, md_imports = [], md_controllers = [],
      md_providers =
        [ClassProvider InMemoryCacheService,
         ClassProvider StoreService,
         ClassProvider StoreCacheService,
         ClassProvider EventEmitter2,
         ClassProvider PoiService,
         ClassProvider PoiSyncService,
         ClassProvider SandboxService,
         ClassProvider DsProcessorService,
         ClassProvider DynamicDsService,
         ClassProvider UnfinalizedBlocksService,
         ClassProvider ConnectionPoolStateManager,
         ClassProvider ConnectionPoolService,
         UseClass IProjectService ProjectService,
         apiService_provider,
         ClassProvider SchedulerRegistry,
         ClassProvider TestRunner,
         UseClass (Name ''IApi'') ConcordiumApiService,
         UseClass (Name ''IIndexerManager'') IndexerManager],
      md_exports = [Class TestRunner]\<rparr>"

definition ReindexFeatureModule_data :: "'v module_spec" where
  "ReindexFeatureModule_data =
     \<lparr>md_global = False, md_imports = [], md_controllers = [],
      md_providers =
        [ClassProvider StoreCacheService,
         ClassProvider StoreService,
         ClassProvider ReindexService,
         ClassProvider ForceCleanService,
         UseClass (Name ''UnfinalizedBlocksService'') UnfinalizedBlocksService,
         UseClass (Name ''DynamicDsService'') DynamicDsService,
         ClassProvider DsProcessorService,
         UseFactory (Class ApiService) [] (\<lambda>_. NoValue),
         ClassProvider SchedulerRegistry],
      md_exports = []\<rparr>"

text \<open>\<open>ConfigureModule.register\<close>, with what \<open>getInstance\<close> gave\<close>

definition ConfigureModule_register :: "'v boot \<Rightarrow> 'v module_spec" where
  "ConfigureModule_register su =
     \<lparr>md_global = True, md_imports = [], md_controllers = [],
      md_providers =
        [UseValue (Class NodeConfig) (su_nodeConfig su),
         UseValue ISubqueryProject (su_project su),
         UseValue IProjectUpgradeService (su_project su),
         UseValue NullToken (su_null su)],
      md_exports = [Class NodeConfig, ISubqueryProject, IProjectUpgradeService, NullToken]\<rparr>"

text \<open>A module that only brings others together\<close>

definition gathers :: "nest_module list \<Rightarrow> 'v module_spec" where
  "gathers ms = \<lparr>md_global = False, md_imports = ms, md_controllers = [], md_providers = [], md_exports = []\<rparr>"

definition AppModule_data :: "'v module_spec" where
  "AppModule_data =
     gathers [CoreModule ''DbModule'', CoreModule ''EventEmitterModule'', ConfigureModule,
       CoreModule ''ScheduleModule'', FetchModule, MetaModule, AdminModule]"

definition WorkerModule_data :: "'v module_spec" where
  "WorkerModule_data =
     gathers [CoreModule ''DbModule'', CoreModule ''EventEmitterModule'', ConfigureModule,
       CoreModule ''ScheduleModule'', WorkerFetchModule]"

definition TestingModule_data :: "'v module_spec" where
  "TestingModule_data =
     gathers [CoreModule ''DbModule'', ConfigureModule, CoreModule ''EventEmitterModule'',
       CoreModule ''ScheduleModule'', TestingFeatureModule]"

definition ReindexModule_data :: "'v module_spec" where
  "ReindexModule_data =
     gathers [CoreModule ''DbModule'', ConfigureModule, ReindexFeatureModule,
       CoreModule ''EventEmitterModule'']"

definition ForceCleanModule_data :: "'v module_spec" where
  "ForceCleanModule_data =
     gathers [CoreModule ''DbModule'', ConfigureModule, CoreModule ''ForceCleanFeatureModule'']"

definition MetaModule_data :: "'v boot \<Rightarrow> 'v module_spec" where
  "MetaModule_data su =
     \<lparr>md_global = False, md_imports = [CoreModule ''PrometheusModule'', FetchModule],
      md_controllers = su_metaControllers su @ [MetaController],
      md_providers = map ClassProvider (su_metaServices su @ [MetaService]), md_exports = []\<rparr>"

definition AdminModule_data :: "'v boot \<Rightarrow> 'v module_spec" where
  "AdminModule_data su =
     \<lparr>md_global = False, md_imports = [FetchModule], md_controllers = su_adminControllers su,
      md_providers = map ClassProvider (su_adminServices su), md_exports = []\<rparr>"

primrec module_data :: "'v boot \<Rightarrow> nest_module \<Rightarrow> 'v module_spec" where
  "module_data su AppModule = AppModule_data"
| "module_data su FetchModule = FetchModule_data su"
| "module_data su MetaModule = MetaModule_data su"
| "module_data su AdminModule = AdminModule_data su"
| "module_data su WorkerModule = WorkerModule_data"
| "module_data su WorkerFetchModule = WorkerFetchModule_data"
| "module_data su TestingModule = TestingModule_data"
| "module_data su TestingFeatureModule = TestingFeatureModule_data"
| "module_data su ReindexModule = ReindexModule_data"
| "module_data su ReindexFeatureModule = ReindexFeatureModule_data"
| "module_data su ForceCleanModule = ForceCleanModule_data"
| "module_data su ConfigureModule = ConfigureModule_register su"
| "module_data su (CoreModule m) = gathers []"

lemmas module_defs =
  FetchModule_data_def WorkerFetchModule_data_def TestingFeatureModule_data_def ReindexFeatureModule_data_def
  ConfigureModule_register_def gathers_def AppModule_data_def WorkerModule_data_def TestingModule_data_def
  ReindexModule_data_def ForceCleanModule_data_def MetaModule_data_def AdminModule_data_def
  apiService_provider_def

section \<open>What is provided, visible and asked for\<close>

fun provider_token :: "'v provider \<Rightarrow> token" where
  "provider_token (ClassProvider c) = Class c"
| "provider_token (UseClass t c) = t"
| "provider_token (UseFactory t inject f) = t"
| "provider_token (UseValue t v) = t"

text \<open>What the repository itself asks for: nothing is said of the constructors of other packages.\<close>

definition asked :: "bool \<Rightarrow> cls \<Rightarrow> token list" where
  "asked main c = (case params main c of Some ps \<Rightarrow> List.map_filter id ps | None \<Rightarrow> [])"

fun provider_deps :: "bool \<Rightarrow> 'v provider \<Rightarrow> token list" where
  "provider_deps main (ClassProvider c) = asked main c"
| "provider_deps main (UseClass t c) = asked main c"
| "provider_deps main (UseFactory t inject f) = inject"
| "provider_deps main (UseValue t v) = []"

definition provided :: "'v module_spec \<Rightarrow> token set" where
  "provided md = provider_token ` set (md_providers md)"

definition module_deps :: "bool \<Rightarrow> 'v module_spec \<Rightarrow> token set" where
  "module_deps main md =
     (\<Union>p \<in> set (md_providers md). set (provider_deps main p)) \<union> (\<Union>c \<in> set (md_controllers md). set (asked main c))"

text \<open>
  A module sees what it provides, what its imports export, what the global modules of the application
  export, and \<open>ext\<close>: what the modules of other packages make available.
\<close>

definition imported_exports :: "'v boot \<Rightarrow> nest_module \<Rightarrow> token list" where
  "imported_exports su m = concat (map (\<lambda>i. md_exports (module_data su i)) (md_imports (module_data su m)))"

definition global_exports :: "'v boot \<Rightarrow> nest_module \<Rightarrow> token list" where
  "global_exports su root =
     concat (map (\<lambda>i. if md_global (module_data su i) then md_exports (module_data su i) else [])
       (md_imports (module_data su root)))"

definition visible :: "'v boot \<Rightarrow> token set \<Rightarrow> nest_module \<Rightarrow> nest_module \<Rightarrow> token set" where
  "visible su ext root m =
     provided (module_data su m) \<union> set (imported_exports su m) \<union> set (global_exports su root) \<union> ext"

text \<open>What the repository takes from the modules of other packages\<close>

definition core_tokens :: "token set" where
  "core_tokens = {Class EventEmitter2, Class SchedulerRegistry, Class Sequelize}"

definition wired :: "bool \<Rightarrow> 'v boot \<Rightarrow> token set \<Rightarrow> nest_module \<Rightarrow> bool" where
  "wired main su ext root \<longleftrightarrow>
     (\<forall>m \<in> set (root # md_imports (module_data su root)). module_deps main (module_data su m) \<subseteq> visible su ext root m)"

text \<open>
  Constructing what stands under a token needs what stands under another, by a constructor or a factory in the
  repository
\<close>

definition needs :: "bool \<Rightarrow> 'v module_spec \<Rightarrow> (token \<times> token) set" where
  "needs main md = {(d, provider_token p) | d p. p \<in> set (md_providers md) \<and> d \<in> set (provider_deps main p)}"

lemma asked_simps [simp]:
  "asked main ConcordiumApiService = apiService_inject"
  "asked main IndexerManager = map the IndexerManager_params"
  "asked main FetchService = map the FetchService_params"
  "asked main DictionaryService = map the DictionaryService_params"
  "asked main DynamicDsService = map the DynamicDsService_params"
  "asked main UnfinalizedBlocksService = map the UnfinalizedBlocksService_params"
  "asked main ProjectService = map the (ProjectService_params main)"
  "asked main WorkerService = map the WorkerService_params"
  "asked main MetaService = map the MetaService_params"
  "asked main MetaController = map the MetaController_params"
  by (simp_all add: asked_def params_def params_defs apiService_inject_def List.map_filter_simps)

lemma asked_core [simp]:
  "c \<in> {NodeConfig, EventEmitter2, Sequelize, SchedulerRegistry, ApiService, StoreService, StoreCacheService,
     PoiService, PoiSyncService, InMemoryCacheService, SandboxService, MonitorService, ConnectionPoolService,
     ConnectionPoolStateManager, IndexingBenchmarkService, PoiBenchmarkService, TestRunner, ReindexService,
     ForceCleanService, DsProcessorService} \<union> range OtherClass \<Longrightarrow> asked main c = []"
  by (auto simp: asked_def params_def List.map_filter_simps)

section \<open>Properties\<close>

definition injected :: "(token \<Rightarrow> 'v) \<Rightarrow> token option list \<Rightarrow> 'v list \<Rightarrow> bool" where
  "injected env ds args \<longleftrightarrow> list_all2 (\<lambda>d a. \<forall>t. d = Some t \<longrightarrow> a = env t) ds args"

text \<open>
  C10: whichever dispatcher the number of workers selects, the factory hands its constructor, position by
  position, what the container would have injected for that constructor's own parameters; and both
  dispatchers give their base class the same eight services.
\<close>

theorem dispatcher_wiring:
  fixes env :: "token \<Rightarrow> 'v" and w :: "'v \<Rightarrow> jsnum nullable"
  defines "d \<equiv> choose_dispatcher (w (env (Class NodeConfig)))"
  shows "\<exists>args service.
    call15 (blockDispatcher_factory w) (map env blockDispatcher_inject) = New (Dispatcher d) args \<and>
    injected env (dispatcher_params d) args \<and>
    new_dispatcher d args = Some service \<and>
    take 8 (in_super service) = map (\<lambda>t. Arg (env t))
      [Class NodeConfig, Class EventEmitter2, IProjectService, IProjectUpgradeService, Class StoreService,
       Class StoreCacheService, Class PoiSyncService, ISubqueryProject]"
  by (cases d)
    (simp_all add: d_def [symmetric] call15_def blockDispatcher_factory_def blockDispatcher_inject_def injected_def
      dispatcher_params_def WorkerBlockDispatcherService_params_def BlockDispatcherService_params_def
      new_dispatcher_def new_BlockDispatcherService_def new_WorkerBlockDispatcherService_def)

text \<open>The values that something passed on makes available\<close>

fun reaches :: "'v passed \<Rightarrow> 'v set" where
  "reaches (Arg v) = {v}"
| "reaches (Member p n) = reaches p"
| "reaches (Call p n) = reaches p"
| "reaches (Bound v n) = {v}"
| "reaches (Closure n ps) = (\<Union>p \<in> set ps. reaches p)"
| "reaches (Table n) = {}"

definition proxied_tokens :: "'v module_spec \<Rightarrow> token set" where
  "proxied_tokens md = {t. \<exists>f c. UseFactory t [] f \<in> set (md_providers md) \<and> f [] = HostProxy c}"

lemma proxied_WorkerFetchModule:
  "proxied_tokens (WorkerFetchModule_data :: 'v module_spec) =
     Class ` {ConnectionPoolStateManager, DynamicDsService, UnfinalizedBlocksService, MonitorService, InMemoryCacheService}"
  by (auto simp: proxied_tokens_def WorkerFetchModule_data_def apiService_provider_def apiService_inject_def)

text \<open>
  C18: a worker's proxies have something behind them: each service that a worker replaces by a proxy of the
  main thread is provided there, and the dispatcher that makes the workers hands it to every worker it
  creates.
\<close>

theorem worker_proxies_backed:
  fixes env :: "token \<Rightarrow> 'v" and w :: "'v \<Rightarrow> jsnum nullable"
  assumes "choose_dispatcher (w (env (Class NodeConfig))) = WorkerBlockDispatcherService"
    and "t \<in> proxied_tokens (module_data su WorkerFetchModule)"
  shows "t \<in> provided (module_data su FetchModule) \<and>
    (\<exists>args service ps.
      call15 (blockDispatcher_factory w) (map env blockDispatcher_inject) = New (Dispatcher WorkerBlockDispatcherService) args \<and>
      new_dispatcher WorkerBlockDispatcherService args = Some service \<and>
      Closure ''createIndexerWorker'' ps \<in> set (in_super service) \<and> env t \<in> (\<Union>p \<in> set ps. reaches p))"
proof -
  have t: "t \<in> Class ` {ConnectionPoolStateManager, DynamicDsService, UnfinalizedBlocksService, MonitorService, InMemoryCacheService}"
    using assms(2) by (simp add: proxied_WorkerFetchModule)
  then have "t \<in> provided (module_data su FetchModule)"
    by (auto simp: provided_def FetchModule_data_def)
  with t show ?thesis
    by (simp add: call15_def blockDispatcher_factory_def blockDispatcher_inject_def assms(1) new_dispatcher_def
        new_WorkerBlockDispatcherService_def) auto
qed

lemmas wiring_simps =
  visible_def imported_exports_def global_exports_def provided_def module_deps_def module_defs apiService_inject_def
  blockDispatcher_inject_def params_defs

lemma wired_FetchModule: "core_tokens \<subseteq> ext \<Longrightarrow>
    module_deps True (module_data su FetchModule) \<subseteq> visible su ext AppModule FetchModule"
  by (simp add: wiring_simps core_tokens_def)

lemma wired_WorkerFetchModule: "core_tokens \<subseteq> ext \<Longrightarrow>
    module_deps False (module_data su WorkerFetchModule) \<subseteq> visible su ext WorkerModule WorkerFetchModule"
  by (simp add: wiring_simps core_tokens_def)

lemma wired_TestingFeatureModule: "core_tokens \<subseteq> ext \<Longrightarrow>
    module_deps True (module_data su TestingFeatureModule) \<subseteq> visible su ext TestingModule TestingFeatureModule"
  by (simp add: wiring_simps core_tokens_def)

lemma wired_ReindexFeatureModule:
  "module_deps True (module_data su ReindexFeatureModule) \<subseteq> visible su ext ReindexModule ReindexFeatureModule"
  by (simp add: wiring_simps)

text \<open>The services and controllers of @subql/node-core have constructors that are not known here.\<close>

definition core_services :: "'v boot \<Rightarrow> bool" where
  "core_services su \<longleftrightarrow>
     set (su_metaServices su @ su_metaControllers su @ su_adminServices su @ su_adminControllers su) \<subseteq> range OtherClass"

lemma asked_other: "set cs \<subseteq> range OtherClass \<Longrightarrow> (\<Union>c \<in> set cs. set (asked main c)) = {}"
  by (auto simp: subset_iff)

lemma wired_MetaModule:
  "core_services su \<Longrightarrow> module_deps True (module_data su MetaModule) \<subseteq> visible su ext AppModule MetaModule"
  by (simp add: core_services_def wiring_simps asked_other image_Un UN_Un)

lemma wired_AdminModule:
  "core_services su \<Longrightarrow> module_deps True (module_data su AdminModule) \<subseteq> visible su ext AppModule AdminModule"
  by (simp add: core_services_def wiring_simps asked_other)

lemma module_deps_trivial [simp]:
  "module_deps main (gathers ms) = {}" "module_deps main (ConfigureModule_register su) = {}"
  by (simp_all add: module_deps_def gathers_def ConfigureModule_register_def)

text \<open>A height for each token: every service stands above what it needs.\<close>

fun class_rank :: "cls \<Rightarrow> nat" where
  "class_rank ApiService = 1"
| "class_rank ConcordiumApiService = 1"
| "class_rank DynamicDsService = 1"
| "class_rank DictionaryService = 1"
| "class_rank UnfinalizedBlocksService = 2"
| "class_rank IndexerManager = 4"
| "class_rank WorkerService = 5"
| "class_rank FetchService = 6"
| "class_rank _ = 0"

fun token_rank :: "token \<Rightarrow> nat" where
  "token_rank (Class c) = class_rank c"
| "token_rank (Name n) =
     (if n = ''DynamicDsService'' then 2
      else if n = ''UnfinalizedBlocksService'' \<or> n = ''IProjectService'' then 3
      else if n = ''IApi'' then 1
      else if n = ''IBlockDispatcher'' \<or> n = ''IIndexerManager'' then 5
      else 0)"

lemma needs_image:
  "needs main md = (\<Union>p \<in> set (md_providers md). (\<lambda>d. (d, provider_token p)) ` set (provider_deps main p))"
  by (auto simp: needs_def)

definition feature_modules :: "nest_module list" where
  "feature_modules = [FetchModule, WorkerFetchModule, TestingFeatureModule, ReindexFeatureModule]"

lemma needs_ranked: "m \<in> set feature_modules \<Longrightarrow> needs main (module_data su m) \<subseteq> measure token_rank"
  by (auto simp: feature_modules_def needs_image module_defs apiService_inject_def blockDispatcher_inject_def
      params_defs)

lemma wired_gathers:
  "module_data su root = gathers ms \<Longrightarrow>
   wired main su ext root \<longleftrightarrow> (\<forall>m \<in> set ms. module_deps main (module_data su m) \<subseteq> visible su ext root m)"
  by (simp add: wired_def) (simp add: gathers_def)

lemmas wired_roots =
  wired_gathers [OF trans [OF module_data.simps(1) AppModule_data_def]]
  wired_gathers [OF trans [OF module_data.simps(5) WorkerModule_data_def]]
  wired_gathers [OF trans [OF module_data.simps(7) TestingModule_data_def]]
  wired_gathers [OF trans [OF module_data.simps(9) ReindexModule_data_def]]
  wired_gathers [OF trans [OF module_data.simps(11) ForceCleanModule_data_def]]

text \<open>
  C11: in the indexer, its workers, the testing, the reindexing and the cleaning application every service
  of the repository finds what its constructor or factory asks for.  A worker could not be wired as a main
  thread: what the project service does without there is not provided.
\<close>

theorem wiring_complete:
  assumes "core_tokens \<subseteq> ext" and "core_services su"
  shows "wired True su ext AppModule \<and> wired False su ext WorkerModule \<and> wired True su ext TestingModule \<and>
    wired True su ext ReindexModule \<and> wired True su ext ForceCleanModule \<and>
    (Class PoiService \<notin> ext \<longrightarrow> \<not> wired True su ext WorkerModule)"
proof (intro conjI impI)
  show "wired True su ext AppModule"
    using wired_FetchModule [OF assms(1), of su] wired_MetaModule [OF assms(2), of ext] wired_AdminModule [OF assms(2), of ext]
    by (simp add: wired_roots)
  show "wired False su ext WorkerModule"
    using wired_WorkerFetchModule [OF assms(1), of su] by (simp add: wired_roots)
  show "wired True su ext TestingModule"
    using wired_TestingFeatureModule [OF assms(1), of su] by (simp add: wired_roots)
  show "wired True su ext ReindexModule"
    using wired_ReindexFeatureModule [of su ext] by (simp add: wired_roots)
  show "wired True su ext ForceCleanModule"
    by (simp add: wired_roots)
  assume "Class PoiService \<notin> ext"
  then have "\<not> module_deps True (module_data su WorkerFetchModule) \<subseteq> visible su ext WorkerModule WorkerFetchModule"
    by (simp add: wiring_simps)
  then show "\<not> wired True su ext WorkerModule"
    by (simp add: wired_roots)
qed

definition example_boot :: "string boot" where
  "example_boot = \<lparr>su_nodeConfig = ''config'', su_project = ''project'', su_null = ''null'',
     su_workers = (\<lambda>_. Undefined), su_metaServices = [OtherClass ''ReadyService''],
     su_metaControllers = [OtherClass ''HealthController''], su_adminServices = [], su_adminControllers = []\<rparr>"

theorem wiring_complete_witness:
  "wired True example_boot core_tokens AppModule \<and> \<not> wired True example_boot core_tokens WorkerModule"
  using wiring_complete [of core_tokens example_boot]
  by (simp add: core_services_def example_boot_def core_tokens_def)

lemma class_rank_le: "class_rank c \<le> 6"
  by (cases c rule: class_rank.cases) simp_all

lemma token_rank_le: "token_rank t \<le> 6"
  by (cases t) (simp_all add: class_rank_le)

lemma ranked_chain:
  assumes "R \<subseteq> measure f" and "\<forall>i. Suc i < length ts \<longrightarrow> (ts ! Suc i, ts ! i) \<in> R" and "i < length ts"
  shows "f (ts ! i) + i \<le> f (ts ! 0)"
  using assms(3)
proof (induction i)
  case (Suc i)
  then have "f (ts ! Suc i) < f (ts ! i)" using assms(1,2) by auto
  with Suc show ?case by simp
qed simp

lemma cycle_outside:
  assumes "(a, b) \<in> (N \<union> E)\<^sup>+" and "(a, b) \<notin> N\<^sup>+"
  shows "\<exists>d u. (d, u) \<in> E \<and> (a, d) \<in> (N \<union> E)\<^sup>* \<and> (u, b) \<in> (N \<union> E)\<^sup>*"
  using assms
proof (induction rule: trancl_induct)
  case (base y)
  then have "(a, y) \<in> E" by blast
  then show ?case by blast
next
  case (step y z)
  show ?case
  proof (cases "(a, y) \<in> N\<^sup>+")
    case True
    with step.prems have "(y, z) \<notin> N" by (meson trancl_into_trancl)
    with step.hyps show ?thesis by (blast intro: trancl_into_rtrancl)
  next
    case False
    with step.IH step.hyps(2) show ?thesis by (meson rtrancl.rtrancl_into_rtrancl)
  qed
qed

text \<open>
  C15: the constructors and factories of the repository need each other without a cycle: in every module that
  provides services, on the main thread or in a worker, a path from a service to one it needs, and so on,
  through constructors and factories of the repository passes at most seven services.  Whatever the
  constructors of other packages ask for (\<open>E\<close>, any relation), a service that needs itself does so by way of
  one of them.
\<close>

theorem construction_acyclic:
  assumes "m \<in> set feature_modules"
  shows "(\<forall>ts. (\<forall>i. Suc i < length ts \<longrightarrow> (ts ! Suc i, ts ! i) \<in> needs main (module_data su m)) \<longrightarrow> length ts \<le> 7) \<and>
    (\<forall>E t. (t, t) \<in> (needs main (module_data su m) \<union> E)\<^sup>+ \<longrightarrow>
      (\<exists>d u. (d, u) \<in> E \<and> (t, d) \<in> (needs main (module_data su m) \<union> E)\<^sup>* \<and>
         (u, t) \<in> (needs main (module_data su m) \<union> E)\<^sup>*))"
proof (intro conjI allI impI)
  have ranked: "needs main (module_data su m) \<subseteq> measure token_rank"
    using needs_ranked [OF assms] .
  fix ts
  assume chain: "\<forall>i. Suc i < length ts \<longrightarrow> (ts ! Suc i, ts ! i) \<in> needs main (module_data su m)"
  show "length ts \<le> 7"
  proof (cases ts)
    case (Cons t us)
    then have "token_rank (ts ! length us) + length us \<le> token_rank (ts ! 0)"
      using ranked_chain [OF ranked chain, of "length us"] by simp
    with token_rank_le [of "ts ! 0"] Cons show ?thesis by simp
  qed simp
next
  fix E t
  have "acyclic (needs main (module_data su m))"
    using wf_subset [OF wf_measure needs_ranked [OF assms]] by (rule wf_acyclic)
  then have "(t, t) \<notin> (needs main (module_data su m))\<^sup>+" by (simp add: acyclic_def)
  moreover assume "(t, t) \<in> (needs main (module_data su m) \<union> E)\<^sup>+"
  ultimately show "\<exists>d u. (d, u) \<in> E \<and> (t, d) \<in> (needs main (module_data su m) \<union> E)\<^sup>* \<and>
         (u, t) \<in> (needs main (module_data su m) \<union> E)\<^sup>*" by (intro cycle_outside)
qed

theorem construction_acyclic_witness:
  "(IProjectService, IProjectService) \<notin> (needs False (module_data example_boot WorkerFetchModule) \<union> {})\<^sup>+"
proof
  have m: "WorkerFetchModule \<in> set feature_modules" by (simp add: feature_modules_def)
  assume "(IProjectService, IProjectService) \<in> (needs False (module_data example_boot WorkerFetchModule) \<union> {})\<^sup>+"
  from construction_acyclic [OF m, of False example_boot, THEN conjunct2, rule_format, OF this]
  have "\<exists>d u. (d, u) \<in> ({} :: (token \<times> token) set)" by blast
  then show False by simp
qed

theorem worker_proxies_backed_witness:
  "Class MonitorService \<in> provided (module_data example_boot FetchModule)"
proof -
  have "choose_dispatcher (Given (num_of_int 2)) = WorkerBlockDispatcherService"
    by (simp add: choose_dispatcher_def)
  moreover have "Class MonitorService \<in> proxied_tokens (module_data example_boot WorkerFetchModule)"
    by (simp add: proxied_WorkerFetchModule)
  ultimately show ?thesis
    using worker_proxies_backed [of "\<lambda>_. Given (num_of_int 2)" "\<lambda>t. ''service''" "Class MonitorService" example_boot] by blast
qed

text \<open>
  Every module that makes an API service makes it by the same factory, whose arguments are what the
  constructor asks for, and awaits its initialisation.  The testing module holds a second one under
  \<open>IApi\<close>, which the container constructs and nothing initialises.
\<close>

lemma api_service_wiring:
  "\<forall>m \<in> {FetchModule, WorkerFetchModule, TestingFeatureModule}.
     apiService_provider \<in> set (md_providers (module_data su m))"
  "\<exists>args. call4 apiService_factory (map env apiService_inject) = Awaited (New ConcordiumApiService args) \<and>
     injected env ConcordiumApiService_params args"
  "UseClass (Name ''IApi'') ConcordiumApiService \<in> set (md_providers (module_data su TestingFeatureModule))"
  by (simp_all add: module_defs call4_def apiService_factory_def apiService_inject_def injected_def
      ConcordiumApiService_params_def)

end
