(* ===== verification/Startup.thy ===== *)
theory Startup
  imports ServiceInit Wiring
begin

text \<open>
  Starting the node (packages/node/src/init.ts, main.ts), its workers (indexer/worker/worker.ts) and its
  subcommands (yargs.ts, subcommands/*.init.ts, testing.service.ts): the choice of the port, the order in
  which the services come up, and how the application is configured (configure/configure.module.ts).

  The NestJS application and the services' own initialisation are arguments; \<open>app\<close> is the created
  application context and \<open>pf_get\<close> its lookup of what stands under a token.
\<close>

section \<open>parseInt\<close>

text \<open>\<open>parseInt(s)\<close>: the longest numeral at the start, decimal or with the prefix 0x\<close>

fun leading_digits :: "nat \<Rightarrow> nat option \<Rightarrow> string \<Rightarrow> nat option" where
  "leading_digits base acc [] = acc"
| "leading_digits base acc (c # cs) =
     (case digit_value c of
        Some d \<Rightarrow>
          if d < base then leading_digits base (Some (base * (case acc of Some n \<Rightarrow> n | None \<Rightarrow> 0) + d)) cs else acc
      | None \<Rightarrow> acc)"

definition unsigned_parse :: "string \<Rightarrow> nat option" where
  "unsigned_parse s =
     (if starts_with ''0x'' s \<or> starts_with ''0X'' s then leading_digits 16 None (drop 2 s)
      else leading_digits 10 None s)"

definition parseInt :: "string \<Rightarrow> jsnum" where
  "parseInt text =
     (let s = dropWhile is_space text in
      case (if starts_with ''-'' s then map_option (\<lambda>n. - int n) (unsigned_parse (drop 1 s))
            else if starts_with ''+'' s then map_option int (unsigned_parse (drop 1 s))
            else map_option int (unsigned_parse s)) of
        None \<Rightarrow> NumNaN | Some n \<Rightarrow> bigint_to_number n)"

section \<open>Bootstrap\<close>

definition DEFAULT_PORT :: jsnum where
  "DEFAULT_PORT = num_of_int 3000"

text \<open>\<open>x\<close> is the option \<open>--port\<close> as a string; one that was not given reads as \<open>undefined\<close>.\<close>

definition validate_port :: "string nullable \<Rightarrow> jsnum option" where
  "validate_port x =
     (let p = parseInt (case x of Given s \<Rightarrow> s | Undefined \<Rightarrow> ''undefined'' | Null \<Rightarrow> ''null'') in
      if p = NumNaN then None else Some p)"

record ('s, 'app, 'v) platform =
  pf_findAvailablePort :: "jsnum \<Rightarrow> ('s, jsnum option) io"
  pf_create :: "nest_module \<Rightarrow> ('s, 'app) io"
  pf_app_init :: "'app \<Rightarrow> ('s, unit) io"
  pf_get :: "'app \<Rightarrow> token \<Rightarrow> js_error + 'v"
  pf_projectService_init :: "'v \<Rightarrow> jsnum nullable \<Rightarrow> ('s, unit) io"
  pf_startHeight :: "'v \<Rightarrow> 's \<Rightarrow> jsnum"
  pf_fetchService_init :: "'v \<Rightarrow> jsnum \<Rightarrow> ('s, unit) io"
  pf_enableShutdownHooks :: "'app \<Rightarrow> ('s, unit) io"
  pf_listen :: "'app \<Rightarrow> jsnum \<Rightarrow> ('s, unit) io"
  pf_initWorkerServices :: "'app \<Rightarrow> 'v \<Rightarrow> ('s, unit) io"

definition choose_port :: "('s, 'app, 'v) platform \<Rightarrow> string nullable \<Rightarrow> ('s, jsnum option) io" where
  "choose_port pf argv_port =
     (case validate_port argv_port of
        Some p \<Rightarrow> return_io (Some p)
      | None \<Rightarrow> pf_findAvailablePort pf DEFAULT_PORT)"

definition start_services :: "('s, 'app, 'v) platform \<Rightarrow> jsnum \<Rightarrow> ('s, unit) io" where
  "start_services pf port =
     bind_io (pf_create pf AppModule) (\<lambda>app.
     bind_io (pf_app_init pf app) (\<lambda>_.
     bind_io (lift_io (pf_get pf app IProjectService)) (\<lambda>projectService.
     bind_io (lift_io (pf_get pf app (Class FetchService))) (\<lambda>fetchService.
     bind_io (project_init (pf_projectService_init pf projectService) Undefined) (\<lambda>_.
     bind_io (\<lambda>s. pf_fetchService_init pf fetchService (pf_startHeight pf projectService s) s) (\<lambda>_.
     bind_io (pf_enableShutdownHooks pf app) (\<lambda>_.
       pf_listen pf app port)))))))"

definition bootstrap :: "('s, 'app, 'v) platform \<Rightarrow> string nullable \<Rightarrow> ('s, unit) io" where
  "bootstrap pf argv_port =
     bind_io (choose_port pf argv_port) (\<lambda>port.
       case port of
         Some p \<Rightarrow>
           if num_truthy p
           then catch_io (start_services pf p) (\<lambda>e. throw_io (process_exit ''Node failed to start''))
           else throw_io (process_exit ''Unable to find available port'')
       | None \<Rightarrow> throw_io (process_exit ''Unable to find available port''))"

text \<open>\<open>main.ts\<close>: how a bigint is written as JSON\<close>

definition bigint_toJSON :: "int \<Rightarrow> string" where
  "bigint_toJSON this = bigint_to_string this"

text \<open>\<open>main.ts\<close>: with a subcommand the node is not started here\<close>

definition main_start :: "('s, 'app, 'v) platform \<Rightarrow> string nullable \<Rightarrow> string nullable \<Rightarrow> ('s, unit) io" where
  "main_start pf subcommand argv_port =
     (if \<not> str_truthy subcommand then bootstrap pf argv_port else return_io ())"

section \<open>Workers\<close>

text \<open>\<open>worker.ts\<close>: a failure is logged and thrown again\<close>

definition initWorker :: "('s, 'app, 'v) platform \<Rightarrow> jsnum \<Rightarrow> ('s, unit) io" where
  "initWorker pf startHeight =
     catch_io
       (bind_io (pf_create pf WorkerModule) (\<lambda>app.
        bind_io (pf_app_init pf app) (\<lambda>_.
        bind_io (lift_io (pf_get pf app IProjectService)) (\<lambda>projectService.
        bind_io (project_init (pf_projectService_init pf projectService) (Given startHeight)) (\<lambda>_.
        bind_io (lift_io (pf_get pf app (Class WorkerService))) (\<lambda>workerService.
          pf_initWorkerServices pf app workerService))))))
       (\<lambda>e. throw_io e)"

section \<open>The two programs\<close>

text \<open>
  What the files main.ts and worker.ts do when they are loaded: the logger is set up before anything that
  logs; \<open>initLogger\<close> and \<open>createWorkerHost\<close> are @subql/node-core's.  \<open>set_toJSON\<close> is the assignment to
  \<open>BigInt.prototype.toJSON\<close>, which a worker does not make.
\<close>

record argv_options =
  av_debug :: jsval
  av_outputFmt :: "string nullable"
  av_logLevel :: "string nullable"
  av_subcommand :: "string nullable"
  av_port :: "string nullable"

definition main_module ::
  "((int \<Rightarrow> string) \<Rightarrow> ('s, unit) io) \<Rightarrow> (jsval \<Rightarrow> string nullable \<Rightarrow> string nullable \<Rightarrow> ('s, unit) io) \<Rightarrow> ('s, 'app, 'v) platform \<Rightarrow> argv_options \<Rightarrow> ('s, unit) io"
where
  "main_module set_toJSON initLogger pf argv =
     bind_io (set_toJSON bigint_toJSON) (\<lambda>_.
     bind_io (initLogger (av_debug argv) (av_outputFmt argv) (av_logLevel argv)) (\<lambda>_.
       main_start pf (av_subcommand argv) (av_port argv)))"

definition worker_module ::
  "(jsval \<Rightarrow> string nullable \<Rightarrow> string nullable \<Rightarrow> ('s, unit) io) \<Rightarrow>
   (string list \<Rightarrow> (jsnum \<Rightarrow> ('s, unit) io) \<Rightarrow> ('s, 'host) io) \<Rightarrow> ('s, 'app, 'v) platform \<Rightarrow> argv_options \<Rightarrow> ('s, 'host) io"
where
  "worker_module initLogger createWorkerHost pf argv =
     bind_io (initLogger (av_debug argv) (av_outputFmt argv) (av_logLevel argv)) (\<lambda>_.
       createWorkerHost [] (initWorker pf))"

section \<open>Configuration and subcommands\<close>

text \<open>
  \<open>registerApp\<close> of @subql/node-core reads the arguments, makes the project with \<open>SubqueryProject.create\<close>
  and gives the configuration and the project.
\<close>

definition getInstance ::
  "('argv \<Rightarrow> 'create \<Rightarrow> 'help \<Rightarrow> 'pjson \<Rightarrow> ('s, 'v \<times> 'v) io) \<Rightarrow> 'argv \<Rightarrow> 'create \<Rightarrow> 'help \<Rightarrow> 'pjson \<Rightarrow> ('s, 'v \<times> 'v) io"
where
  "getInstance registerApp argv create showHelp pjson = registerApp argv create showHelp pjson"

definition register :: "('s, 'v \<times> 'v) io \<Rightarrow> 'v boot \<Rightarrow> ('s, 'v module_spec) io" where
  "register instance_of su =
     bind_io instance_of (\<lambda>(nodeConfig, project).
       return_io (ConfigureModule_register (su\<lparr>su_nodeConfig := nodeConfig, su_project := project\<rparr>)))"

definition testingInit :: "('s, 'cfg) io \<Rightarrow> ('cfg \<Rightarrow> ('s, unit) io) \<Rightarrow> ('s, unit) io" where
  "testingInit getInst run =
     bind_io (catch_io (bind_io getInst run) (\<lambda>e. throw_io (process_exit ''Testing failed''))) (\<lambda>_.
       throw_io (process_exit ''0''))"

definition forceCleanInit :: "(nest_module \<Rightarrow> ('s, unit) io) \<Rightarrow> ('s, unit) io" where
  "forceCleanInit forceClean = forceClean ForceCleanModule"

definition reindexInit :: "(nest_module \<Rightarrow> jsnum \<Rightarrow> ('s, unit) io) \<Rightarrow> jsnum \<Rightarrow> ('s, unit) io" where
  "reindexInit baseReindexInit targetHeight = baseReindexInit ReindexModule targetHeight"

text \<open>What \<open>yargsBuilder\<close> is given: the three subcommands\<close>

record 's yargs_commands =
  yc_initTesting :: "('s, unit) io"
  yc_initForceClean :: "('s, unit) io"
  yc_initReindex :: "jsnum \<Rightarrow> ('s, unit) io"

definition yargsOptions ::
  "('s, 'cfg) io \<Rightarrow> ('cfg \<Rightarrow> ('s, unit) io) \<Rightarrow> (nest_module \<Rightarrow> ('s, unit) io) \<Rightarrow>
   (nest_module \<Rightarrow> jsnum \<Rightarrow> ('s, unit) io) \<Rightarrow> 's yargs_commands"
where
  "yargsOptions getInst run forceClean baseReindexInit =
     \<lparr>yc_initTesting = testingInit getInst run,
      yc_initForceClean = forceCleanInit forceClean,
      yc_initReindex = (\<lambda>targetHeight. reindexInit baseReindexInit targetHeight)\<rparr>"

section \<open>The testing service\<close>

definition getTestRunner :: "('s, 'app, 'v) platform \<Rightarrow> ('s, 'app \<times> 'v) io" where
  "getTestRunner pf =
     bind_io (pf_create pf TestingModule) (\<lambda>testContext.
     bind_io (pf_app_init pf testContext) (\<lambda>_.
     bind_io (lift_io (pf_get pf testContext (Class ProjectService))) (\<lambda>projectService.
     bind_io (project_init (pf_projectService_init pf projectService) Undefined) (\<lambda>_.
     bind_io (lift_io (pf_get pf testContext (Class TestRunner))) (\<lambda>runner.
       return_io (testContext, runner))))))"

definition testing_indexBlock ::
  "(iblock \<Rightarrow> subql_datasource list \<Rightarrow> ('s, 'r) io) \<Rightarrow> (string \<Rightarrow> subql_datasource list) \<Rightarrow> iblock \<Rightarrow> string \<Rightarrow> ('s, unit) io"
where
  "testing_indexBlock indexer_indexBlock getDsWithHandler block handler =
     bind_io (indexer_indexBlock block (getDsWithHandler handler)) (\<lambda>_. return_io ())"

section \<open>Properties\<close>

lemma leading_digits_append:
  assumes "\<forall>c \<in> set ds. \<exists>d < base. digit_value c = Some d"
    and "rest = [] \<or> (\<forall>d < base. digit_value (hd rest) \<noteq> Some d)"
  shows "leading_digits base acc (ds @ rest) = leading_digits base acc ds"
  using assms(1)
proof (induction ds arbitrary: acc)
  case Nil
  then show ?case using assms(2) by (cases rest) (auto split: option.split)
qed (auto split: option.split)

lemma leading_digits_acc: "digits_acc base a ds = Some n \<Longrightarrow> leading_digits base (Some a) ds = Some n"
  by (induction ds arbitrary: a) (auto split: option.splits if_splits)

lemma nat_digits_values: "c \<in> set (nat_digits n) \<Longrightarrow> \<exists>d < 10. digit_value c = Some d"
proof -
  assume "c \<in> set (nat_digits n)"
  then have "48 \<le> (of_char c :: nat) \<and> (of_char c :: nat) \<le> 57" by (rule nat_digits_range)
  then have "(of_char c :: nat) - 48 < 10" and "digit_value c = Some (of_char c - 48)"
    by (arith, simp add: digit_value_def Let_def)
  then show ?thesis by blast
qed

lemma leading_nat_digits: "leading_digits 10 None (nat_digits n) = Some n"
proof (cases "nat_digits n")
  case (Cons c cs)
  then have "digits_acc 10 0 (c # cs) = Some n" using digits_acc_nat_digits [of n] by simp
  with Cons nat_digits_values [of c n] show ?thesis
    by (auto split: option.splits if_splits intro: leading_digits_acc)
qed simp

lemma parseInt_nat_digits:
  assumes "rest = [] \<or> digit_value (hd rest) = None \<and> hd rest \<notin> {CHR ''x'', CHR ''X''}"
  shows "parseInt (nat_digits n @ rest) = bigint_to_number (int n)"
proof -
  let ?s = "nat_digits n @ rest"
  obtain c cs where s: "nat_digits n = c # cs" by (cases "nat_digits n") auto
  have digits: "48 \<le> (of_char x :: nat) \<and> (of_char x :: nat) \<le> 57" if "x \<in> set (nat_digits n)" for x
    using that by (rule nat_digits_range)
  have "\<not> is_space c" "c \<noteq> CHR ''-''" "c \<noteq> CHR ''+''"
    using digits [of c] s by (auto simp: is_space_def Let_def)
  moreover have "\<not> (\<exists>zs. nat_digits n @ rest = c # x # zs)" if "x = CHR ''x'' \<or> x = CHR ''X''" for x
    using digits [of x] assms that s by (cases cs) auto
  then have "\<not> starts_with ''0x'' ?s" "\<not> starts_with ''0X'' ?s"
    using s by (auto simp: starts_with_iff)
  moreover have "leading_digits 10 None ?s = Some n"
    using leading_digits_append [of "nat_digits n" 10 rest None] nat_digits_values assms leading_nat_digits by auto
  ultimately have "unsigned_parse ?s = Some n" by (simp add: unsigned_parse_def)
  moreover have "dropWhile is_space ?s = ?s" "\<not> starts_with ''-'' ?s" "\<not> starts_with ''+'' ?s"
    using \<open>\<not> is_space c\<close> \<open>c \<noteq> CHR ''-''\<close> \<open>c \<noteq> CHR ''+''\<close> s by simp_all
  ultimately show ?thesis by (simp add: parseInt_def Let_def)
qed

text \<open>
  The port: a number, whatever non-digits follow it, is used as given without looking for a free
  port; zero ends the process instead of letting the system choose; without a usable number the search
  starts at 3000.
\<close>

theorem bootstrap_port:
  assumes "rest = [] \<or> digit_value (hd rest) = None \<and> hd rest \<notin> {CHR ''x'', CHR ''X''}" and "int n \<le> 2 ^ 53"
  shows "bootstrap pf (Given (nat_digits n @ rest)) s =
      (if n = 0 then (Inl (process_exit ''Unable to find available port''), s)
       else catch_io (start_services pf (num_of_int (int n))) (\<lambda>e. throw_io (process_exit ''Node failed to start'')) s) \<and>
    choose_port pf Undefined = pf_findAvailablePort pf (num_of_int 3000)"
proof
  have "parseInt (nat_digits n @ rest) = num_of_int (int n)"
    using parseInt_nat_digits [OF assms(1)] bigint_to_number_exact [of "int n"] assms(2) by simp
  then show "bootstrap pf (Given (nat_digits n @ rest)) s =
      (if n = 0 then (Inl (process_exit ''Unable to find available port''), s)
       else catch_io (start_services pf (num_of_int (int n))) (\<lambda>e. throw_io (process_exit ''Node failed to start'')) s)"
    by (simp add: bootstrap_def choose_port_def validate_port_def Let_def throw_io_def)
  have "digit_value (CHR ''u'') = None" by (simp add: digit_value_def)
  then have "parseInt ''undefined'' = NumNaN"
    by (simp add: parseInt_def unsigned_parse_def is_space_def Let_def)
  then show "choose_port pf Undefined = pf_findAvailablePort pf (num_of_int 3000)"
    by (simp add: choose_port_def validate_port_def DEFAULT_PORT_def)
qed

text \<open>A platform that records what is called\<close>

definition example_platform :: "(string list, nest_module, token) platform" where
  "example_platform = \<lparr>pf_findAvailablePort = (\<lambda>p l. (Inr (Some p), l @ [''find''])),
     pf_create = (\<lambda>m l. (Inr m, l @ [''create''])), pf_app_init = (\<lambda>_ l. (Inr (), l @ [''app''])),
     pf_get = (\<lambda>m t. if t \<in> \<Union> (provided ` module_data example_boot ` set (m # md_imports (module_data example_boot m)))
       then Inr t else Inl (plain_error ''Nest could not find the given element'')),
     pf_projectService_init = (\<lambda>_ _ l. (Inr (), l @ [''project''])), pf_startHeight = (\<lambda>_ l. num_of_int 1),
     pf_fetchService_init = (\<lambda>_ h l. (Inl (plain_error ''no connection''), l @ [''fetch''])),
     pf_enableShutdownHooks = (\<lambda>_ l. (Inr (), l @ [''hooks''])), pf_listen = (\<lambda>_ p l. (Inr (), l @ [''listen''])),
     pf_initWorkerServices = (\<lambda>_ _ l. (Inr (), l @ [''worker'']))\<rparr>"

lemma example_get:
  "pf_get example_platform AppModule IProjectService = Inr IProjectService"
  "pf_get example_platform AppModule (Class FetchService) = Inr (Class FetchService)"
  "pf_get example_platform WorkerModule IProjectService = Inr IProjectService"
  "pf_get example_platform WorkerModule (Class WorkerService) = Inr (Class WorkerService)"
  "pf_get example_platform TestingModule (Class ProjectService) =
     Inl (plain_error ''Nest could not find the given element'')"
  by (simp_all add: example_platform_def provided_def module_defs)

theorem bootstrap_port_witness:
  "bootstrap example_platform (Given ''0'') [] = (Inl (process_exit ''Unable to find available port''), []) \<and>
   bootstrap example_platform (Given ''8 '') [] =
     (Inl (process_exit ''Node failed to start''), [''create'', ''app'', ''project'', ''fetch''])"
proof -
  have "char_of (48 :: nat) = CHR ''0''" "char_of (56 :: nat) = CHR ''8''"
    by (simp_all add: char_of_def bit_numeral_rec bit_0)
  then have "nat_digits 0 = ''0''" "nat_digits 8 = ''8''"
    by (simp_all add: nat_digits.simps [of 0] nat_digits.simps [of 8])
  moreover have "digit_value (CHR '' '') = None" by (simp add: digit_value_def)
  moreover have "start_services example_platform (num_of_int 8) [] =
      (Inl (plain_error ''no connection''), [''create'', ''app'', ''project'', ''fetch''])"
    using example_get by (simp add: start_services_def project_init_def io_defs) (simp add: example_platform_def)
  ultimately show ?thesis
    using bootstrap_port [of "[]" 0 example_platform "[]"] bootstrap_port [of "'' ''" 8 example_platform "[]"]
    by (simp add: io_defs)
qed

text \<open>
  A node that starts has initialised the application and found its two services, then initialised the
  project, then the fetch service at the start height the project determined, before it listens; and if the
  project or the fetch service cannot be initialised, the process ends without listening.
\<close>

theorem bootstrap_order:
  assumes "start_services pf port s = (Inr (), s')"
  shows "\<exists>app ps fs s1 s2 s3 s4 s5.
    pf_create pf AppModule s = (Inr app, s1) \<and> pf_app_init pf app s1 = (Inr (), s2) \<and>
    pf_get pf app IProjectService = Inr ps \<and> pf_get pf app (Class FetchService) = Inr fs \<and>
    pf_projectService_init pf ps Undefined s2 = (Inr (), s3) \<and>
    pf_fetchService_init pf fs (pf_startHeight pf ps s3) s3 = (Inr (), s4) \<and>
    pf_enableShutdownHooks pf app s4 = (Inr (), s5) \<and> pf_listen pf app port s5 = (Inr (), s')"
  using assms by (auto simp: start_services_def project_init_def io_simps)

theorem bootstrap_order_witness:
  "\<exists>s1. pf_projectService_init example_platform IProjectService Undefined s1 =
     (Inr (), [''create'', ''app'', ''project''])"
proof -
  let ?pf = "example_platform\<lparr>pf_fetchService_init := \<lambda>_ h l. (Inr (), l @ [''fetch''])\<rparr>"
  have "pf_get ?pf = pf_get example_platform" by simp
  then have run: "start_services ?pf (num_of_int 80) [] =
      (Inr (), [''create'', ''app'', ''project'', ''fetch'', ''hooks'', ''listen''])"
    using example_get by (simp add: start_services_def project_init_def io_defs) (simp add: example_platform_def)
  from bootstrap_order [OF run] show ?thesis
    using example_get by (auto simp: example_platform_def)
qed

text \<open>
  A worker starts like the node, but at the height it is given and with its own service; whatever goes wrong
  is thrown on unchanged.
\<close>

lemma worker_order:
  "initWorker pf h s = (Inr (), s') \<longleftrightarrow> (\<exists>app ps ws s1 s2 s3.
     pf_create pf WorkerModule s = (Inr app, s1) \<and> pf_app_init pf app s1 = (Inr (), s2) \<and>
     pf_get pf app IProjectService = Inr ps \<and> pf_projectService_init pf ps (Given h) s2 = (Inr (), s3) \<and>
     pf_get pf app (Class WorkerService) = Inr ws \<and> pf_initWorkerServices pf app ws s3 = (Inr (), s'))"
  by (auto simp: initWorker_def project_init_def io_simps)

text \<open>What an application knows: the tokens of its modules and, \<open>ext\<close>, of those of other packages\<close>

definition application_tokens :: "'v boot \<Rightarrow> token set \<Rightarrow> nest_module \<Rightarrow> token set" where
  "application_tokens su ext root =
     ext \<union> (\<Union>m \<in> set (root # md_imports (module_data su root)). provided (module_data su m))"

lemma lookups_provided:
  "{IProjectService, Class FetchService} \<subseteq> application_tokens su ext AppModule"
  "{IProjectService, Class WorkerService} \<subseteq> application_tokens su ext WorkerModule"
  by (simp_all add: application_tokens_def provided_def module_defs)

text \<open>
  C16: the testing command cannot get its runner.  It looks the project service up by its class, where the
  testing module provides it only under the string \<open>IProjectService\<close>; a container that knows no other
  tokens than the provided ones throws, before the project is initialised or the runner looked up.  Starting
  the node or a worker depends on lookups of provided tokens only: it goes the same whatever the container
  would answer for any other token.
\<close>

theorem test_runner_unavailable:
  assumes "Class ProjectService \<notin> ext"
    and "\<And>t. t \<notin> application_tokens su ext TestingModule \<Longrightarrow> pf_get pf app t = Inl (unknown t)"
    and "pf_create pf TestingModule s = (Inr app, s1)" and "pf_app_init pf app s1 = (Inr (), s2)"
  shows "getTestRunner pf s = (Inl (unknown (Class ProjectService)), s2) \<and>
    (\<forall>g. (\<forall>a t. t \<in> application_tokens su ext AppModule \<longrightarrow> g a t = pf_get pf a t) \<longrightarrow>
      bootstrap (pf\<lparr>pf_get := g\<rparr>) port = bootstrap pf port) \<and>
    (\<forall>g. (\<forall>a t. t \<in> application_tokens su ext WorkerModule \<longrightarrow> g a t = pf_get pf a t) \<longrightarrow>
      initWorker (pf\<lparr>pf_get := g\<rparr>) startHeight = initWorker pf startHeight)"
proof (intro conjI allI impI)
  have "Class ProjectService \<notin> application_tokens su ext TestingModule"
    using assms(1) by (simp add: application_tokens_def provided_def module_defs)
  then have "pf_get pf app (Class ProjectService) = Inl (unknown (Class ProjectService))"
    by (rule assms(2))
  then show "getTestRunner pf s = (Inl (unknown (Class ProjectService)), s2)"
    using assms(3,4) by (simp add: getTestRunner_def io_defs)
next
  fix g assume "\<forall>a t. t \<in> application_tokens su ext AppModule \<longrightarrow> g a t = pf_get pf a t"
  then have "g a IProjectService = pf_get pf a IProjectService" "g a (Class FetchService) = pf_get pf a (Class FetchService)" for a
    using lookups_provided(1) [of su ext] by simp_all
  then have "start_services (pf\<lparr>pf_get := g\<rparr>) = start_services pf"
    by (intro HOL.ext) (simp add: start_services_def)
  moreover have "choose_port (pf\<lparr>pf_get := g\<rparr>) = choose_port pf"
    by (intro HOL.ext) (simp add: choose_port_def split: option.split)
  ultimately show "bootstrap (pf\<lparr>pf_get := g\<rparr>) port = bootstrap pf port"
    by (simp only: bootstrap_def)
next
  fix g assume "\<forall>a t. t \<in> application_tokens su ext WorkerModule \<longrightarrow> g a t = pf_get pf a t"
  then have "g a IProjectService = pf_get pf a IProjectService" "g a (Class WorkerService) = pf_get pf a (Class WorkerService)" for a
    using lookups_provided(2) [of su ext] by simp_all
  then show "initWorker (pf\<lparr>pf_get := g\<rparr>) startHeight = initWorker pf startHeight"
    by (simp add: initWorker_def)
qed

theorem test_runner_unavailable_witness:
  "getTestRunner example_platform [] =
     (Inl (plain_error ''Nest could not find the given element''), [''create'', ''app''])"
proof -
  have "pf_get example_platform TestingModule t = Inl (plain_error ''Nest could not find the given element'')"
    if "t \<notin> application_tokens example_boot {} TestingModule" for t
    using that by (simp add: example_platform_def application_tokens_def)
  from test_runner_unavailable [of "{}" example_boot example_platform TestingModule
      "\<lambda>_. plain_error ''Nest could not find the given element''" "[]" "[''create'']" "[''create'', ''app'']", OF _ this]
  show ?thesis by (simp add: example_platform_def)
qed

text \<open>
  C17: a bigint written as JSON reads back as itself, of any size and sign, and as the value of an event
  filter it selects that bigint and no other.
\<close>

theorem bigint_json_roundtrip:
  "BigInt_of_string (bigint_toJSON n) = Inr n \<and>
   (event_value_matches (JBig m) (bigint_toJSON n) = Inr (m = n)) \<and>
   (\<forall>ps. obj_member ps key = JBig m \<longrightarrow> key \<notin> {''id'', ''block'', ''transaction''} \<longrightarrow>
     event_values_match (te_js (ConcordiumTxEvent ps i b t)) [(key, bigint_toJSON n)] = Inr (m = n))"
proof -
  have parse: "BigInt_of_string (bigint_toJSON n) = Inr n"
    by (simp add: BigInt_of_string_def bigint_toJSON_def string_to_bigint_roundtrip)
  then have match: "event_value_matches (JBig m) (bigint_toJSON n) = Inr (m = n)"
    by (simp add: event_value_matches_def equalsAddressAccount_def isAddressAccount_def equalsContractAddress_def
        isContractAddress_def equalsAddress_def isAddress_def equalsBigInt_def)
  have "event_values_match (te_js (ConcordiumTxEvent ps i b t)) [(key, bigint_toJSON n)] = Inr (m = n)"
    if "obj_member ps key = JBig m" "key \<notin> {''id'', ''block'', ''transaction''}" for ps
    using that js_get_te_own [of key ps i b t] match by (simp del: js_get.simps te_js.simps)
  with parse match show ?thesis by blast
qed

theorem bigint_json_roundtrip_witness:
  "event_values_match (te_js (ConcordiumTxEvent [(''amount'', JBig 500)] 0 None (ConcordiumTx [] None)))
     [(''amount'', bigint_toJSON 500)] = Inr True"
  using bigint_json_roundtrip [of 500 500 "''amount''" 0 None "ConcordiumTx [] None"]
  by (simp add: obj_member_def del: te_js.simps)

end
