(* ===== verification/Validation.thy ===== *)
theory Validation
  imports Manifest
begin

text \<open>
  The classes a manifest is validated against (packages/common-concordium/src/project/models.ts and
  versioned/v1_0_0/model.ts): the fields of each class with their decorators, and what it means for a value
  to conform to a class.

  The decorators are those of class-validator and class-transformer, whose documentation gives their
  meaning: \<open>satisfies\<close> is a single check, \<open>class_of\<close> the class the nested value of a field is made an
  instance of.  \<open>conforms common C v\<close> says that \<open>v\<close> meets what class \<open>C\<close> declares, under the options of
  \<open>validateObject\<close>, which forbid undeclared properties; \<open>common\<close> says it of the classes of @subql/common.
  A validator is an argument, and what is known of it a hypothesis: without errors, the object conforms; where
  it is said what passes, also the converse.
\<close>

section \<open>Decorators\<close>

datatype check =
    IsOptional | IsString | IsObject | IsArray | IsInt | IsNotEmpty
  | IsEnum "string list" | IsIn "string list" | Equals string
  | ValidateNested | ValidateNestedEach

datatype model_class =
    TransactionFilter | TransactionEventFilter | SpecialEventFilter
  | BlockHandler | TransactionHandler | TransactionEventHandler | SpecialEventHandler | CustomHandler
  | ConcordiumMapping | CustomMapping
  | RuntimeDataSourceBase | FileReferenceImpl | CustomDataSourceBase
  | ConcordiumRunnerNodeImpl | ConcordiumRuntimeDataSourceImpl | ConcordiumCustomDataSourceImpl
  | RuntimeDatasourceTemplateImpl | CustomDatasourceTemplateImpl | ConcordiumRunnerSpecsImpl
  | ProjectNetworkDeploymentV1_0_0 | ProjectNetworkV1_0_0 | DeploymentV1_0_0 | ProjectManifestV1_0_0Impl
  | CommonClass string

text \<open>
  What \<open>@Type\<close> or a transformation makes of a nested value: nothing, an instance of a class, of the
  handler class of its kind, or of the class its discriminator names.
\<close>

datatype nested_type =
  Untyped | Typed model_class | ByKind | Discriminated string model_class "(string \<times> model_class) list"

record field =
  fd_name :: string
  fd_checks :: "check list"
  fd_type :: nested_type

abbreviation plain :: "string \<Rightarrow> check list \<Rightarrow> field" where
  "plain n cs \<equiv> \<lparr>fd_name = n, fd_checks = cs, fd_type = Untyped\<rparr>"

abbreviation typed :: "string \<Rightarrow> check list \<Rightarrow> model_class \<Rightarrow> field" where
  "typed n cs c \<equiv> \<lparr>fd_name = n, fd_checks = cs, fd_type = Typed c\<rparr>"

text \<open>The values of the two enumerations; the groups of \<open>IsEnum\<close> select nothing, since no group is asked for.\<close>

definition handler_kind_values :: "string list" where
  "handler_kind_values = map kind_string handler_kinds"

definition datasource_kind_values :: "string list" where
  "datasource_kind_values = [runtime_kind]"

section \<open>Filters, handlers and mappings\<close>

definition TransactionFilter_fields :: "field list" where
  "TransactionFilter_fields = [plain ''type'' [IsOptional, IsString], plain ''values'' [IsOptional, IsObject]]"

definition TransactionEventFilter_fields :: "field list" where
  "TransactionEventFilter_fields = [plain ''type'' [IsOptional, IsString], plain ''values'' [IsOptional, IsObject]]"

definition SpecialEventFilter_fields :: "field list" where
  "SpecialEventFilter_fields = [plain ''type'' [IsOptional, IsString], plain ''values'' [IsOptional, IsObject]]"

definition BlockHandler_fields :: "field list" where
  "BlockHandler_fields =
     [typed ''filter'' [IsObject, IsOptional] (CommonClass ''BlockFilterImpl''),
      plain ''kind'' [IsEnum handler_kind_values],
      plain ''handler'' [IsString]]"

definition TransactionHandler_fields :: "field list" where
  "TransactionHandler_fields =
     [typed ''filter'' [IsOptional, ValidateNested] TransactionFilter,
      plain ''kind'' [IsEnum handler_kind_values],
      plain ''handler'' [IsString]]"

definition TransactionEventHandler_fields :: "field list" where
  "TransactionEventHandler_fields =
     [typed ''filter'' [IsOptional, ValidateNested] TransactionEventFilter,
      plain ''kind'' [IsEnum handler_kind_values],
      plain ''handler'' [IsString]]"

definition SpecialEventHandler_fields :: "field list" where
  "SpecialEventHandler_fields =
     [typed ''filter'' [IsOptional, ValidateNested] SpecialEventFilter,
      plain ''kind'' [IsEnum handler_kind_values],
      plain ''handler'' [IsString]]"

definition CustomHandler_fields :: "field list" where
  "CustomHandler_fields =
     [plain ''kind'' [IsString], plain ''handler'' [IsString], plain ''filter'' [IsObject, IsOptional]]"

definition ConcordiumMapping_fields :: "field list" where
  "ConcordiumMapping_fields =
     [\<lparr>fd_name = ''handlers'', fd_checks = [IsArray, ValidateNested], fd_type = ByKind\<rparr>,
      plain ''file'' [IsString]]"

definition CustomMapping_fields :: "field list" where
  "CustomMapping_fields =
     [typed ''handlers'' [IsArray, ValidateNested] CustomHandler, plain ''file'' [IsString]]"

section \<open>Datasources\<close>

definition RuntimeDataSourceBase_fields :: "field list" where
  "RuntimeDataSourceBase_fields =
     [plain ''kind'' [IsEnum datasource_kind_values],
      typed ''mapping'' [ValidateNested] ConcordiumMapping,
      plain ''assets'' [IsOptional]]"

definition FileReferenceImpl_fields :: "field list" where
  "FileReferenceImpl_fields = [plain ''file'' [IsString]]"

definition CustomDataSourceBase_fields :: "field list" where
  "CustomDataSourceBase_fields =
     [plain ''kind'' [IsString],
      typed ''mapping'' [ValidateNested] CustomMapping,
      plain ''startBlock'' [IsOptional, IsInt],
      typed ''assets'' [ValidateNestedEach] FileReferenceImpl,
      typed ''processor'' [IsObject] (CommonClass ''ProcessorImpl'')]"

text \<open>\<open>kind\<close> selects the class of a datasource or template\<close>

definition dataSource_type :: nested_type where
  "dataSource_type =
     Discriminated ''kind'' ConcordiumCustomDataSourceImpl
       [(''concordium/Runtime'', ConcordiumRuntimeDataSourceImpl)]"

definition template_type :: nested_type where
  "template_type =
     Discriminated ''kind'' CustomDatasourceTemplateImpl
       [(''concordium/Runtime'', RuntimeDatasourceTemplateImpl)]"

section \<open>Deployments and manifests\<close>

definition ConcordiumRunnerNodeImpl_fields :: "field list" where
  "ConcordiumRunnerNodeImpl_fields = [plain ''name'' [IsIn node_names]]"

definition RuntimeDatasourceTemplateImpl_fields :: "field list" where
  "RuntimeDatasourceTemplateImpl_fields = [plain ''name'' [IsString]]"

definition CustomDatasourceTemplateImpl_fields :: "field list" where
  "CustomDatasourceTemplateImpl_fields = [plain ''name'' [IsString]]"

definition ConcordiumRunnerSpecsImpl_fields :: "field list" where
  "ConcordiumRunnerSpecsImpl_fields =
     [typed ''node'' [IsObject, ValidateNested] ConcordiumRunnerNodeImpl,
      typed ''query'' [IsObject, ValidateNested] (CommonClass ''RunnerQueryBaseModel'')]"

definition ProjectNetworkDeploymentV1_0_0_fields :: "field list" where
  "ProjectNetworkDeploymentV1_0_0_fields =
     [plain ''chainId'' [IsNotEmpty, IsString], plain ''bypassBlocks'' [IsOptional, IsArray]]"

definition ProjectNetworkV1_0_0_fields :: "field list" where
  "ProjectNetworkV1_0_0_fields =
     [typed ''chaintypes'' [ValidateNested, IsOptional] (CommonClass ''FileType'')]"

definition DeploymentV1_0_0_fields :: "field list" where
  "DeploymentV1_0_0_fields =
     [typed ''network'' [ValidateNested] ProjectNetworkDeploymentV1_0_0,
      typed ''runner'' [IsObject, ValidateNested] ConcordiumRunnerSpecsImpl,
      \<lparr>fd_name = ''dataSources'', fd_checks = [IsArray, ValidateNested], fd_type = dataSource_type\<rparr>,
      \<lparr>fd_name = ''templates'', fd_checks = [IsOptional, IsArray, ValidateNested], fd_type = template_type\<rparr>]"

definition ProjectManifestV1_0_0Impl_fields :: "field list" where
  "ProjectManifestV1_0_0Impl_fields =
     [plain ''specVersion'' [Equals ''1.0.0''],
      \<lparr>fd_name = ''dataSources'', fd_checks = [], fd_type = dataSource_type\<rparr>,
      typed ''network'' [] ProjectNetworkV1_0_0,
      plain ''name'' [IsString],
      plain ''version'' [IsString],
      typed ''schema'' [ValidateNested] (CommonClass ''FileType''),
      \<lparr>fd_name = ''templates'', fd_checks = [IsOptional, IsArray, ValidateNested], fd_type = template_type\<rparr>,
      typed ''runner'' [IsObject, ValidateNested] ConcordiumRunnerSpecsImpl,
      typed ''parent'' [IsOptional, IsObject] (CommonClass ''ParentProjectModel'')]"

section \<open>Classes\<close>

text \<open>The fields a class declares, with those of its superclasses in the repository\<close>

primrec declared_fields :: "model_class \<Rightarrow> field list" where
  "declared_fields TransactionFilter = TransactionFilter_fields"
| "declared_fields TransactionEventFilter = TransactionEventFilter_fields"
| "declared_fields SpecialEventFilter = SpecialEventFilter_fields"
| "declared_fields BlockHandler = BlockHandler_fields"
| "declared_fields TransactionHandler = TransactionHandler_fields"
| "declared_fields TransactionEventHandler = TransactionEventHandler_fields"
| "declared_fields SpecialEventHandler = SpecialEventHandler_fields"
| "declared_fields CustomHandler = CustomHandler_fields"
| "declared_fields ConcordiumMapping = ConcordiumMapping_fields"
| "declared_fields CustomMapping = CustomMapping_fields"
| "declared_fields RuntimeDataSourceBase = RuntimeDataSourceBase_fields"
| "declared_fields FileReferenceImpl = FileReferenceImpl_fields"
| "declared_fields CustomDataSourceBase = CustomDataSourceBase_fields"
| "declared_fields ConcordiumRunnerNodeImpl = ConcordiumRunnerNodeImpl_fields"
| "declared_fields ConcordiumRuntimeDataSourceImpl = RuntimeDataSourceBase_fields"
| "declared_fields ConcordiumCustomDataSourceImpl = CustomDataSourceBase_fields"
| "declared_fields RuntimeDatasourceTemplateImpl = RuntimeDatasourceTemplateImpl_fields @ RuntimeDataSourceBase_fields"
| "declared_fields CustomDatasourceTemplateImpl = CustomDatasourceTemplateImpl_fields @ CustomDataSourceBase_fields"
| "declared_fields ConcordiumRunnerSpecsImpl = ConcordiumRunnerSpecsImpl_fields"
| "declared_fields ProjectNetworkDeploymentV1_0_0 = ProjectNetworkDeploymentV1_0_0_fields"
| "declared_fields ProjectNetworkV1_0_0 = ProjectNetworkV1_0_0_fields"
| "declared_fields DeploymentV1_0_0 = DeploymentV1_0_0_fields"
| "declared_fields ProjectManifestV1_0_0Impl = ProjectManifestV1_0_0Impl_fields"
| "declared_fields (CommonClass s) = []"

text \<open>The class of @subql/common that a class extends, in the end\<close>

definition extended :: "model_class \<Rightarrow> string option" where
  "extended C =
     (case C of
        RuntimeDataSourceBase \<Rightarrow> Some ''BaseDataSource''
      | CustomDataSourceBase \<Rightarrow> Some ''BaseDataSource''
      | ConcordiumRuntimeDataSourceImpl \<Rightarrow> Some ''BaseDataSource''
      | ConcordiumCustomDataSourceImpl \<Rightarrow> Some ''BaseDataSource''
      | RuntimeDatasourceTemplateImpl \<Rightarrow> Some ''BaseDataSource''
      | CustomDatasourceTemplateImpl \<Rightarrow> Some ''BaseDataSource''
      | ConcordiumRunnerNodeImpl \<Rightarrow> Some ''RunnerNodeImpl''
      | ProjectNetworkV1_0_0 \<Rightarrow> Some ''CommonProjectNetworkV1_0_0''
      | DeploymentV1_0_0 \<Rightarrow> Some ''BaseDeploymentV1_0_0''
      | ProjectManifestV1_0_0Impl \<Rightarrow> Some ''ProjectManifestBaseImpl''
      | CommonClass s \<Rightarrow> Some s
      | _ \<Rightarrow> None)"

lemmas fields_defs [simp] =
  TransactionFilter_fields_def TransactionEventFilter_fields_def SpecialEventFilter_fields_def
  BlockHandler_fields_def TransactionHandler_fields_def TransactionEventHandler_fields_def
  SpecialEventHandler_fields_def CustomHandler_fields_def ConcordiumMapping_fields_def
  CustomMapping_fields_def RuntimeDataSourceBase_fields_def FileReferenceImpl_fields_def
  CustomDataSourceBase_fields_def

primrec handler_model :: "handler_class \<Rightarrow> model_class" where
  "handler_model BlockHandlerClass = BlockHandler"
| "handler_model TransactionHandlerClass = TransactionHandler"
| "handler_model TransactionEventHandlerClass = TransactionEventHandler"
| "handler_model SpecialEventHandlerClass = SpecialEventHandler"

section \<open>Conformance\<close>

text \<open>An own property; \<open>JUndef\<close> when there is none\<close>

definition own :: "props \<Rightarrow> string \<Rightarrow> jsval" where
  "own ps k = (case map_of ps k of Some v \<Rightarrow> v | None \<Rightarrow> JUndef)"

fun own_of :: "jsval \<Rightarrow> string \<Rightarrow> jsval" where
  "own_of (JObj r ps) k = own ps k"
| "own_of _ k = JUndef"

fun is_string :: "jsval \<Rightarrow> bool" where
  "is_string (JStr s) = True"
| "is_string _ = False"

fun is_object :: "jsval \<Rightarrow> bool" where
  "is_object (JObj r ps) = True"
| "is_object _ = False"

fun is_array :: "jsval \<Rightarrow> bool" where
  "is_array (JArr r vs) = True"
| "is_array _ = False"

fun is_int :: "jsval \<Rightarrow> bool" where
  "is_int (JNum x) = (num_int x \<noteq> None)"
| "is_int _ = False"

fun is_among :: "string list \<Rightarrow> jsval \<Rightarrow> bool" where
  "is_among vs (JStr s) = (s \<in> set vs)"
| "is_among vs _ = False"

primrec satisfies :: "check \<Rightarrow> jsval \<Rightarrow> bool" where
  "satisfies IsOptional v = True"
| "satisfies IsString v = is_string v"
| "satisfies IsObject v = is_object v"
| "satisfies IsArray v = is_array v"
| "satisfies IsInt v = is_int v"
| "satisfies IsNotEmpty v = (\<not> is_nullish_val v \<and> v \<noteq> JStr [])"
| "satisfies (IsEnum vs) v = is_among vs v"
| "satisfies (IsIn vs) v = is_among vs v"
| "satisfies (Equals s) v = (v = JStr s)"
| "satisfies ValidateNested v = (is_nullish_val v \<or> is_object v \<or> is_array v)"
| "satisfies ValidateNestedEach v = (is_nullish_val v \<or> is_object v \<or> is_array v)"

text \<open>The values nested in a field that are validated themselves\<close>

definition nested_values :: "field \<Rightarrow> jsval \<Rightarrow> jsval list" where
  "nested_values f x =
     (if ValidateNested \<in> set (fd_checks f) then
        (case x of JArr r vs \<Rightarrow> vs | JObj r ps \<Rightarrow> [x] | _ \<Rightarrow> [])
      else if ValidateNestedEach \<in> set (fd_checks f) then
        (case x of JArr r vs \<Rightarrow> vs | JObj r ps \<Rightarrow> map snd ps | _ \<Rightarrow> [])
      else [])"

primrec class_of :: "nested_type \<Rightarrow> jsval \<Rightarrow> model_class option" where
  "class_of Untyped v = None"
| "class_of (Typed c) v = Some c"
| "class_of ByKind v =
     (case own_of v ''kind'' of
        JStr s \<Rightarrow> map_option (\<lambda>k. handler_model (kind_class k)) (kind_of_string s)
      | _ \<Rightarrow> None)"
| "class_of (Discriminated p c subs) v =
     (case own_of v p of JStr s \<Rightarrow> (case map_of subs s of Some c' \<Rightarrow> Some c' | None \<Rightarrow> Some c) | _ \<Rightarrow> Some c)"

text \<open>An optional field that is absent or \<open>null\<close> is not checked further.\<close>

definition skipped :: "field \<Rightarrow> jsval \<Rightarrow> bool" where
  "skipped f x \<longleftrightarrow> IsOptional \<in> set (fd_checks f) \<and> is_nullish_val x"

definition checked :: "field \<Rightarrow> jsval \<Rightarrow> bool" where
  "checked f x \<longleftrightarrow> skipped f x \<or> list_all (\<lambda>c. satisfies c x) (fd_checks f)"

text \<open>Undeclared properties are forbidden; what a class of @subql/common declares is not known here.\<close>

definition declared :: "model_class \<Rightarrow> props \<Rightarrow> bool" where
  "declared C ps \<longleftrightarrow> extended C \<noteq> None \<or> fst ` set ps \<subseteq> fd_name ` set (declared_fields C)"

definition inherited :: "(string \<Rightarrow> jsval \<Rightarrow> bool) \<Rightarrow> model_class \<Rightarrow> jsval \<Rightarrow> bool" where
  "inherited common C v \<longleftrightarrow> (case extended C of None \<Rightarrow> True | Some s \<Rightarrow> common s v)"

lemma own_size: "own ps k = v \<Longrightarrow> v \<noteq> JUndef \<Longrightarrow> size v < size (JObj r ps)"
proof (induction ps)
  case (Cons p ps)
  then show ?case by (cases p) (auto simp: own_def split: if_splits)
qed (simp add: own_def)

lemma array_element_size: "y \<in> set vs \<Longrightarrow> size y < size (JArr r vs)"
  by (induction vs) auto

lemma object_member_size: "(k, y) \<in> set ps \<Longrightarrow> size y < size (JObj r ps)"
  by (induction ps) auto

lemma nested_values_size:
  assumes "y \<in> set (nested_values f x)"
  shows "size y \<le> size x"
proof -
  consider (here) "y = x" | (array) r vs where "x = JArr r vs" "y \<in> set vs"
    | (object) r k ps where "x = JObj r ps" "(k, y) \<in> set ps"
    using assms by (cases x) (auto simp: nested_values_def split: if_splits)
  then show ?thesis
    using array_element_size object_member_size less_imp_le by cases blast+
qed

lemma nested_values_JUndef [simp]: "nested_values f JUndef = []"
  by (simp add: nested_values_def)

function conforms :: "(string \<Rightarrow> jsval \<Rightarrow> bool) \<Rightarrow> model_class \<Rightarrow> jsval \<Rightarrow> bool" where
  "conforms common C (JObj r ps) \<longleftrightarrow>
     inherited common C (JObj r ps) \<and> declared C ps \<and>
     (\<forall>f \<in> set (declared_fields C). checked f (own ps (fd_name f)) \<and>
        (\<forall>y \<in> set (nested_values f (own ps (fd_name f))).
           case class_of (fd_type f) y of None \<Rightarrow> False | Some c \<Rightarrow> conforms common c y))"
| "conforms common C JUndef \<longleftrightarrow> False"
| "conforms common C JNull \<longleftrightarrow> False"
| "conforms common C (JBool b) \<longleftrightarrow> False"
| "conforms common C (JNum x) \<longleftrightarrow> False"
| "conforms common C (JBig n) \<longleftrightarrow> False"
| "conforms common C (JStr s) \<longleftrightarrow> False"
| "conforms common C (JFun s) \<longleftrightarrow> False"
| "conforms common C (JArr r vs) \<longleftrightarrow> False"
  by pat_completeness auto

termination
proof (relation "measure (\<lambda>(common, C, v). size v)")
  fix common :: "string \<Rightarrow> jsval \<Rightarrow> bool" and C r ps f y c
  assume y: "y \<in> set (nested_values f (own ps (fd_name f)))"
  then have "own ps (fd_name f) \<noteq> JUndef" by auto
  then have "size (own ps (fd_name f)) < size (JObj r ps)" using own_size by blast
  with nested_values_size [OF y]
  show "((common, c, y), common, C, JObj r ps) \<in> measure (\<lambda>(common, C, v). size v)"
    by simp
qed simp

declare conforms.simps(1) [simp del]

lemma conforms_JObj: "conforms common C v \<Longrightarrow> \<exists>r ps. v = JObj r ps"
  by (cases v) auto

section \<open>Reading a conforming value\<close>

text \<open>The records of the data model as read from a value; \<open>None\<close> when a field has another type\<close>

definition str_field :: "props \<Rightarrow> string \<Rightarrow> string nullable option" where
  "str_field ps k =
     (case own ps k of JUndef \<Rightarrow> Some Undefined | JNull \<Rightarrow> Some Null | JStr s \<Rightarrow> Some (Given s) | _ \<Rightarrow> None)"

definition num_field :: "props \<Rightarrow> string \<Rightarrow> jsnum nullable option" where
  "num_field ps k =
     (case own ps k of JUndef \<Rightarrow> Some Undefined | JNull \<Rightarrow> Some Null | JNum x \<Rightarrow> Some (Given x) | _ \<Rightarrow> None)"

fun all_some :: "'a option list \<Rightarrow> 'a list option" where
  "all_some [] = Some []"
| "all_some (None # xs) = None"
| "all_some (Some x # xs) = map_option (Cons x) (all_some xs)"

definition as_entry :: "string \<times> jsval \<Rightarrow> (string \<times> string) option" where
  "as_entry p = (case snd p of JStr s \<Rightarrow> Some (fst p, s) | _ \<Rightarrow> None)"

definition as_values :: "jsval \<Rightarrow> filter_values nullable option" where
  "as_values v =
     (case v of
        JUndef \<Rightarrow> Some Undefined
      | JNull \<Rightarrow> Some Null
      | JObj r ps \<Rightarrow> map_option Given (all_some (map as_entry ps))
      | _ \<Rightarrow> None)"

definition as_filter_fields :: "props \<Rightarrow> subql_filter option" where
  "as_filter_fields ps =
     Option.bind (num_field ps ''modulo'') (\<lambda>modulo.
     Option.bind (str_field ps ''timestamp'') (\<lambda>timestamp.
     Option.bind (str_field ps ''type'') (\<lambda>type.
     map_option (\<lambda>vals.
       \<lparr>f_modulo = modulo, f_timestamp = timestamp, f_cronSchedule = own ps ''cronSchedule'', f_type = type,
        f_values = vals\<rparr>) (as_values (own ps ''values'')))))"

definition as_filter :: "jsval \<Rightarrow> subql_filter nullable option" where
  "as_filter v =
     (case v of
        JUndef \<Rightarrow> Some Undefined
      | JNull \<Rightarrow> Some Null
      | JObj r ps \<Rightarrow> map_option Given (as_filter_fields ps)
      | _ \<Rightarrow> None)"

definition as_handler :: "jsval \<Rightarrow> subql_handler option" where
  "as_handler v =
     (case (own_of v ''handler'', own_of v ''kind'') of
        (JStr h, JStr k) \<Rightarrow>
          map_option (\<lambda>f. \<lparr>h_handler = h, h_kind = k, h_filter = f\<rparr>) (as_filter (own_of v ''filter''))
      | _ \<Rightarrow> None)"

definition as_mapping :: "jsval \<Rightarrow> subql_mapping option" where
  "as_mapping v =
     (case (own_of v ''file'', own_of v ''handlers'') of
        (JStr f, JArr r hs) \<Rightarrow> map_option (\<lambda>hs. \<lparr>m_file = f, m_handlers = hs\<rparr>) (all_some (map as_handler hs))
      | _ \<Rightarrow> None)"

text \<open>
  What no decorator checks: that a filter is no list of filters, that its values are strings, and anything
  inside the filter of a block handler.
\<close>

definition gaps_typed :: "jsval \<Rightarrow> bool" where
  "gaps_typed h \<longleftrightarrow>
     (if own_of h ''kind'' = JStr (kind_string BlockKind) then as_filter (own_of h ''filter'') \<noteq> None
      else \<not> is_array (own_of h ''filter'') \<and> as_values (own_of (own_of h ''filter'') ''values'') \<noteq> None)"

lemma conforms_field:
  "conforms common C (JObj r ps) \<Longrightarrow> f \<in> set (declared_fields C) \<Longrightarrow> checked f (own ps (fd_name f))"
  by (simp add: conforms.simps(1))

lemma conforms_nested:
  assumes "conforms common C (JObj r ps)" and "f \<in> set (declared_fields C)"
    and "y \<in> set (nested_values f (own ps (fd_name f)))"
  shows "\<exists>c. class_of (fd_type f) y = Some c \<and> conforms common c y"
proof -
  have "case class_of (fd_type f) y of None \<Rightarrow> False | Some c \<Rightarrow> conforms common c y"
    using assms unfolding conforms.simps(1) by blast
  then show ?thesis by (simp split: option.splits)
qed

lemma is_string_iff: "is_string v \<longleftrightarrow> (\<exists>s. v = JStr s)"
  by (cases v) auto

lemma is_array_iff: "is_array v \<longleftrightarrow> (\<exists>r vs. v = JArr r vs)"
  by (cases v) auto

lemma is_object_iff: "is_object v \<longleftrightarrow> (\<exists>r ps. v = JObj r ps)"
  by (cases v) auto

lemma is_among_iff: "is_among vs v \<longleftrightarrow> (\<exists>s \<in> set vs. v = JStr s)"
  by (cases v) auto

lemma is_nullish_val_iff: "is_nullish_val v \<longleftrightarrow> v = JUndef \<or> v = JNull"
  by (cases v) auto

lemmas shape_iffs = is_string_iff is_array_iff is_object_iff is_among_iff is_nullish_val_iff

text \<open>The filters that are validated\<close>

definition typed_filters :: "model_class set" where
  "typed_filters = {TransactionFilter, TransactionEventFilter, SpecialEventFilter}"

lemma conforming_filter:
  assumes "C \<in> typed_filters" and "conforms common C v" and "as_values (own_of v ''values'') = Some vals"
  shows "\<exists>type. as_filter v = Some (Given (no_filter_fields\<lparr>f_type := type, f_values := vals\<rparr>))"
proof -
  obtain r ps where v: "v = JObj r ps" using conforms_JObj [OF assms(2)] by blast
  have "checked (plain ''type'' [IsOptional, IsString]) (own ps ''type'')" and "declared C ps"
    using assms(1,2) by (auto simp: v typed_filters_def conforms.simps(1))
  then obtain type where "str_field ps ''type'' = Some type"
    by (auto simp: checked_def skipped_def shape_iffs str_field_def)
  moreover have "own ps k = JUndef" if "k \<notin> {''type'', ''values''}" for k
  proof -
    have "fd_name ` set (declared_fields C) = {''type'', ''values''}" and "extended C = None"
      using assms(1) by (auto simp: typed_filters_def extended_def)
    then have "fst ` set ps \<subseteq> {''type'', ''values''}"
      using \<open>declared C ps\<close> by (simp add: declared_def)
    with that have "map_of ps k = None" by (auto simp: map_of_eq_None_iff)
    then show ?thesis by (simp add: own_def)
  qed
  ultimately show ?thesis
    using assms(3)
    by (simp add: v as_filter_def as_filter_fields_def num_field_def str_field_def no_filter_fields_def)
qed

primrec filter_model :: "ConcordiumHandlerKind \<Rightarrow> model_class" where
  "filter_model BlockKind = CommonClass ''BlockFilterImpl''"
| "filter_model TransactionKind = TransactionFilter"
| "filter_model TransactionEventKind = TransactionEventFilter"
| "filter_model SpecialEventKind = SpecialEventFilter"

lemma filter_model_typed: "k \<noteq> BlockKind \<Longrightarrow> filter_model k \<in> typed_filters"
  by (cases k) (simp_all add: typed_filters_def)

definition filter_field :: "ConcordiumHandlerKind \<Rightarrow> field" where
  "filter_field k = typed ''filter'' (if k = BlockKind then [IsObject, IsOptional] else [IsOptional, ValidateNested]) (filter_model k)"

lemma handler_model_fields:
  "declared_fields (handler_model (kind_class k)) =
     [filter_field k, plain ''kind'' [IsEnum handler_kind_values], plain ''handler'' [IsString]]"
  by (cases k) (simp_all add: filter_field_def)

text \<open>What reading a validated handler of kind \<open>k\<close> gives\<close>

definition well_typed_handler :: "ConcordiumHandlerKind \<Rightarrow> subql_handler \<Rightarrow> bool" where
  "well_typed_handler k h \<longleftrightarrow> h_kind h = kind_string k \<and>
     (k \<noteq> BlockKind \<longrightarrow>
       (\<forall>f. h_filter h = Given f \<longrightarrow> (\<exists>type vals. f = no_filter_fields\<lparr>f_type := type, f_values := vals\<rparr>)))"

lemma conforming_handler_filter:
  assumes "conforms common (handler_model (kind_class k)) v" and "own_of v ''kind'' = JStr (kind_string k)"
    and "gaps_typed v"
  shows "\<exists>f. as_filter (own_of v ''filter'') = Some f \<and>
    (k \<noteq> BlockKind \<longrightarrow> (\<forall>g. f = Given g \<longrightarrow> (\<exists>type vals. g = no_filter_fields\<lparr>f_type := type, f_values := vals\<rparr>)))"
proof (cases "k = BlockKind")
  case True
  with assms(2,3) show ?thesis by (auto simp: gaps_typed_def simp del: kind_string.simps)
next
  case False
  obtain r ps where v: "v = JObj r ps" using conforms_JObj [OF assms(1)] by blast
  let ?x = "own ps ''filter''"
  have field: "filter_field k \<in> set (declared_fields (handler_model (kind_class k)))" "fd_name (filter_field k) = ''filter''"
    by (simp_all add: handler_model_fields) (simp add: filter_field_def)
  have "checked (filter_field k) ?x"
    using conforms_field [OF assms(1) [unfolded v] field(1)] field(2) by simp
  with False consider "is_nullish_val ?x" | r' qs where "?x = JObj r' qs" | r' vs where "?x = JArr r' vs"
    by (auto simp: checked_def skipped_def filter_field_def shape_iffs)
  then show ?thesis
  proof cases
    case 1
    then show ?thesis by (auto simp: v is_nullish_val_iff as_filter_def)
  next
    case 2
    then have "?x \<in> set (nested_values (filter_field k) (own ps (fd_name (filter_field k))))"
      using False by (simp add: field(2)) (simp add: nested_values_def filter_field_def)
    then have "conforms common (filter_model k) ?x"
      using conforms_nested [OF assms(1) [unfolded v] field(1)] by (auto simp: filter_field_def)
    moreover obtain vals where "as_values (own_of ?x ''values'') = Some vals"
      using assms(2,3) False by (auto simp: v gaps_typed_def simp del: kind_string.simps)
    ultimately show ?thesis
      using conforming_filter [OF filter_model_typed [OF False]] by (fastforce simp: v)
  next
    case 3
    with assms(2,3) False show ?thesis by (simp add: v gaps_typed_def del: kind_string.simps)
  qed
qed

lemma conforming_handler:
  assumes "class_of ByKind v = Some c" and "conforms common c v" and "gaps_typed v"
  shows "\<exists>k h. as_handler v = Some h \<and> well_typed_handler k h"
proof -
  from assms(1) obtain k where kind: "own_of v ''kind'' = JStr (kind_string k)" and c: "c = handler_model (kind_class k)"
    by (auto simp: kind_of_string_Some split: jsval.splits)
  obtain r ps where v: "v = JObj r ps" using conforms_JObj [OF assms(2)] by blast
  have "checked (plain ''handler'' [IsString]) (own ps ''handler'')"
    using conforms_field [OF assms(2) [unfolded v c], of "plain ''handler'' [IsString]"]
    by (simp add: handler_model_fields)
  then obtain hn where "own ps ''handler'' = JStr hn"
    by (auto simp: checked_def skipped_def shape_iffs)
  moreover obtain f where "as_filter (own_of v ''filter'') = Some f" and
    "k \<noteq> BlockKind \<longrightarrow> (\<forall>g. f = Given g \<longrightarrow> (\<exists>type vals. g = no_filter_fields\<lparr>f_type := type, f_values := vals\<rparr>))"
    using conforming_handler_filter [OF assms(2) [unfolded c] kind assms(3)] by blast
  ultimately show ?thesis
    using kind by (intro exI [of _ k] exI [of _ "\<lparr>h_handler = hn, h_kind = kind_string k, h_filter = f\<rparr>"])
      (auto simp: v as_handler_def well_typed_handler_def simp del: kind_string.simps)
qed

lemma all_some_Some: "(\<forall>x \<in> set xs. \<exists>y. g x = Some y \<and> P y) \<Longrightarrow> \<exists>ys. all_some (map g xs) = Some ys \<and> list_all P ys"
  by (induction xs) auto

definition well_typed_mapping :: "subql_mapping \<Rightarrow> bool" where
  "well_typed_mapping m \<longleftrightarrow> list_all (\<lambda>h. \<exists>k. well_typed_handler k h) (m_handlers m)"

lemma conforming_mapping:
  assumes "conforms common ConcordiumMapping v" and "\<And>r hs. own_of v ''handlers'' = JArr r hs \<Longrightarrow> list_all gaps_typed hs"
  shows "\<exists>m. as_mapping v = Some m \<and> well_typed_mapping m"
proof -
  obtain r ps where v: "v = JObj r ps" using conforms_JObj [OF assms(1)] by blast
  have fields: "checked \<lparr>fd_name = ''handlers'', fd_checks = [IsArray, ValidateNested], fd_type = ByKind\<rparr> (own ps ''handlers'')"
    "checked (plain ''file'' [IsString]) (own ps ''file'')"
    using assms(1) by (simp_all add: v conforms.simps(1))
  then obtain r' hs fn where hs: "own ps ''handlers'' = JArr r' hs" and fn: "own ps ''file'' = JStr fn"
    by (auto simp: checked_def skipped_def shape_iffs)
  have "\<exists>h. as_handler y = Some h \<and> (\<exists>k. well_typed_handler k h)" if "y \<in> set hs" for y
  proof -
    have "\<exists>c. class_of ByKind y = Some c \<and> conforms common c y"
      using conforms_nested [OF assms(1) [unfolded v],
          of "\<lparr>fd_name = ''handlers'', fd_checks = [IsArray, ValidateNested], fd_type = ByKind\<rparr>" y] that
      by (simp add: hs nested_values_def)
    moreover have "gaps_typed y"
      using assms(2) [of r' hs] that by (simp add: v hs list_all_iff)
    ultimately show ?thesis using conforming_handler by blast
  qed
  then obtain hs' where "all_some (map as_handler hs) = Some hs'" "list_all (\<lambda>h. \<exists>k. well_typed_handler k h) hs'"
    using all_some_Some [of hs as_handler "\<lambda>h. \<exists>k. well_typed_handler k h"] by blast
  then show ?thesis by (simp add: v as_mapping_def hs fn well_typed_mapping_def)
qed

lemma well_typed_not_custom: "well_typed_handler k h \<Longrightarrow> \<not> isCustomHandler h"
  by (simp add: well_typed_handler_def isCustomHandler_def isBaseHandler_iff)

section \<open>Properties\<close>

text \<open>
  C9: a runtime datasource that passes its validation has the types of the data model, up to what no
  decorator checks: its kind is the runtime kind, and its mapping, if it has one, reads as a mapping all of
  whose handlers are of a known kind and, but for block handlers, filter by type and values only.
\<close>

theorem validated_datasource_typed:
  assumes "\<And>x. validate x = [] \<Longrightarrow> conforms common ConcordiumRuntimeDataSourceImpl x"
    and "runtime_validate validate v = Inr ()"
    and "own_of v ''mapping'' = JObj r ps"
    and "\<And>r hs. own ps ''handlers'' = JArr r hs \<Longrightarrow> list_all gaps_typed hs"
  shows "own_of v ''kind'' = JStr runtime_kind \<and>
    (\<exists>m. as_mapping (own_of v ''mapping'') = Some m \<and> well_typed_mapping m \<and> find isCustomHandler (m_handlers m) = None)"
proof -
  have conf: "conforms common ConcordiumRuntimeDataSourceImpl v"
    using assms(1,2) by (auto simp: runtime_validate_def validateObject_def Let_def split: if_splits)
  obtain r' qs where v: "v = JObj r' qs" using conforms_JObj [OF conf] by blast
  have "checked (plain ''kind'' [IsEnum datasource_kind_values]) (own qs ''kind'')"
    using conf by (simp add: v conforms.simps(1))
  then have "own qs ''kind'' = JStr runtime_kind"
    by (auto simp: checked_def skipped_def shape_iffs datasource_kind_values_def)
  moreover have "conforms common ConcordiumMapping (own qs ''mapping'')"
    using conforms_nested [OF conf [unfolded v], of "typed ''mapping'' [ValidateNested] ConcordiumMapping" "own qs ''mapping''"]
      assms(3) by (simp add: v nested_values_def)
  from conforming_mapping [OF this] obtain m where "as_mapping (own qs ''mapping'') = Some m" "well_typed_mapping m"
    using assms(3,4) by (auto simp: v)
  moreover have "find isCustomHandler (m_handlers m) = None"
    using \<open>well_typed_mapping m\<close> well_typed_not_custom
    by (auto simp: well_typed_mapping_def list_all_iff find_None_iff)
  ultimately show ?thesis by (auto simp: v)
qed

text \<open>A datasource whose only handler has a filter with \<open>values: null\<close>\<close>

definition example_mapping_value :: props where
  "example_mapping_value =
     [(''file'', JStr ''./dist/index.js''),
      (''handlers'', JArr 1 [JObj 2
        [(''handler'', JStr ''handleTransfer''), (''kind'', JStr ''concordium/TransactionHandler''),
         (''filter'', JObj 3 [(''type'', JStr ''transfer''), (''values'', JNull)])]])]"

definition example_ds_value :: jsval where
  "example_ds_value =
     JObj 4 [(''kind'', JStr ''concordium/Runtime''), (''mapping'', JObj 5 example_mapping_value)]"

definition example_validator :: "jsval \<Rightarrow> string list" where
  "example_validator v =
     (if conforms (\<lambda>_ _. True) ConcordiumRuntimeDataSourceImpl v then [] else [''an instance has failed the validation''])"

lemma example_conforms: "conforms (\<lambda>_ _. True) ConcordiumRuntimeDataSourceImpl example_ds_value"
  by (simp add: conforms.simps(1) example_ds_value_def example_mapping_value_def inherited_def declared_def
      extended_def own_def checked_def skipped_def nested_values_def datasource_kind_values_def runtime_kind_def
      kind_of_string_def handler_kinds_def handler_kind_values_def)

theorem validated_datasource_typed_witness:
  "own_of example_ds_value ''kind'' = JStr runtime_kind \<and>
   (\<exists>m. as_mapping (JObj 5 example_mapping_value) = Some m \<and> well_typed_mapping m)"
proof -
  have "runtime_validate example_validator example_ds_value = Inr ()"
    by (simp add: runtime_validate_def validateObject_def example_validator_def example_conforms)
  moreover have "conforms (\<lambda>_ _. True) ConcordiumRuntimeDataSourceImpl x" if "example_validator x = []" for x
    using that by (simp add: example_validator_def split: if_splits)
  moreover have "list_all gaps_typed hs" if "own example_mapping_value ''handlers'' = JArr r hs" for r hs
  proof -
    have "hs = [JObj 2 [(''handler'', JStr ''handleTransfer''), (''kind'', JStr ''concordium/TransactionHandler''),
         (''filter'', JObj 3 [(''type'', JStr ''transfer''), (''values'', JNull)])]]"
      using that by (simp add: example_mapping_value_def own_def)
    then show ?thesis by (simp add: gaps_typed_def own_def as_values_def)
  qed
  ultimately show ?thesis
    using validated_datasource_typed [of example_validator "\<lambda>_ _. True" example_ds_value 5 example_mapping_value]
    by (auto simp: example_ds_value_def own_def)
qed























end
