(* ===== verification/Release.thy ===== *)
theory Release
  imports Prelude
begin

text \<open>
  The script that publishes a release of a package (.github/actions/create-release/gh-release-script.js):
  it cuts the section of the package's version out of its changelog and posts it as a GitHub release.  The
  request itself and the file system are arguments.
\<close>

section \<open>Lines\<close>

text \<open>\<open>text.split(/\\n/)\<close>\<close>

fun split_on :: "char \<Rightarrow> string \<Rightarrow> string list" where
  "split_on c [] = [[]]"
| "split_on c (x # xs) = (if x = c then [] # split_on c xs
     else (case split_on c xs of [] \<Rightarrow> [[x]] | l # ls \<Rightarrow> (x # l) # ls))"

definition split_lines :: "string \<Rightarrow> string list" where
  "split_lines = split_on (CHR 0x0A)"

definition is_digit :: "char \<Rightarrow> bool" where
  "is_digit c = (48 \<le> (of_char c :: nat) \<and> (of_char c :: nat) \<le> 57)"

text \<open>\<open>([0-9]+(\.[0-9]+)+)]\<close> at the start, with what follows it: at least one dot\<close>

definition some_digits :: "string \<Rightarrow> string option" where
  "some_digits s = (case s of c # cs \<Rightarrow> if is_digit c then Some (dropWhile is_digit cs) else None | [] \<Rightarrow> None)"

fun dotted :: "nat \<Rightarrow> string \<Rightarrow> string option" where
  "dotted fuel (c # cs) =
     (if c = CHR '']'' then Some cs
      else if c = CHR ''.'' then
        (case fuel of 0 \<Rightarrow> None | Suc n \<Rightarrow> (case some_digits cs of None \<Rightarrow> None | Some r \<Rightarrow> dotted n r))
      else None)"
| "dotted fuel [] = None"

definition dotted_version :: "string \<Rightarrow> string option" where
  "dotted_version s =
     (case some_digits s of
        Some (c # cs) \<Rightarrow> if c = CHR ''.'' then dotted (length s) (c # cs) else None
      | _ \<Rightarrow> None)"

definition digits :: "nat \<Rightarrow> string \<Rightarrow> string option" where
  "digits n s = (if length (take n s) = n \<and> list_all is_digit (take n s) then Some (drop n s) else None)"

definition literal :: "string \<Rightarrow> string \<Rightarrow> string option" where
  "literal p s = (if starts_with p s then Some (drop (length p) s) else None)"

text \<open>The heading of a release: \<open>## [1.2.3] - 2024-01-31\<close>\<close>

definition heading_here :: "string \<Rightarrow> bool" where
  "heading_here s =
     (Option.bind (literal ''## ['' s) (\<lambda>s. Option.bind (dotted_version s) (\<lambda>s. Option.bind (literal '' - '' s) (\<lambda>s.
      Option.bind (digits 4 s) (\<lambda>s. Option.bind (literal ''-'' s) (\<lambda>s. Option.bind (digits 2 s) (\<lambda>s.
      Option.bind (literal ''-'' s) (\<lambda>s. digits 2 s))))))) \<noteq> None)"

fun is_heading :: "string \<Rightarrow> bool" where
  "is_heading [] = heading_here []"
| "is_heading (c # cs) = (heading_here (c # cs) \<or> is_heading cs)"

section \<open>The script\<close>

definition checkForBetaVersion :: "string \<Rightarrow> bool" where
  "checkForBetaVersion version \<longleftrightarrow> has_substring ''-'' version"

text \<open>The first loop: the lines from the first one that mentions the version\<close>

fun from_version :: "string \<Rightarrow> string list \<Rightarrow> string list option" where
  "from_version version [] = None"
| "from_version version (l # ls) =
     (if has_substring (CHR ''['' # version @ '']'') l then Some (l # ls) else from_version version ls)"

text \<open>The second loop, after its first round\<close>

fun collect :: "string list \<Rightarrow> string" where
  "collect [] = []"
| "collect (l # ls) = (if is_heading l then [] else l @ CHR 0x0A # collect ls)"

text \<open>The collected text, and whether the step was marked as failed\<close>

definition gatherReleaseInfo :: "string \<Rightarrow> string \<Rightarrow> string \<times> bool" where
  "gatherReleaseInfo version changeLogs =
     (let releaseInfo =
        (case from_version version (split_lines changeLogs) of
           Some (l # ls) \<Rightarrow> l @ CHR 0x0A # collect ls
         | _ \<Rightarrow> [])
      in (releaseInfo, releaseInfo = []))"

record release_request =
  rr_owner :: string
  rr_name :: string
  rr_repo :: string
  rr_tag_name :: string
  rr_target_commitish :: string
  rr_body :: string

text \<open>\<open>packageName[1]\<close>, which is written \<open>undefined\<close> for a name without a scope\<close>

definition package_part :: "string \<Rightarrow> string" where
  "package_part repoName = (case split_on (CHR ''/'') repoName of _ # p # _ \<Rightarrow> p | _ \<Rightarrow> ''undefined'')"

definition publishRelease ::
  "(release_request \<Rightarrow> ('s, unit) io) \<Rightarrow> (js_error \<Rightarrow> ('s, unit) io) \<Rightarrow> string \<Rightarrow> string \<Rightarrow> string \<Rightarrow> string \<Rightarrow> ('s, unit) io"
where
  "publishRelease request setFailed version repoName target releaseInfo =
     catch_io
       (request \<lparr>rr_owner = ''subquery'', rr_name = CHR ''['' # version @ ''] '' @ repoName,
          rr_repo = ''subql-concordium'', rr_tag_name = package_part repoName @ CHR ''/'' # version,
          rr_target_commitish = target, rr_body = releaseInfo\<rparr>)
       setFailed"

definition release_script ::
  "(release_request \<Rightarrow> ('s, unit) io) \<Rightarrow> (js_error \<Rightarrow> ('s, unit) io) \<Rightarrow> string \<Rightarrow> string \<Rightarrow> string \<Rightarrow> string \<Rightarrow> ('s, unit) io"
where
  "release_script request setFailed version repoName target changeLogs =
     (if checkForBetaVersion version then return_io ()
      else (case gatherReleaseInfo version changeLogs of
          (releaseInfo, failed) \<Rightarrow>
            bind_io (if failed then setFailed (plain_error ''No release info found'') else return_io ()) (\<lambda>_.
              publishRelease request setFailed version repoName target releaseInfo)))"

section \<open>Properties\<close>

definition join_newlines :: "string list \<Rightarrow> string" where
  "join_newlines ls = concat (map (\<lambda>l. l @ [CHR 0x0A]) ls)"

lemma split_on_no: "c \<notin> set l \<Longrightarrow> split_on c (l @ c # r) = l # split_on c r"
  by (induction l) auto

lemma split_lines_join:
  "\<forall>l \<in> set ls. CHR 0x0A \<notin> set l \<Longrightarrow> split_lines (join_newlines ls) = ls @ [[]]"
  by (induction ls) (simp_all add: join_newlines_def split_lines_def split_on_no)

lemma from_version_append:
  "\<forall>l \<in> set pre. \<not> has_substring (CHR ''['' # version @ '']'') l \<Longrightarrow>
   from_version version (pre @ ls) = from_version version ls"
  by (induction pre) auto

lemma collect_body:
  "\<forall>l \<in> set body. \<not> is_heading l \<Longrightarrow> collect (body @ ls) = join_newlines body @ collect ls"
  by (induction body) (simp_all add: join_newlines_def)

text \<open>
  The release text is the section of its version: for a changelog in which the first line that mentions
  the version in brackets is its heading, it is that line and the lines up to the next release heading,
  each ended by a newline, and nothing else.
\<close>

theorem release_section:
  assumes "\<forall>l \<in> set (pre @ title # body @ following # post). CHR 0x0A \<notin> set l"
    and "\<forall>l \<in> set pre. \<not> has_substring (CHR ''['' # version @ '']'') l"
    and "has_substring (CHR ''['' # version @ '']'') title"
    and "\<forall>l \<in> set body. \<not> is_heading l" and "is_heading following"
  shows "gatherReleaseInfo version (join_newlines (pre @ title # body @ following # post)) =
    (join_newlines (title # body), False)"
proof -
  have "from_version version ((pre @ title # body @ following # post) @ [[]]) =
      Some (title # body @ following # post @ [[]])"
    using from_version_append [OF assms(2)] assms(3) by simp
  moreover have "collect (body @ following # post @ [[]]) = join_newlines body"
    using collect_body [OF assms(4)] assms(5) by simp
  ultimately show ?thesis
    using split_lines_join [OF assms(1)] by (simp add: gatherReleaseInfo_def Let_def) (simp add: join_newlines_def)
qed

theorem release_section_witness:
  "gatherReleaseInfo ''1.1.0'' (join_newlines [''# Changelog'', ''## [1.1.0] - 2024-07-03'', ''- fix'', ''## [1.0.0] - 2024-05-02'']) =
     (join_newlines [''## [1.1.0] - 2024-07-03'', ''- fix''], False)"
  using release_section [of "[''# Changelog'']" "''## [1.1.0] - 2024-07-03''" "[''- fix'']" "''## [1.0.0] - 2024-05-02''" "[]" "''1.1.0''"]
  by (simp add: heading_here_def literal_def dotted_version_def some_digits_def digits_def is_digit_def
      eval_nat_numeral)

text \<open>
  A version that the changelog does not mention marks the step as failed, and the release is published all
  the same, with an empty text.
\<close>

theorem release_without_section:
  assumes "\<forall>l \<in> set (split_lines changeLogs). \<not> has_substring (CHR ''['' # version @ '']'') l"
    and "\<not> checkForBetaVersion version" and "setFailed (plain_error ''No release info found'') s = (Inr (), s')"
  shows "release_script request setFailed version repoName target changeLogs s =
    publishRelease request setFailed version repoName target [] s'"
proof -
  have "from_version version (split_lines changeLogs) = None"
    using from_version_append [OF assms(1), of "[]"] by simp
  with assms(2,3) show ?thesis
    by (simp add: release_script_def gatherReleaseInfo_def Let_def io_defs)
qed

end
