(* ===== verification/Matching.thy ===== *)
theory Matching
  imports Dictionary Indexer Startup
begin

text \<open>
  What a dictionary query says, against what the indexer's filters accept: the queries of
  dictionary/v1/dictionaryV1.ts and the filters of concordium/block.concordium.ts are made from the same
  handler.

  The dictionary service, which gives the queries their meaning, is not in the repository, so a query is only
  what it says: its entity and, for each condition, the field, the JSON value and the matcher.  \<open>member_text\<close> is
  the JSON of a string or, by the \<open>toJSON\<close> of main.ts, of a bigint.  \<open>sets_plain_keys\<close> is lodash's
  documentation of \<open>setWith\<close> for a path that is one key.
\<close>

section \<open>Members\<close>

text \<open>A member of what is indexed, as a filter reads it\<close>

definition member_of :: "input \<Rightarrow> string \<Rightarrow> jsval" where
  "member_of i k = (case i of BlockInput b \<Rightarrow> JUndef | TransactionInput t \<Rightarrow> tx_get t k
     | TransactionEventInput e \<Rightarrow> field_of (te_js e) k | SpecialEventInput e \<Rightarrow> field_of (se_js e) k)"

section \<open>The values of a filter\<close>

definition plain_key :: "string \<Rightarrow> bool" where
  "plain_key k \<longleftrightarrow> k \<notin> {[], ''__proto__''} \<and> list_all (\<lambda>c. c \<notin> {CHR ''.'', CHR ''['', CHR '']''}) k \<and> hd k \<notin> set ''0123456789''"

definition sets_plain_keys :: "dict_lodash \<Rightarrow> bool" where
  "sets_plain_keys lo \<longleftrightarrow>
     (\<forall>ms k v. plain_key k \<longrightarrow> k \<notin> fst ` set ms \<longrightarrow> l_setWith lo (VObj ms) k v = VObj (ms @ [(k, VStr v)]))"

lemma nested_plain:
  assumes "sets_plain_keys lo" and "list_all (\<lambda>p. plain_key (fst p)) vs" and "distinct (map fst vs)"
  shows "nested_values lo vs = VObj (map (\<lambda>(k, v). (k, VStr v)) vs)"
proof -
  have "fold (\<lambda>(key, v) nested. l_setWith lo nested key v) vs (VObj ms) = VObj (ms @ map (\<lambda>(k, v). (k, VStr v)) vs)"
    if "fst ` set ms \<inter> fst ` set vs = {}" for ms
    using assms(2,3) that
  proof (induction vs arbitrary: ms)
    case (Cons p vs)
    with assms(1) show ?case
      by (cases p) (auto simp: sets_plain_keys_def intro!: Cons.IH [THEN trans] image_eqI [rotated])
  qed simp
  from this [of "[]"] show ?thesis by (simp add: nested_values_def)
qed

text \<open>The JSON of a member that is text\<close>

definition member_text :: "jsval \<Rightarrow> string option" where
  "member_text v = (case v of JStr s \<Rightarrow> Some s | JBig n \<Rightarrow> Some (bigint_toJSON n) | _ \<Rightarrow> None)"

section \<open>Filters and queries on the same data\<close>






lemma te_js_object: "\<not> is_nullish_val (te_js e)" "\<not> is_nullish_val (se_js s)"
  by (cases e, simp, cases s, simp)



section \<open>Queries\<close>

text \<open>A query built from a filter with a type and with values under plain keys\<close>

lemma entry_of_plain:
  assumes "sets_plain_keys lo" and "list_all (\<lambda>p. plain_key (fst p)) vs" and "distinct (map fst vs)"
    and "f_type f = Given t" and "f_values f = Given vs"
  shows "entry_for lo kind f = Inr \<lparr>q_entity = entity_of kind, q_conditions =
    [\<lparr>c_field = ''type'', c_value = VStr t, c_matcher = ''equalTo''\<rparr>,
     \<lparr>c_field = ''data'', c_value = VObj (map (\<lambda>(k, v). (k, VStr v)) vs), c_matcher = ''contains''\<rparr>]\<rparr>"
  using assms(4,5)
  by (simp add: entry_for_def filter_conditions_def type_condition_def data_condition_def nested_plain [OF assms(1-3)])


section \<open>Properties\<close>




lemma example_sets_plain_keys: "sets_plain_keys example_dict_lodash"
  by (auto simp: sets_plain_keys_def example_dict_lodash_def filter_id_conv)







text \<open>
  C34: for an account address the two differ: the query demands that the data contain the text of the
  address itself, while the filter accepts the event where the member is no text but the object that the SDK
  gives for the address.
\<close>

theorem account_beyond_query:
  assumes "sets_plain_keys lo" and "field_of (te_js e) ''tag'' = JStr t" and "t \<noteq> []" and "plain_key k"
    and "field_of (te_js e) k = JObj x ps" and "obj_member ps ''type'' = JStr ''AddressAccount''"
    and "obj_member ps ''address'' = JStr a"
    and "f_type f = Given t" and "f_values f = Given [(k, a)]"
  shows "filter_input (FilterTypeMap ts_ok) (TransactionEventInput e) (Given f) ds = Inr True \<and>
    member_text (member_of (TransactionEventInput e) k) = None \<and>
    txEventFilterToQueryEntry lo f = Inr \<lparr>q_entity = ''txEvents'', q_conditions =
      [\<lparr>c_field = ''type'', c_value = VStr t, c_matcher = ''equalTo''\<rparr>,
       \<lparr>c_field = ''data'', c_value = VObj [(k, VStr a)], c_matcher = ''contains''\<rparr>]\<rparr>"
proof (intro conjI)
  have "event_value_matches (JObj x ps) a = Inr True"
    using assms(6,7) by (simp add: event_value_matches_def equalsAddressAccount_def isAddressAccount_def)
  then show "filter_input (FilterTypeMap ts_ok) (TransactionEventInput e) (Given f) ds = Inr True"
    using assms(2,3,5,8,9) te_js_object(1) [of e]
    by (simp add: FilterTypeMap_def filterTxEventProcessor_def js_get_field type_rejects_def)
  show "member_text (member_of (TransactionEventInput e) k) = None"
    using assms(5) by (simp add: member_of_def member_text_def)
  show "txEventFilterToQueryEntry lo f = Inr \<lparr>q_entity = ''txEvents'', q_conditions =
      [\<lparr>c_field = ''type'', c_value = VStr t, c_matcher = ''equalTo''\<rparr>,
       \<lparr>c_field = ''data'', c_value = VObj [(k, VStr a)], c_matcher = ''contains''\<rparr>]\<rparr>"
    using entry_of_plain [OF assms(1) _ _ assms(8,9), of TransactionEventKind] assms(4)
    by (simp add: entry_for_kinds entity_of_def)
qed

definition transfer_event :: concordium_tx_event where
  "transfer_event = ConcordiumTxEvent
     [(''tag'', JStr ''Transferred''), (''to'', JObj 1 [(''type'', JStr ''AddressAccount''), (''address'', JStr ''3kBx'')])]
     0 None (ConcordiumTx [] None)"

theorem account_beyond_query_witness:
  "filter_input (FilterTypeMap (\<lambda>_ _. True)) (TransactionEventInput transfer_event)
     (Given (no_filter_fields\<lparr>f_type := Given ''Transferred'', f_values := Given [(''to'', ''3kBx'')]\<rparr>)) example_datasource = Inr True"
  using account_beyond_query [OF example_sets_plain_keys, of transfer_event "''Transferred''" "''to''" 1
      "[(''type'', JStr ''AddressAccount''), (''address'', JStr ''3kBx'')]" "''3kBx''"
      "no_filter_fields\<lparr>f_type := Given ''Transferred'', f_values := Given [(''to'', ''3kBx'')]\<rparr>"]
  by (simp add: transfer_event_def field_of_def obj_member_def plain_key_def)

end
