(* ===== verification/Prerelease.thy ===== *)
theory Prerelease
  imports Json Manifest
begin

text \<open>
  The script that prepares the manifest of a package for a prerelease
  (.github/actions/create-prerelease/remove-stable-version.js): a manifest that names a stable version is
  written back without it.  \<open>load\<close> is \<open>require\<close> of a JSON file and \<open>write\<close> is \<open>fs.writeFileSync\<close>;
  \<open>number\<close> is the text of a number.
\<close>

section \<open>\<open>JSON.stringify(v, null, 2)\<close>\<close>

fun join_entries :: "string list \<Rightarrow> string" where
  "join_entries [] = []"
| "join_entries [l] = l"
| "join_entries (l # m # ls) = l @ CHR '','' # CHR 0x0A # join_entries (m # ls)"

text \<open>A bracketed list of entries, each on a line of its own, indented by two more than the brackets\<close>

definition block_text :: "char \<Rightarrow> char \<Rightarrow> nat \<Rightarrow> string list \<Rightarrow> string" where
  "block_text opening closing n entries =
     (if entries = [] then [opening, closing]
      else opening # CHR 0x0A # join_entries (map ((@) (replicate (n + 2) CHR 0x20)) entries)
        @ CHR 0x0A # replicate n CHR 0x20 @ [closing])"

text \<open>
  \<open>None\<close> is the result \<open>undefined\<close>; members with that result are left out.  A value read from a JSON file
  holds no bigint.
\<close>

fun json_pretty :: "(jsnum \<Rightarrow> string) \<Rightarrow> nat \<Rightarrow> jsval \<Rightarrow> string option" where
  "json_pretty number n JUndef = None"
| "json_pretty number n (JFun f) = None"
| "json_pretty number n JNull = Some ''null''"
| "json_pretty number n (JBool b) = Some (if b then ''true'' else ''false'')"
| "json_pretty number n (JNum x) = Some (case x of NumFin _ _ \<Rightarrow> number x | _ \<Rightarrow> ''null'')"
| "json_pretty number n (JBig i) = None"
| "json_pretty number n (JStr s) = Some (json_quote s)"
| "json_pretty number n (JArr r vs) =
     Some (block_text CHR ''['' CHR '']'' n
       (map (\<lambda>v. case json_pretty number (n + 2) v of None \<Rightarrow> ''null'' | Some t \<Rightarrow> t) vs))"
| "json_pretty number n (JObj r ps) =
     Some (block_text CHR ''{'' CHR ''}'' n
       (concat (map (\<lambda>p. case json_pretty number (n + 2) (snd p) of
          None \<Rightarrow> [] | Some t \<Rightarrow> [json_quote (fst p) @ CHR '':'' # CHR 0x20 # t]) ps)))"

section \<open>The script\<close>

definition remove_stable_version ::
  "(jsnum \<Rightarrow> string) \<Rightarrow> (string \<Rightarrow> ('s, props) io) \<Rightarrow> (string \<Rightarrow> string \<Rightarrow> ('s, unit) io) \<Rightarrow> string \<Rightarrow> ('s, unit) io"
where
  "remove_stable_version number load write package_path =
     bind_io (load (package_path @ ''/package.json'')) (\<lambda>pJson.
       if js_truthy (obj_member pJson ''stableVersion'')
       then (case json_pretty number 0 (JObj 0 (props_delete ''stableVersion'' pJson)) of
               Some t \<Rightarrow> write (package_path @ ''/package.json'') t
             | None \<Rightarrow> return_io ())
       else return_io ())"

section \<open>What it does\<close>

text \<open>
  A manifest without a stable version is left alone; any other is written once, without that member and
  with every other member as it was, and a run that reads the manifest written so writes nothing.
\<close>

theorem remove_stable_version_spec:
  assumes "load (p @ ''/package.json'') s = (Inr ps, s')"
  shows "(\<not> js_truthy (obj_member ps ''stableVersion'') \<longrightarrow> remove_stable_version number load write p s = (Inr (), s')) \<and>
    (js_truthy (obj_member ps ''stableVersion'') \<longrightarrow>
      (\<exists>ps' t. json_pretty number 0 (JObj 0 ps') = Some t \<and>
        remove_stable_version number load write p s = write (p @ ''/package.json'') t s' \<and>
        (\<forall>k. k = ''stableVersion'' \<or> obj_member ps' k = obj_member ps k) \<and>
        (\<forall>again w w'. again (p @ ''/package.json'') w = (Inr ps', w') \<longrightarrow>
           remove_stable_version number again write p w = (Inr (), w'))))"
proof (intro conjI impI)
  assume "js_truthy (obj_member ps ''stableVersion'')"
  moreover have "\<not> js_truthy (obj_member (props_delete ''stableVersion'' ps) ''stableVersion'')"
    by (simp add: obj_member_def proto_member_def object_prototype_methods_def)
  ultimately show "\<exists>ps' t. json_pretty number 0 (JObj 0 ps') = Some t \<and>
        remove_stable_version number load write p s = write (p @ ''/package.json'') t s' \<and>
        (\<forall>k. k = ''stableVersion'' \<or> obj_member ps' k = obj_member ps k) \<and>
        (\<forall>again w w'. again (p @ ''/package.json'') w = (Inr ps', w') \<longrightarrow>
           remove_stable_version number again write p w = (Inr (), w'))"
    using assms
    by (intro exI [of _ "props_delete ''stableVersion'' ps"] exI conjI)
      (auto simp: remove_stable_version_def bind_io_def return_io_def obj_member_def)
qed (use assms in \<open>simp add: remove_stable_version_def bind_io_def return_io_def\<close>)

theorem remove_stable_version_spec_witness:
  "remove_stable_version (\<lambda>n. ''1'') (\<lambda>p n. (Inr [(''name'', JStr ''x'')], n)) (\<lambda>p t n. (Inr (), Suc n)) ''packages/node'' (0 :: nat) = (Inr (), 0)"
  using remove_stable_version_spec [of "\<lambda>p n. (Inr [(''name'', JStr ''x'')], n)" "''packages/node''" 0 "[(''name'', JStr ''x'')]" 0]
  by (simp add: obj_member_def proto_member_def object_prototype_methods_def)

theorem remove_stable_version_example:
  "json_pretty (\<lambda>n. ''1'') 0 (JObj 0 [(''name'', JStr ''x''), (''files'', JArr 0 [JStr ''d'']), (''deps'', JObj 0 [])]) =
     Some (''{'' @ CHR 0x0A # ''  \"name\": \"x\",'' @ CHR 0x0A # ''  \"files\": ['' @ CHR 0x0A # ''    \"d\"'' @ CHR 0x0A
       # ''  ],'' @ CHR 0x0A # ''  \"deps\": {}'' @ CHR 0x0A # ''}'')"
  by (simp add: block_text_def json_quote_def escape_char_def eval_nat_numeral)

end
