(* ===== verification/Spec2Isabelle.thy ===== *)
theory Spec2Isabelle
  imports ConcordiumApi ApiService Concurrency BlockFilter ApiConnection MetaService Indexer Dictionary ServiceInit
    DynamicDs Services Wiring Startup Validation Release Matching Prerelease
begin

text \<open>
  A model of the Concordium indexer of SubQuery (packages/node, packages/common-concordium and
  packages/types) and what it does.

  The program.  The node loads a project, connects to the endpoints of a Concordium network and fetches
  blocks in batches.  A fetched block is wrapped: its transactions and their events are collected from
  several requests and linked to the block.  The indexer hands the block, its transactions, their events
  and its special events to the handlers of the project's datasources whose filters let them through.  A
  handler runs in a sandbox with an API that answers about the indexed block only and repeats calls that
  fail on the network.  A dictionary, when there is one, tells beforehand which blocks can matter.

  Theories and sources (paths below packages/node/src unless another package is named).
    Prelude: errors as values, results, effectful code and loops; lists; strings.
    JsValue: JavaScript numbers, values, property reads, bigints and their text.
    Async: running async functions and \<open>Promise.all\<close> under an arbitrary schedule.
    Json: \<open>JSON.stringify\<close> of the values in a dictionary query, and its injectivity.
    ConcordiumTypes: packages/types/src/project.ts and concordium/interfaces.ts, the predicates of
      packages/common-concordium/src/project/utils.ts and of utils/project.ts.
    BlockFilter: concordium/block.concordium.ts.
    SafeApi: concordium/safe-api.ts.  ConcordiumApi: concordium/api.concordium.ts.
    ApiConnection: concordium/api.connection.ts.
    ApiService: the proxy of concordium/api.service.concordium.ts; ServiceInit: its initialisation, and
      indexer/dictionary/dictionary.service.ts with the class of dictionary/v1/dictionaryV1.ts.
    Concurrency: the calls of the handlers that are under way at the same time, over that proxy.
    Indexer: indexer/indexer.manager.ts.  Dictionary: the queries of dictionary/v1/dictionaryV1.ts.
    Manifest: packages/common-concordium/src/project (versions, load, the transformations in models.ts and
      v1_0_0/model.ts).  Validation: the classes of those two files with the decorators of their fields, and
      what it is for a value to conform to a class.  Project: configure/SubqueryProject.ts.
    DynamicDs: indexer/dynamic-ds.service.ts.
    Services: indexer/fetch.service.ts, unfinalizedBlocks.service.ts, project.service.ts, worker/ and
      blockDispatcher/.  MetaService: meta/meta.service.ts and meta.controller.ts.
    Wiring: the constructors of the services, the factories and the modules (indexer/fetch.module.ts,
      worker/*.module.ts, meta/, admin/, app.module.ts, configure/configure.module.ts, subcommands/*.module.ts).
    Startup: init.ts, main.ts, worker/worker.ts, yargs.ts, subcommands/*.init.ts and testing.service.ts.
    Matching: what the dictionary's queries say, against the filters of BlockFilter.
    Release: .github/actions/create-release/gh-release-script.js.  Prerelease:
      .github/actions/create-prerelease/remove-stable-version.js.
  A record is a class's fields or an object type, a definition a function or method under its own name
  (with a prefix where the name alone is ambiguous), over the objects it reads as arguments.

  State and effects.  An async function that awaits its calls one after the other is a transformer of the
  world \<open>'s\<close> which returns a result or an error next to the new world, so effects before a rejection
  stay.  The fetching of blocks, where requests of several blocks are under way at once, and the calls of the
  retrying proxy are resumptions (Async); their theorems hold for every order in which the requests complete,
  and \<open>run_proc\<close> is the run with nothing else under way.  A \<open>session\<close> of Concurrency is one thread with the
  APIs handed out on it and the calls under way, a transition system over any sequence of events; a handler
  that awaits its calls one by one (\<open>script\<close>) is one of them.  Objects that the program
  links to each other (a block and its transactions) are values: the links are made once, on a copy, and
  the model says which copy an object refers to.  In SafeApi every method of the client is a definition of
  its own (\<open>safe_\<close> and the method's name) and \<open>safe_body\<close> calls a method by name.  In Wiring a module is a
  record of data, and a factory a function from the injected values to what it constructs.

  Third-party code is an argument: the SDK's client (\<open>grpc_client\<close>, \<open>sdk_enums\<close>), lodash (\<open>lodash\<close>,
  \<open>dict_lodash\<close>), the services and base classes of @subql/node-core, NestJS, class-transformer and
  class-validator.  The meaning of the decorators (\<open>conforms\<close>) is their documentation's; that an object without
  validation errors conforms is a hypothesis (and, where it is said what validation lets through, the converse),
  as is that the container's lookup fails for a token nothing provides.  What the code relies on is stated where
  it is used: \<open>lodash_ok\<close>, \<open>dict_lodash_ok\<close> and \<open>sets_plain_keys\<close> are lodash's documentation of the functions,
  \<open>answers\<close> is a node whose answers, values or errors, depend on the request only, and \<open>serves\<close> one that always answers with a value.

  What the lemmas show.
    Interfaces as locales: \<open>data_filter\<close> (the three filters of data), \<open>pinned_client\<close> (a client whose
    requests are about one block), \<open>world_invariant\<close> (what attempts and clients keep, a retried call
    keeps), \<open>transition_system\<close> (the profiler, the sessions), \<open>prefix_code\<close> (JSON strings); each is interpreted on the
    definitions of the model.
    Filters: exactly which events, transactions and blocks are accepted, for heights beyond the exact doubles
    too, and when filtering throws.
    API: every request of a handler is about its block, for every interleaving of the calls of all handlers,
    and a call that overlaps with others settles; a call makes at most \<open>maxRetries\<close> (five)
    attempts and ends in one of four ways.
    Fetching: the result of a batch, its blocks or the error of one of them, for every interleaving; what
    holds of every batch that succeeds, whatever the node answers (the number of blocks, their links); the
    events of a transaction.
    Indexing: the schedule it refines, that each transaction is followed by its own events, and that
    the first error stops it.
    Dictionary: the queries represent all handlers; a query made from a filter with text values says what
    the filter accepts, but for account addresses the filter accepts more.
    Project: what is loaded and which manifests are refused; the deployment's chain id.
    Validation: what a datasource that passes has for types, and which filters pass.
    Wiring: every service of the repository finds what it asks for; its constructors and factories form no
    cycle of their own (those of other packages are unknown, \<open>params\<close> is \<open>None\<close> for them); factories agree with
    constructors; the services that workers proxy exist on the main thread.
    Services, start: port, interval, timestamps, order of initialisation, dynamic datasources, the testing
    command, and the JSON of bigints as filter values.
    Release: which part of the changelog is published.

  Bounds and fuel.  The depth of the call stack in \<open>run_safe\<close> is a number: one call suffices for every
  method except the one that calls itself, and for that one no depth does.  A fetch settles after six turns
  of the schedule, five requests and the event it emits, which the code does without a turn of its own.
  \<open>retry_loop\<close> terminates by the retries left, and a call settles after five turns.
  JavaScript numbers are exact up to 2 to the 53rd, which the theorems about the requests of handlers assume;
  above, \<open>Number(height)\<close> is off by at most one part in 2 to the 53rd (\<open>signed_round_error\<close>), as the block
  filter's theorem says.

  \<open>dotted\<close>, the repetition in the pattern of a release heading, has the length of the text as fuel, more than it
  has dots.  \<open>conforms\<close> recurs on the size of the value.

  Not modelled: logging, command-line parsing, update notices, the files that only re-export or declare types,
  the settings of the build tools and the vendored package manager, what the dictionary service makes of a
  query, and the code outside the repository that drives the services (the container, the fetch loop, the block
  queue, the store, the sandbox).  The theorems about the handlers' API quantify over every program
  of API calls (\<open>script\<close>) and every sequence of overlapping calls (\<open>event\<close>) in place of the sandbox.
\<close>

section \<open>From the chain to the handlers\<close>

text \<open>
  A node that has exactly one block at a height, and describes that block by its own hash and height.
\<close>

definition consistent_at :: "chain_data \<Rightarrow> int \<Rightarrow> string \<Rightarrow> bool" where
  "consistent_at d h hash \<longleftrightarrow>
     c_hashes d h = [hash] \<and> bi_blockHash (c_info d (Some hash)) = hash \<and> bi_blockHeight (c_info d (Some hash)) = h"

lemma fetched_info:
  assumes "consistent_at d h hash" and "block_at sdk lo d h = Inr b"
  shows "getBlockHash b = hash" and "bi_blockHeight (b_info b) = h"
  using assms by (auto simp: consistent_at_def block_at_def link_block_def Let_def getBlockHash_def)

text \<open>
  What the handlers ask while a fetched height is indexed, whatever they do, is about the block that
  the node has at that height: the block's own hash, or exactly the height.
\<close>

theorem fetched_height_requests:
  assumes "serves c d" and "num_int height = Some h" and "block_at sdk lo d h = Inr b"
    and "consistent_at d h hash" and "\<bar>h\<bar> \<le> 2 ^ 53"
  shows "fst (run_proc (getAndWrapBlock sdk lo c height) w) = Inr (iblock_of b) \<and>
    hd_blockHeight (ib_header (iblock_of b)) = num_of_int h \<and>
    list_all (pinned \<lparr>sc_blockHeight = num_of_int h, sc_blockHash = hash\<rparr>)
      (snd (snd (bind_io (getApi depth (logging_grpc send) (logging_pool pool) (ib_block (iblock_of b)))
        (run_script handler) (s, []))))"
proof (intro conjI)
  show "fst (run_proc (getAndWrapBlock sdk lo c height) w) = Inr (iblock_of b)"
    using assms(1-3) by (rule getAndWrapBlock_served)
  show "hd_blockHeight (ib_header (iblock_of b)) = num_of_int h"
    using fetched_info [OF assms(4,3)] assms(5) by (simp add: iblock_of_def blockToHeader_def bigint_to_number_exact)
  have "block_client b = \<lparr>sc_blockHeight = num_of_int h, sc_blockHash = hash\<rparr>"
    using fetched_info [OF assms(4,3)] assms(5)
    by (simp add: block_client_def new_safe_client_def getBlockHeight_def bigint_to_number_exact)
  then show "list_all (pinned \<lparr>sc_blockHeight = num_of_int h, sc_blockHash = hash\<rparr>)
      (snd (snd (bind_io (getApi depth (logging_grpc send) (logging_pool pool) (ib_block (iblock_of b)))
        (run_script handler) (s, []))))"
    using api_requests_pinned [of b depth send pool handler s] by (simp add: iblock_of_def)
qed

theorem fetched_height_requests_witness:
  "\<exists>b. block_at example_sdk example_lodash example_chain 7 = Inr b \<and>
     list_all (pinned \<lparr>sc_blockHeight = num_of_int 7, sc_blockHash = ''hash7''\<rparr>)
       (snd (snd (bind_io (getApi 9 (logging_grpc (\<lambda>r. return_io JNull)) (logging_pool (return_io ())) b)
         (run_script (CallApi GetBlockInfo [] (\<lambda>_. Finished))) (0::nat, []))))"
proof -
  obtain b where b: "block_at example_sdk example_lodash example_chain 7 = Inr b"
    using example_block_at by blast
  have "consistent_at example_chain 7 ''hash7''"
    by (simp add: consistent_at_def example_chain_def example_info_def)
  from fetched_height_requests [OF example_serves _ b this, of "num_of_int 7" 0 9 "\<lambda>r. return_io JNull" "return_io ()"
      "CallApi GetBlockInfo [] (\<lambda>_. Finished)" "0 :: nat"] b
  show ?thesis by (simp add: iblock_of_def del: run_script.simps)
qed

section \<open>Batches\<close>

text \<open>
  The block \<open>b\<close> is what a consistent node has at the height that the number \<open>n\<close> stands for.
\<close>

definition block_of :: "sdk_enums \<Rightarrow> lodash \<Rightarrow> chain_data \<Rightarrow> jsnum \<Rightarrow> concordium_block \<Rightarrow> bool" where
  "block_of sdk lo d n b \<longleftrightarrow>
     (\<exists>h. num_int n = Some h \<and> \<bar>h\<bar> \<le> 2 ^ 53 \<and> block_at sdk lo d h = Inr b \<and> consistent_at d h (getBlockHash b))"

lemma block_of_client:
  assumes "block_of sdk lo d n b"
  shows "\<exists>h. num_int n = Some h \<and> block_at sdk lo d h = Inr b \<and>
    block_client b = \<lparr>sc_blockHeight = num_of_int h, sc_blockHash = hd (c_hashes d h)\<rparr>"
proof -
  from assms obtain h where h: "num_int n = Some h" "\<bar>h\<bar> \<le> 2 ^ 53" "block_at sdk lo d h = Inr b"
    "consistent_at d h (getBlockHash b)" by (auto simp: block_of_def)
  then have "block_client b = \<lparr>sc_blockHeight = num_of_int h, sc_blockHash = hd (c_hashes d h)\<rparr>"
    using fetched_info [OF h(4,3)]
    by (simp add: block_client_def new_safe_client_def getBlockHeight_def bigint_to_number_exact consistent_at_def)
  with h show ?thesis by blast
qed

definition opens_only :: "concordium_block list \<Rightarrow> event list \<Rightarrow> bool" where
  "opens_only bs es \<longleftrightarrow> list_all (\<lambda>e. case e of OpenApi b \<Rightarrow> b \<in> set bs | _ \<Rightarrow> True) es"

lemma opened_blocks:
  assumes "opens_only bs es" and "fst ` set (apis st) \<subseteq> set bs"
  shows "fst ` set (apis (session_run depth send pool es st)) \<subseteq> set bs"
  using assms
proof (induction es arbitrary: st)
  case (Cons e es)
  have "fst ` set (apis (session_step depth send pool e st)) \<subseteq> set bs"
    using Cons.prems
    by (cases e) (auto simp: opens_only_def open_api_def start_call_def take_turn_def split: prod.splits sum.splits proc.splits)
  with Cons show ?case by (simp add: opens_only_def)
qed simp

text \<open>
  C7: a batch of heights is fetched with the requests of its blocks interleaved in any way, and the handlers
  of the fetched blocks have any calls under way, interleaved in any way: every request of a handler is
  about a block that the node has at one of the heights of the batch, namely the one its API was made for.
\<close>

theorem fetched_batch_requests:
  assumes "serves c d" and "\<And>s. fst (emit s) = Inr ()" and "list_all2 (block_of sdk lo d) heights bs"
    and "fst (fetchBlocks sdk lo c emit sched heights v) = Some (Inr ibs)"
    and "opens_only (map ib_block ibs) es"
  shows "let st = session_run depth send pool es (session_start w) in
    list_all (\<lambda>(i, q). \<exists>n \<in> set heights. \<exists>h. num_int n = Some h \<and>
      block_at sdk lo d h = Inr (api_block st (calls st ! i)) \<and>
      pinned \<lparr>sc_blockHeight = num_of_int h, sc_blockHash = hd (c_hashes d h)\<rparr> q) (sent st)"
proof -
  define st where "st = session_run depth send pool es (session_start w)"
  have fetched: "list_all2 (\<lambda>n b. \<exists>h. num_int n = Some h \<and> block_at sdk lo d h = Inr b) heights bs"
    using assms(3) by (rule list_all2_mono) (auto simp: block_of_def)
  note settle = fetchBlocks_all_settle [where emit = emit, OF assms(1) _ fetched]
  have "ibs = map iblock_of bs"
    using promise_all_result [OF settle, OF assms(2), where sched = sched and s = v] assms(4)
    by (simp add: fetchBlocks_def)
  then have "opens_only bs es" using assms(5) by (simp add: comp_def iblock_of_def)
  then have apis: "fst ` set (apis st) \<subseteq> set bs"
    unfolding st_def by (rule opened_blocks) (simp add: session_start_def)
  have ok: "session_ok depth send pool st" unfolding st_def by (rule reachable_session_ok)
  have "\<exists>n \<in> set heights. \<exists>h. num_int n = Some h \<and> block_at sdk lo d h = Inr (api_block st (calls st ! i)) \<and>
      pinned \<lparr>sc_blockHeight = num_of_int h, sc_blockHash = hd (c_hashes d h)\<rparr> q" if "(i, q) \<in> set (sent st)" for i q
  proof -
    have i: "i < length (calls st)" and q: "pinned (block_client (api_block st (calls st ! i))) q"
      using session_requests [OF ok] that by (auto simp: list_all_iff)
    from session_call(1) [OF ok i] apis have "api_block st (calls st ! i) \<in> set bs"
      by (auto simp: api_block_def)
    then obtain n where "n \<in> set heights" "block_of sdk lo d n (api_block st (calls st ! i))"
      using assms(3) by (metis in_set_conv_nth list_all2_conv_all_nth)
    with block_of_client q show ?thesis by metis
  qed
  then show ?thesis unfolding st_def [symmetric] Let_def list_all_iff by blast
qed

theorem fetched_batch_requests_witness:
  "\<exists>b. block_of example_sdk example_lodash example_chain (num_of_int 7) b \<and>
     (let st = session_run 9 flaky_node (return_io ())
          [OpenApi b, OpenApi b, StartCall 0 GetBlockInfo [], StartCall 1 GetBakerList [], TakeTurn 1, TakeTurn 0, TakeTurn 1]
          (session_start 0)
      in list_all (\<lambda>(i, q). pinned \<lparr>sc_blockHeight = num_of_int 7, sc_blockHash = ''hash7''\<rparr> q) (sent st))"
proof -
  obtain b where b: "block_at example_sdk example_lodash example_chain 7 = Inr b"
    using example_block_at by blast
  have hashes: "c_hashes example_chain 7 = [''hash7'']" by (simp add: example_chain_def)
  have "consistent_at example_chain 7 ''hash7''"
    by (simp add: consistent_at_def example_chain_def example_info_def)
  then have of: "block_of example_sdk example_lodash example_chain (num_of_int 7) b"
    using b fetched_info(1) [OF _ b] by (simp add: block_of_def)
  let ?es = "[OpenApi b, OpenApi b, StartCall 0 GetBlockInfo [], StartCall 1 GetBakerList [], TakeTurn 1, TakeTurn 0, TakeTurn 1]"
  have "list_all2 (\<lambda>n b. \<exists>h. num_int n = Some h \<and> block_at example_sdk example_lodash example_chain h = Inr b)
      [num_of_int 7, num_of_int 7] [b, b]"
    using b by simp
  note settle = fetchBlocks_all_settle [OF example_serves _ this, of "return_io ()"]
  have fetched: "fst (fetchBlocks example_sdk example_lodash example_grpc (return_io ()) (concat (replicate 6 [0, 1]))
      [num_of_int 7, num_of_int 7] 0) = Some (Inr (map iblock_of [b, b]))"
    unfolding fetchBlocks_def
    by (rule promise_all_completes [OF settle]) (auto simp: less_Suc_eq numeral_eq_Suc io_defs)
  have "opens_only (map ib_block (map iblock_of [b, b])) ?es" by (simp add: opens_only_def iblock_of_def)
  note batch = fetched_batch_requests [where bs = "[b, b]", OF example_serves _ _ fetched this,
      where depth = 9 and send = flaky_node and pool = "return_io ()" and w = 0]
  from of show ?thesis
    by (intro exI [of _ b] conjI) (use batch in \<open>auto simp: io_defs hashes Let_def list_all_iff simp del: fold.simps\<close>)
qed

end
